(* ===== verification/Lf_Prelude.thy ===== *)
theory Lf_Prelude
  imports
    Main
    "HOL-Library.Sublist"
    "HOL-Library.List_Lexorder"
    "HOL-Library.Char_ord"
    "HOL-Library.Code_Target_Nat"
begin

text \<open>
  The shared vocabulary of the development.  It holds what the Rust sources take from the
  language and its standard library: results, saturating and checked \<open>u64\<close> arithmetic,
  \<open>Iterator::max_by_key\<close>, \<open>BTreeMap\<close> (and \<open>HashMap\<close>, whose iteration order no modelled
  operation observes) as ordered association lists, and the interface every keyed store of
  the program relies on, as the locale \<open>kv_map\<close>.
\<close>

section \<open>Results\<close>

type_synonym ('e, 'a) result = "'e + 'a"

abbreviation Err :: "'e \<Rightarrow> ('e, 'a) result" where
  "Err \<equiv> Inl"

abbreviation Ok :: "'a \<Rightarrow> ('e, 'a) result" where
  "Ok \<equiv> Inr"

text \<open>The \<open>?\<close> operator: continue with the value of an \<open>Ok\<close>, return an \<open>Err\<close> unchanged.\<close>

definition rtry :: "('e, 'a) result \<Rightarrow> ('a \<Rightarrow> ('e, 'b) result) \<Rightarrow> ('e, 'b) result" where
  "rtry r f = (case r of Err e \<Rightarrow> Err e | Ok a \<Rightarrow> f a)"

lemma rtry_simps [simp]:
  "rtry (Err e) f = Err e"
  "rtry (Ok a) f = f a"
  by (simp_all add: rtry_def)

lemma rtry_eq_Ok_iff: "rtry r f = Ok b \<longleftrightarrow> (\<exists>a. r = Ok a \<and> f a = Ok b)"
  by (cases r) auto

lemma rtry_eq_Err_iff: "rtry r f = Err e \<longleftrightarrow> r = Err e \<or> (\<exists>a. r = Ok a \<and> f a = Err e)"
  by (cases r) auto

lemma rtry_cong:
  "r = s \<Longrightarrow> (\<And>a. s = Ok a \<Longrightarrow> f a = g a) \<Longrightarrow> rtry r f = rtry s g"
  by (cases s) auto

lemma rtry_unit_Ok: "rtry r f = Ok b \<longleftrightarrow> r = Ok () \<and> f () = Ok b"
  by (cases r) auto

lemma rtry_label:
  "rtry r f = Ok b \<Longrightarrow> (\<And>a. r = Ok a \<Longrightarrow> s = Ok a) \<Longrightarrow> (\<And>a. f a = Ok b \<Longrightarrow> g a = Ok b) \<Longrightarrow>
   rtry s g = Ok b"
  by (auto simp: rtry_eq_Ok_iff)

definition ok_or :: "'e \<Rightarrow> 'a option \<Rightarrow> ('e, 'a) result" where
  "ok_or e x = (case x of None \<Rightarrow> Err e | Some a \<Rightarrow> Ok a)"

lemma ok_or_simps [simp]:
  "ok_or e None = Err e"
  "ok_or e (Some a) = Ok a"
  by (simp_all add: ok_or_def)

lemma ok_or_eq_Ok_iff [simp]: "ok_or e x = Ok a \<longleftrightarrow> x = Some a"
  by (cases x) auto

definition is_ok :: "('e, 'a) result \<Rightarrow> bool" where
  "is_ok r = (case r of Err _ \<Rightarrow> False | Ok _ \<Rightarrow> True)"

lemma is_ok_simps [simp]:
  "is_ok (Ok a)"
  "\<not> is_ok (Err e)"
  by (simp_all add: is_ok_def)

lemma is_ok_iff: "is_ok r \<longleftrightarrow> (\<exists>a. r = Ok a)"
  by (cases r) auto

text \<open>\<open>for x in xs { body(x)?; }\<close>: stop at the first error.\<close>

fun try_each :: "('a \<Rightarrow> ('e, unit) result) \<Rightarrow> 'a list \<Rightarrow> ('e, unit) result" where
  "try_each f [] = Ok ()"
| "try_each f (x # xs) = rtry (f x) (\<lambda>_. try_each f xs)"

lemma try_each_Ok_iff: "try_each f xs = Ok () \<longleftrightarrow> (\<forall>x \<in> set xs. f x = Ok ())"
  by (induction xs) (auto simp: rtry_eq_Ok_iff)

lemma try_each_cong:
  "xs = ys \<Longrightarrow> (\<And>x. x \<in> set ys \<Longrightarrow> f x = g x) \<Longrightarrow> try_each f xs = try_each g ys"
  by (induction ys arbitrary: xs) auto

text \<open>\<open>collect::<Result<Vec<_>, _>>()\<close>.\<close>

fun try_map :: "('a \<Rightarrow> ('e, 'b) result) \<Rightarrow> 'a list \<Rightarrow> ('e, 'b list) result" where
  "try_map f [] = Ok []"
| "try_map f (x # xs) = rtry (f x) (\<lambda>y. rtry (try_map f xs) (\<lambda>ys. Ok (y # ys)))"

lemma try_map_Ok_length: "try_map f xs = Ok ys \<Longrightarrow> length ys = length xs"
  by (induction xs arbitrary: ys) (auto simp: rtry_eq_Ok_iff)

lemma try_map_Ok_set:
  "try_map f xs = Ok ys \<Longrightarrow> y \<in> set ys \<Longrightarrow> \<exists>x \<in> set xs. f x = Ok y"
  by (induction xs arbitrary: ys) (auto simp: rtry_eq_Ok_iff)

text \<open>
  A loop body with early \<open>return\<close>: it leaves the function with a value or goes on with the
  loop state.
\<close>

datatype ('r, 's) flow = Return 'r | Next 's

fun flow_fold :: "('a \<Rightarrow> 's \<Rightarrow> ('r, 's) flow) \<Rightarrow> 'a list \<Rightarrow> 's \<Rightarrow> ('r, 's) flow" where
  "flow_fold f [] s = Next s"
| "flow_fold f (x # xs) s = (case f x s of Return r \<Rightarrow> Return r | Next s' \<Rightarrow> flow_fold f xs s')"

lemma flow_fold_append:
  "flow_fold f (xs @ ys) s =
     (case flow_fold f xs s of Return r \<Rightarrow> Return r | Next s' \<Rightarrow> flow_fold f ys s')"
  by (induction xs arbitrary: s) (auto split: flow.splits)

section \<open>Unsigned 64-bit arithmetic\<close>

text \<open>
  Values of type \<open>u64\<close> are naturals at most \<open>u64_max\<close>; the operations that can leave the
  range are written with the behaviour the source asks for.  \<open>saturating_sub\<close> is
  subtraction on \<open>nat\<close>.
\<close>

definition u64_max :: nat where
  "u64_max = 2 ^ 64 - 1"

definition sat_add :: "nat \<Rightarrow> nat \<Rightarrow> nat" where
  "sat_add a b = min (a + b) u64_max"

definition sat_mul :: "nat \<Rightarrow> nat \<Rightarrow> nat" where
  "sat_mul a b = min (a * b) u64_max"

definition checked_add :: "nat \<Rightarrow> nat \<Rightarrow> nat option" where
  "checked_add a b = (if a + b \<le> u64_max then Some (a + b) else None)"

definition checked_mul :: "nat \<Rightarrow> nat \<Rightarrow> nat option" where
  "checked_mul a b = (if a * b \<le> u64_max then Some (a * b) else None)"

lemma sat_add_le [simp]: "sat_add a b \<le> u64_max"
  by (simp add: sat_add_def)

lemma sat_add_exact: "a + b \<le> u64_max \<Longrightarrow> sat_add a b = a + b"
  by (simp add: sat_add_def)

lemma sat_add_mono: "a \<le> a' \<Longrightarrow> b \<le> b' \<Longrightarrow> sat_add a b \<le> sat_add a' b'"
  by (auto simp: sat_add_def min_def)

lemma sat_mul_le [simp]: "sat_mul a b \<le> u64_max"
  by (simp add: sat_mul_def)

lemma checked_add_Some_iff: "checked_add a b = Some c \<longleftrightarrow> c = a + b \<and> a + b \<le> u64_max"
  by (auto simp: checked_add_def)

lemma checked_mul_Some_iff: "checked_mul a b = Some c \<longleftrightarrow> c = a * b \<and> a * b \<le> u64_max"
  by (auto simp: checked_mul_def)

section \<open>\<open>Iterator::max_by_key\<close>\<close>

text \<open>Of several elements with the greatest key the last one is returned.\<close>

fun max_by_key :: "('a \<Rightarrow> nat) \<Rightarrow> 'a list \<Rightarrow> 'a option" where
  "max_by_key f [] = None"
| "max_by_key f (x # xs) =
     (case max_by_key f xs of
        None \<Rightarrow> Some x
      | Some y \<Rightarrow> if f y < f x then Some x else Some y)"

lemma max_by_key_None_iff [simp]: "max_by_key f xs = None \<longleftrightarrow> xs = []"
  by (cases xs) (auto split: option.splits if_splits)

lemma max_by_key_in: "max_by_key f xs = Some y \<Longrightarrow> y \<in> set xs"
  by (induction xs arbitrary: y) (auto split: option.splits if_splits)

lemma max_by_key_max: "max_by_key f xs = Some y \<Longrightarrow> x \<in> set xs \<Longrightarrow> f x \<le> f y"
proof (induction xs arbitrary: y)
  case Nil
  then show ?case by simp
next
  case (Cons a xs)
  then show ?case
    by (cases "max_by_key f xs") (fastforce split: if_splits)+
qed

lemma max_by_key_unique:
  assumes "y \<in> set xs" and "\<And>x. x \<in> set xs \<Longrightarrow> x \<noteq> y \<Longrightarrow> f x < f y"
  shows "max_by_key f xs = Some y"
proof -
  have "xs \<noteq> []" using assms(1) by auto
  then obtain z where z: "max_by_key f xs = Some z"
    by (cases "max_by_key f xs") auto
  then have "z \<in> set xs" and "f y \<le> f z"
    using assms(1) by (auto dest: max_by_key_in max_by_key_max)
  with assms(2) [of z] z show ?thesis by (cases "z = y") auto
qed

section \<open>Ordered maps\<close>

type_synonym ('k, 'v) btree = "('k \<times> 'v) list"

definition bt_ok :: "('k::linorder, 'v) btree \<Rightarrow> bool" where
  "bt_ok m = sorted_wrt (<) (map fst m)"

definition bt_get :: "('k::linorder, 'v) btree \<Rightarrow> 'k \<Rightarrow> 'v option" where
  "bt_get m k = map_of m k"

definition bt_insert :: "'k::linorder \<Rightarrow> 'v \<Rightarrow> ('k, 'v) btree \<Rightarrow> ('k, 'v) btree" where
  "bt_insert k v m = filter (\<lambda>e. fst e < k) m @ (k, v) # filter (\<lambda>e. k < fst e) m"

definition bt_remove :: "'k::linorder \<Rightarrow> ('k, 'v) btree \<Rightarrow> ('k, 'v) btree" where
  "bt_remove k m = filter (\<lambda>e. fst e \<noteq> k) m"

definition bt_retain :: "('k \<Rightarrow> 'v \<Rightarrow> bool) \<Rightarrow> ('k::linorder, 'v) btree \<Rightarrow> ('k, 'v) btree" where
  "bt_retain P m = filter (\<lambda>e. P (fst e) (snd e)) m"

lemma bt_ok_Nil [simp]: "bt_ok []"
  by (simp add: bt_ok_def)

lemma bt_ok_distinct: "bt_ok m \<Longrightarrow> distinct (map fst m)"
  unfolding bt_ok_def by (simp add: strict_sorted_iff)

lemma bt_ok_filter: "bt_ok m \<Longrightarrow> bt_ok (filter P m)"
  by (induction m) (auto simp: bt_ok_def)

lemma bt_ok_insert: "bt_ok m \<Longrightarrow> bt_ok (bt_insert k v m)"
proof -
  assume m: "bt_ok m"
  have "bt_ok (filter (\<lambda>e. fst e < k) m)" and "bt_ok (filter (\<lambda>e. k < fst e) m)"
    using m by (rule bt_ok_filter)+
  then show ?thesis
    by (auto simp: bt_ok_def bt_insert_def sorted_wrt_append)
qed

lemma bt_ok_remove: "bt_ok m \<Longrightarrow> bt_ok (bt_remove k m)"
  by (simp add: bt_remove_def bt_ok_filter)

lemma bt_ok_retain: "bt_ok m \<Longrightarrow> bt_ok (bt_retain P m)"
  by (simp add: bt_retain_def bt_ok_filter)

lemma map_of_filter_key: "map_of (filter (\<lambda>e. Q (fst e)) m) k = (if Q k then map_of m k else None)"
  by (induction m) auto

lemma bt_get_insert: "bt_get (bt_insert k v m) k' = (if k' = k then Some v else bt_get m k')"
  using map_of_filter_key [of "\<lambda>x. x < k" m] map_of_filter_key [of "\<lambda>x. k < x" m]
  by (auto simp: bt_get_def bt_insert_def map_add_def split: option.splits)

lemma bt_get_remove: "bt_get (bt_remove k m) k' = (if k' = k then None else bt_get m k')"
  using map_of_filter_key [of "\<lambda>x. x \<noteq> k" m k'] by (simp add: bt_get_def bt_remove_def)

lemma map_of_filter_distinct:
  "distinct (map fst m) \<Longrightarrow>
   map_of (filter (\<lambda>e. P (fst e) (snd e)) m) k =
     (case map_of m k of None \<Rightarrow> None | Some v \<Rightarrow> if P k v then Some v else None)"
proof (induction m)
  case Nil
  then show ?case by simp
next
  case (Cons e m)
  then have "map_of m (fst e) = None"
    and "map_of (filter (\<lambda>e. P (fst e) (snd e)) m) (fst e) = None"
    by (auto simp: map_of_eq_None_iff)
  then show ?case using Cons by auto
qed

lemma bt_get_retain:
  "bt_ok m \<Longrightarrow> bt_get (bt_retain P m) k =
     (case bt_get m k of None \<Rightarrow> None | Some v \<Rightarrow> if P k v then Some v else None)"
  by (simp add: bt_get_def bt_retain_def map_of_filter_distinct bt_ok_distinct)

lemma filter_split_key:
  "bt_ok (m :: ('k::linorder, 'v) btree) \<Longrightarrow>
   length (filter (\<lambda>e. fst e < k) m) + length (filter (\<lambda>e. k < fst e) m)
     + (if map_of m k = None then 0 else 1) = length m"
proof (induction m)
  case Nil
  then show ?case by simp
next
  case (Cons e m)
  then have m: "bt_ok m" and gt: "\<forall>x \<in> set m. fst e < fst x"
    by (auto simp: bt_ok_def)
  then have none: "map_of m (fst e) = None"
    by (auto simp: map_of_eq_None_iff)
  show ?case
  proof (cases "fst e = k")
    case True
    then show ?thesis using Cons.IH [OF m] none by (cases e) auto
  next
    case False
    then show ?thesis using Cons.IH [OF m] by (cases e) (auto simp: neq_iff)
  qed
qed

lemma length_bt_insert:
  "bt_ok m \<Longrightarrow>
   length (bt_insert k v m) = (if bt_get m k = None then Suc (length m) else length m)"
  using filter_split_key [of m k] by (simp add: bt_insert_def bt_get_def split: if_splits)

lemma length_bt_retain: "length (bt_retain P m) \<le> length m"
  by (simp add: bt_retain_def)

lemma length_bt_remove: "length (bt_remove k m) \<le> length m"
  by (simp add: bt_remove_def)

section \<open>The interface of a keyed store\<close>

text \<open>
  What the rate limiter, the replay store and the journals rely on when they keep a map from
  keys to entries: what a lookup returns after each operation, and how the size moves.
\<close>

locale kv_map =
  fixes kget :: "'m \<Rightarrow> 'k \<Rightarrow> 'v option"
    and kput :: "'k \<Rightarrow> 'v \<Rightarrow> 'm \<Rightarrow> 'm"
    and kdel :: "'k \<Rightarrow> 'm \<Rightarrow> 'm"
    and kretain :: "('k \<Rightarrow> 'v \<Rightarrow> bool) \<Rightarrow> 'm \<Rightarrow> 'm"
    and ksize :: "'m \<Rightarrow> nat"
    and kinv :: "'m \<Rightarrow> bool"
  assumes get_put: "kinv m \<Longrightarrow> kget (kput k v m) k' = (if k' = k then Some v else kget m k')"
    and get_del: "kinv m \<Longrightarrow> kget (kdel k m) k' = (if k' = k then None else kget m k')"
    and get_retain: "kinv m \<Longrightarrow> kget (kretain P m) k =
      (case kget m k of None \<Rightarrow> None | Some v \<Rightarrow> if P k v then Some v else None)"
    and size_put: "kinv m \<Longrightarrow> ksize (kput k v m) = (if kget m k = None then Suc (ksize m) else ksize m)"
    and size_del: "kinv m \<Longrightarrow> ksize (kdel k m) \<le> ksize m"
    and size_retain: "kinv m \<Longrightarrow> ksize (kretain P m) \<le> ksize m"
    and inv_put: "kinv m \<Longrightarrow> kinv (kput k v m)"
    and inv_del: "kinv m \<Longrightarrow> kinv (kdel k m)"
    and inv_retain: "kinv m \<Longrightarrow> kinv (kretain P m)"
begin

text \<open>A store that is only extended below its capacity never exceeds it.\<close>

lemma size_put_bounded:
  assumes "kinv m" and "ksize m \<le> cap" and "kget m k = None \<Longrightarrow> ksize m < cap"
  shows "ksize (kput k v m) \<le> cap"
  using assms by (cases "kget m k") (auto simp: size_put)

text \<open>Purging drops exactly the entries the predicate rejects.\<close>

lemma retain_keeps:
  assumes "kinv m" and "kget m k = Some v" and "P k v"
  shows "kget (kretain P m) k = Some v"
  using assms by (simp add: get_retain)

lemma retain_origin:
  assumes "kinv m" and "kget (kretain P m) k = Some v"
  shows "kget m k = Some v \<and> P k v"
  using assms by (auto simp: get_retain split: option.splits if_splits)

end

interpretation bt: kv_map bt_get bt_insert bt_remove bt_retain length bt_ok
  by unfold_locales
    (simp_all add: bt_get_insert bt_get_remove bt_get_retain length_bt_insert length_bt_remove
      length_bt_retain bt_ok_insert bt_ok_remove bt_ok_retain)

end
