(* ===== verification/Rust_Strings.thy ===== *)
theory Rust_Strings
  imports Lf_Prelude
begin

text \<open>
  The string operations of the Rust standard library that the modelled sources call.  A
  \<open>String\<close> is its UTF-8 encoding, a list of bytes; \<open>len\<close> is the number of bytes.
\<close>

section \<open>ASCII case\<close>

definition ascii_lower_char :: "char \<Rightarrow> char" where
  "ascii_lower_char c =
     (let n = (of_char c :: nat) in if 65 \<le> n \<and> n \<le> 90 then char_of (n + 32) else c)"

definition ascii_upper_char :: "char \<Rightarrow> char" where
  "ascii_upper_char c =
     (let n = (of_char c :: nat) in if 97 \<le> n \<and> n \<le> 122 then char_of (n - 32) else c)"

definition to_ascii_lowercase :: "string \<Rightarrow> string" where
  "to_ascii_lowercase s = map ascii_lower_char s"

definition to_ascii_uppercase :: "string \<Rightarrow> string" where
  "to_ascii_uppercase s = map ascii_upper_char s"

definition eq_ignore_ascii_case :: "string \<Rightarrow> string \<Rightarrow> bool" where
  "eq_ignore_ascii_case a b = (to_ascii_lowercase a = to_ascii_lowercase b)"

lemma of_char_lt_256: "(of_char c :: nat) < 256"
proof -
  have "(of_char c :: nat) = of_char c mod 256" by simp
  then show ?thesis by (metis mod_less_divisor zero_less_numeral)
qed

lemma of_char_char_of: "n < 256 \<Longrightarrow> (of_char (char_of (n :: nat) :: char) :: nat) = n"
  by simp

lemma ascii_upper_lower_char: "ascii_upper_char (ascii_lower_char c) = ascii_upper_char c"
  by (auto simp: ascii_upper_char_def ascii_lower_char_def Let_def)

lemma ascii_lower_upper_char: "ascii_lower_char (ascii_upper_char c) = ascii_lower_char c"
  by (auto simp: ascii_upper_char_def ascii_lower_char_def Let_def)

lemma to_ascii_uppercase_lower [simp]: "to_ascii_uppercase (to_ascii_lowercase s) = to_ascii_uppercase s"
  by (simp add: to_ascii_uppercase_def to_ascii_lowercase_def ascii_upper_lower_char)

lemma to_ascii_lowercase_upper [simp]: "to_ascii_lowercase (to_ascii_uppercase s) = to_ascii_lowercase s"
  by (simp add: to_ascii_uppercase_def to_ascii_lowercase_def ascii_lower_upper_char)

lemma eq_ignore_ascii_case_upper_iff:
  "eq_ignore_ascii_case a b \<longleftrightarrow> to_ascii_uppercase a = to_ascii_uppercase b"
  unfolding eq_ignore_ascii_case_def
  by (metis to_ascii_lowercase_upper to_ascii_uppercase_lower)

lemma eq_ignore_ascii_case_refl [simp]: "eq_ignore_ascii_case a a"
  by (simp add: eq_ignore_ascii_case_def)

section \<open>Trimming\<close>

text \<open>
  The UTF-8 encodings of the characters with the Unicode property \<open>White_Space\<close>.  UTF-8 is
  self-synchronising, so stripping whole encodings at either end is \<open>str::trim\<close>.
\<close>

definition white_space :: "string list" where
  "white_space =
     [[CHR 0x09], [CHR 0x0A], [CHR 0x0B], [CHR 0x0C], [CHR 0x0D], [CHR 0x20],
      [CHR 0xC2, CHR 0x85], [CHR 0xC2, CHR 0xA0], [CHR 0xE1, CHR 0x9A, CHR 0x80],
      [CHR 0xE2, CHR 0x80, CHR 0x80], [CHR 0xE2, CHR 0x80, CHR 0x81],
      [CHR 0xE2, CHR 0x80, CHR 0x82], [CHR 0xE2, CHR 0x80, CHR 0x83],
      [CHR 0xE2, CHR 0x80, CHR 0x84], [CHR 0xE2, CHR 0x80, CHR 0x85],
      [CHR 0xE2, CHR 0x80, CHR 0x86], [CHR 0xE2, CHR 0x80, CHR 0x87],
      [CHR 0xE2, CHR 0x80, CHR 0x88], [CHR 0xE2, CHR 0x80, CHR 0x89],
      [CHR 0xE2, CHR 0x80, CHR 0x8A], [CHR 0xE2, CHR 0x80, CHR 0xA8],
      [CHR 0xE2, CHR 0x80, CHR 0xA9], [CHR 0xE2, CHR 0x80, CHR 0xAF],
      [CHR 0xE2, CHR 0x81, CHR 0x9F], [CHR 0xE3, CHR 0x80, CHR 0x80]]"

function strip_codes :: "string list \<Rightarrow> string \<Rightarrow> string" where
  "strip_codes ws s =
     (case find (\<lambda>w. w \<noteq> [] \<and> prefix w s) ws of
        None \<Rightarrow> s
      | Some w \<Rightarrow> strip_codes ws (drop (length w) s))"
  by pat_completeness auto
termination
  by (relation "measure (\<lambda>(ws, s). length s)")
    (auto simp: find_Some_iff prefix_def)

declare strip_codes.simps [simp del]

definition trim_start :: "string \<Rightarrow> string" where
  "trim_start s = strip_codes white_space s"

definition trim_end :: "string \<Rightarrow> string" where
  "trim_end s = rev (strip_codes (map rev white_space) (rev s))"

definition trim :: "string \<Rightarrow> string" where
  "trim s = trim_end (trim_start s)"

lemma strip_codes_Nil [simp]: "strip_codes ws [] = []"
  by (subst strip_codes.simps) (auto split: option.splits simp: find_Some_iff)

lemma suffix_strip_codes: "suffix (strip_codes ws s) s"
proof (induction ws s rule: strip_codes.induct)
  case (1 ws s)
  show ?case
  proof (cases "find (\<lambda>w. w \<noteq> [] \<and> prefix w s) ws")
    case None
    then show ?thesis by (subst strip_codes.simps) simp
  next
    case (Some w)
    then have "suffix (strip_codes ws (drop (length w) s)) (drop (length w) s)" by (rule "1.IH")
    then have "suffix (strip_codes ws (drop (length w) s)) s"
      by (meson suffix_drop suffix_order.trans)
    with Some show ?thesis by (subst strip_codes.simps) simp
  qed
qed

lemma trim_Nil [simp]: "trim [] = []"
  by (simp add: trim_def trim_start_def trim_end_def)

lemma length_trim_le: "length (trim s) \<le> length s"
proof -
  have "length (trim s) \<le> length (trim_start s)"
    using suffix_length_le [OF suffix_strip_codes [of "map rev white_space" "rev (trim_start s)"]]
    by (simp add: trim_def trim_end_def)
  also have "\<dots> \<le> length s"
    using suffix_length_le [OF suffix_strip_codes [of white_space s]] by (simp add: trim_start_def)
  finally show ?thesis .
qed

text \<open>Trimming and ASCII case do not interfere: white space has no letters.\<close>

lemma prefix_map_fixed:
  "\<forall>c \<in> set w. \<forall>x. f x = c \<longleftrightarrow> x = c \<Longrightarrow> prefix w (map f s) \<longleftrightarrow> prefix w s"
proof (induction w arbitrary: s)
  case (Cons c w)
  have "\<forall>x. c = f x \<longleftrightarrow> c = x" using Cons.prems by (metis list.set_intros(1))
  with Cons show ?case by (cases s) simp_all
qed simp

lemma strip_codes_map:
  assumes "\<forall>w \<in> set ws. \<forall>c \<in> set w. \<forall>x. f x = c \<longleftrightarrow> x = c"
  shows "strip_codes ws (map f s) = map f (strip_codes ws s)"
  using assms
proof (induction ws s rule: strip_codes.induct)
  case (1 ws s)
  have eq: "find (\<lambda>w. w \<noteq> [] \<and> prefix w (map f s)) ws = find (\<lambda>w. w \<noteq> [] \<and> prefix w s) ws"
    using "1.prems" by (intro find_cong) (auto simp: prefix_map_fixed)
  show ?case
  proof (cases "find (\<lambda>w. w \<noteq> [] \<and> prefix w s) ws")
    case None
    with eq show ?thesis by (subst (1 2) strip_codes.simps) simp
  next
    case (Some w)
    with "1.IH" [OF Some "1.prems"] eq show ?thesis
      by (subst (1 2) strip_codes.simps) (simp add: drop_map)
  qed
qed

lemma ascii_upper_char_fixed:
  assumes "\<not> (65 \<le> (of_char c :: nat) \<and> (of_char c :: nat) \<le> 90)"
    and "\<not> (97 \<le> (of_char c :: nat) \<and> (of_char c :: nat) \<le> 122)"
  shows "ascii_upper_char x = c \<longleftrightarrow> x = c"
proof
  assume u: "ascii_upper_char x = c"
  show "x = c"
  proof (cases "97 \<le> (of_char x :: nat) \<and> (of_char x :: nat) \<le> 122")
    case True
    then have "(of_char c :: nat) = of_char x - 32"
      using u by (auto simp: ascii_upper_char_def Let_def)
    with True assms(1) show ?thesis by linarith
  qed (use u in \<open>auto simp: ascii_upper_char_def Let_def\<close>)
qed (use assms(2) in \<open>auto simp: ascii_upper_char_def Let_def\<close>)

lemma white_space_caseless:
  "\<forall>w \<in> set white_space. \<forall>c \<in> set w. \<forall>x. ascii_upper_char x = c \<longleftrightarrow> x = c"
proof -
  have "list_all (list_all (\<lambda>c. \<not> (65 \<le> (of_char c :: nat) \<and> (of_char c :: nat) \<le> 90)
      \<and> \<not> (97 \<le> (of_char c :: nat) \<and> (of_char c :: nat) \<le> 122))) white_space"
    by code_simp
  then show ?thesis by (auto simp: list_all_iff ascii_upper_char_fixed)
qed

lemma trim_upper: "trim (to_ascii_uppercase s) = to_ascii_uppercase (trim s)"
proof -
  have "\<forall>w \<in> set (map rev white_space). \<forall>c \<in> set w. \<forall>x. ascii_upper_char x = c \<longleftrightarrow> x = c"
    using white_space_caseless by simp
  with white_space_caseless show ?thesis
    by (simp add: trim_def trim_start_def trim_end_def to_ascii_uppercase_def strip_codes_map rev_map)
qed
section \<open>Splitting and searching\<close>

abbreviation starts_with :: "string \<Rightarrow> string \<Rightarrow> bool" where
  "starts_with s p \<equiv> prefix p s"

definition contains_str :: "string \<Rightarrow> string \<Rightarrow> bool" where
  "contains_str s p = list_ex (\<lambda>t. prefix p t) (suffixes s)"

fun split_chars :: "char list \<Rightarrow> string \<Rightarrow> string list" where
  "split_chars cs [] = [[]]"
| "split_chars cs (x # xs) =
     (if x \<in> set cs then [] # split_chars cs xs
      else case split_chars cs xs of [] \<Rightarrow> [[x]] | p # ps \<Rightarrow> (x # p) # ps)"

lemma split_chars_not_Nil [simp]: "split_chars cs s \<noteq> []"
  by (induction s) (auto split: list.splits)

lemma split_chars_free: "p \<in> set (split_chars cs s) \<Longrightarrow> c \<in> set p \<Longrightarrow> c \<notin> set cs"
  by (induction s arbitrary: p) (fastforce split: list.splits if_splits)+

lemma split_chars_append:
  "c \<in> set cs \<Longrightarrow> split_chars cs (s @ c # t) = split_chars cs s @ split_chars cs t"
  by (induction s) (auto split: list.splits)

fun split_once :: "char \<Rightarrow> string \<Rightarrow> (string \<times> string) option" where
  "split_once c [] = None"
| "split_once c (x # xs) =
     (if x = c then Some ([], xs) else map_option (\<lambda>(a, b). (x # a, b)) (split_once c xs))"

lemma split_once_Some: "split_once c s = Some (a, b) \<Longrightarrow> s = a @ c # b \<and> c \<notin> set a"
  by (induction s arbitrary: a) (auto split: if_splits)

lemma split_once_append: "c \<notin> set a \<Longrightarrow> split_once c (a @ c # b) = Some (a, b)"
  by (induction a) auto

lemma split_once_None_iff: "split_once c s = None \<longleftrightarrow> c \<notin> set s"
  by (induction s) auto

definition rsplit_once :: "char \<Rightarrow> string \<Rightarrow> (string \<times> string) option" where
  "rsplit_once c s = map_option (\<lambda>(a, b). (rev b, rev a)) (split_once c (rev s))"

section \<open>Decimal numbers\<close>

definition digit_char :: "nat \<Rightarrow> char" where
  "digit_char d = char_of (48 + d)"

definition digit_val :: "char \<Rightarrow> nat option" where
  "digit_val c = (let n = (of_char c :: nat) in if 48 \<le> n \<and> n \<le> 57 then Some (n - 48) else None)"

lemma digit_val_char [simp]: "d < 10 \<Longrightarrow> digit_val (digit_char d) = Some d"
  by (simp add: digit_val_def digit_char_def Let_def)

fun parse_digits :: "nat \<Rightarrow> string \<Rightarrow> nat option" where
  "parse_digits acc [] = Some acc"
| "parse_digits acc (c # cs) =
     (case digit_val c of None \<Rightarrow> None | Some d \<Rightarrow> parse_digits (acc * 10 + d) cs)"

text \<open>\<open>str::parse\<close> at an unsigned type with greatest value \<open>m\<close>: an optional \<open>+\<close>, then digits.\<close>

definition parse_uint :: "nat \<Rightarrow> string \<Rightarrow> nat option" where
  "parse_uint m s =
     (let t = (case s of [] \<Rightarrow> [] | c # cs \<Rightarrow> if c = CHR ''+'' then cs else s)
      in if t = [] then None
         else case parse_digits 0 t of None \<Rightarrow> None | Some n \<Rightarrow> if n \<le> m then Some n else None)"

fun show_nat :: "nat \<Rightarrow> string" where
  "show_nat n = (if n < 10 then [digit_char n] else show_nat (n div 10) @ [digit_char (n mod 10)])"

declare show_nat.simps [simp del]

lemma show_nat_not_Nil [simp]: "show_nat n \<noteq> []"
  by (subst show_nat.simps) simp

lemma parse_digits_append:
  "parse_digits acc (xs @ ys) =
     (case parse_digits acc xs of None \<Rightarrow> None | Some a \<Rightarrow> parse_digits a ys)"
  by (induction xs arbitrary: acc) (auto split: option.splits)

lemma parse_digits_show_nat: "parse_digits 0 (show_nat n) = Some n"
proof (induction n rule: show_nat.induct)
  case (1 n)
  show ?case
  proof (cases "n < 10")
    case True
    then show ?thesis by (subst show_nat.simps) simp
  next
    case False
    with 1 have "parse_digits 0 (show_nat (n div 10)) = Some (n div 10)" by simp
    with False show ?thesis
      by (subst show_nat.simps) (simp add: parse_digits_append)
  qed
qed

lemma show_nat_digits: "c \<in> set (show_nat n) \<Longrightarrow> digit_val c \<noteq> None"
proof (induction n rule: show_nat.induct)
  case (1 n)
  then show ?case
    by (cases "n < 10") (auto simp: show_nat.simps [of n])
qed

lemma digit_val_plus [simp]: "digit_val CHR ''+'' = None"
  by (simp add: digit_val_def)

lemma parse_uint_show_nat: "n \<le> m \<Longrightarrow> parse_uint m (show_nat n) = Some n"
proof -
  assume n: "n \<le> m"
  obtain c cs where s: "show_nat n = c # cs" by (cases "show_nat n") auto
  then have "c \<noteq> CHR ''+''" using show_nat_digits [of c n] by auto
  with n s parse_digits_show_nat [of n] show ?thesis by (simp add: parse_uint_def)
qed

lemma parse_uint_le: "parse_uint m s = Some n \<Longrightarrow> n \<le> m"
  by (auto simp: parse_uint_def Let_def split: if_splits option.splits)

lemma show_nat_inject [simp]: "show_nat a = show_nat b \<longleftrightarrow> a = b"
  by (metis option.inject parse_digits_show_nat)

end
