(* ===== verification/Net_Addr.thy ===== *)
theory Net_Addr
  imports Rust_Strings
begin

text \<open>
  \<open>std::net::IpAddr\<close> as the gateway uses it: the text parser, the text form, the mapping of
  IPv4-mapped IPv6 addresses, and the address classes.  A V4 address is its four octets, a V6
  address its eight 16-bit segments.
\<close>

datatype ip_addr = V4 "nat list" | V6 "nat list"

definition ip_ok :: "ip_addr \<Rightarrow> bool" where
  "ip_ok a =
     (case a of
        V4 os \<Rightarrow> length os = 4 \<and> list_all (\<lambda>x. x < 256) os
      | V6 ss \<Rightarrow> length ss = 8 \<and> list_all (\<lambda>x. x < 65536) ss)"

section \<open>Parsing\<close>

text \<open>A reader consumes a prefix of the text or fails without consuming anything.\<close>

type_synonym 'a reader = "string \<Rightarrow> ('a \<times> string) option"

definition hex_val :: "char \<Rightarrow> nat option" where
  "hex_val c =
     (let n = (of_char c :: nat) in
      if 48 \<le> n \<and> n \<le> 57 then Some (n - 48)
      else if 97 \<le> n \<and> n \<le> 102 then Some (n - 87)
      else if 65 \<le> n \<and> n \<le> 70 then Some (n - 55)
      else None)"

definition radix_val :: "nat \<Rightarrow> char \<Rightarrow> nat option" where
  "radix_val radix c = (if radix = 10 then digit_val c else hex_val c)"

definition number_of :: "nat \<Rightarrow> string \<Rightarrow> nat" where
  "number_of radix ds = foldl (\<lambda>acc c. acc * radix + the (radix_val radix c)) 0 ds"

definition read_number :: "nat \<Rightarrow> nat \<Rightarrow> bool \<Rightarrow> nat \<Rightarrow> nat reader" where
  "read_number radix max_digits allow_zero_prefix bound s =
     (let ds = takeWhile (\<lambda>c. radix_val radix c \<noteq> None) s;
          rest = dropWhile (\<lambda>c. radix_val radix c \<noteq> None) s;
          n = number_of radix ds
      in if length ds > max_digits \<or> ds = [] \<or> n \<ge> bound then None
         else if \<not> allow_zero_prefix \<and> hd ds = CHR ''0'' \<and> length ds > 1 then None
         else Some (n, rest))"

definition read_char :: "char \<Rightarrow> unit reader" where
  "read_char c s = (case s of [] \<Rightarrow> None | x # xs \<Rightarrow> if x = c then Some ((), xs) else None)"

definition read_separator :: "char \<Rightarrow> nat \<Rightarrow> 'a reader \<Rightarrow> 'a reader" where
  "read_separator sep index inner s =
     (if index > 0 then (case read_char sep s of None \<Rightarrow> None | Some (_, s') \<Rightarrow> inner s')
      else inner s)"

fun read_octets :: "nat \<Rightarrow> nat \<Rightarrow> nat list reader" where
  "read_octets i 0 s = Some ([], s)"
| "read_octets i (Suc n) s =
     (case read_separator CHR ''.'' i (read_number 10 3 False 256) s of
        None \<Rightarrow> None
      | Some (x, s') \<Rightarrow>
          (case read_octets (Suc i) n s' of
             None \<Rightarrow> None
           | Some (xs, s'') \<Rightarrow> Some (x # xs, s'')))"

definition read_ipv4 :: "nat list reader" where
  "read_ipv4 s = read_octets 0 4 s"

text \<open>
  \<open>read_groups\<close> fills at most \<open>limit\<close> segments and reports whether it ended with an
  embedded IPv4 address, which needs two segments.
\<close>

fun read_groups :: "nat \<Rightarrow> nat \<Rightarrow> string \<Rightarrow> (nat list \<times> bool) \<times> string" where
  "read_groups i 0 s = (([], False), s)"
| "read_groups i (Suc left) s =
     (case (if left > 0 then read_separator CHR '':'' i read_ipv4 s else None) of
        Some (os, s') \<Rightarrow>
          (([256 * os ! 0 + os ! 1, 256 * os ! 2 + os ! 3], True), s')
      | None \<Rightarrow>
          (case read_separator CHR '':'' i (read_number 16 4 True 65536) s of
             None \<Rightarrow> (([], False), s)
           | Some (g, s') \<Rightarrow>
               (case read_groups (Suc i) left s' of ((gs, v4), s'') \<Rightarrow> ((g # gs, v4), s''))))"

definition read_ipv6 :: "nat list reader" where
  "read_ipv6 s =
     (case read_groups 0 8 s of ((head, head_ipv4), s1) \<Rightarrow>
        if length head = 8 then Some (head, s1)
        else if head_ipv4 then None
        else case read_char CHR '':'' s1 of None \<Rightarrow> None | Some (_, s2) \<Rightarrow>
             case read_char CHR '':'' s2 of None \<Rightarrow> None | Some (_, s3) \<Rightarrow>
             case read_groups 0 (8 - (length head + 1)) s3 of ((tail, _), s4) \<Rightarrow>
               Some (head @ replicate (8 - length head - length tail) 0 @ tail, s4))"

definition parse_ip :: "string \<Rightarrow> ip_addr option" where
  "parse_ip s =
     (case read_ipv4 s of
        Some (os, r) \<Rightarrow> if r = [] then Some (V4 os) else None
      | None \<Rightarrow>
          (case read_ipv6 s of
             Some (ss, r) \<Rightarrow> if r = [] then Some (V6 ss) else None
           | None \<Rightarrow> None))"

section \<open>Text form\<close>

definition hex_digit :: "nat \<Rightarrow> char" where
  "hex_digit d = (if d < 10 then char_of (48 + d) else char_of (87 + d))"

fun show_hex :: "nat \<Rightarrow> string" where
  "show_hex n = (if n < 16 then [hex_digit n] else show_hex (n div 16) @ [hex_digit (n mod 16)])"

declare show_hex.simps [simp del]

fun join_with :: "string \<Rightarrow> string list \<Rightarrow> string" where
  "join_with sep [] = []"
| "join_with sep [x] = x"
| "join_with sep (x # y # xs) = x @ sep @ join_with sep (y # xs)"

text \<open>The first longest run of zero segments, as start and length.\<close>

fun zero_run :: "nat \<Rightarrow> nat \<times> nat \<Rightarrow> nat \<times> nat \<Rightarrow> nat list \<Rightarrow> nat \<times> nat" where
  "zero_run i cur longest [] = longest"
| "zero_run i cur longest (s # ss) =
     (if s = 0
      then let cur' = (if snd cur = 0 then i else fst cur, snd cur + 1)
           in zero_run (Suc i) cur' (if snd longest < snd cur' then cur' else longest) ss
      else zero_run (Suc i) (0, 0) longest ss)"

definition to_ipv4_mapped :: "nat list \<Rightarrow> nat list option" where
  "to_ipv4_mapped ss =
     (if length ss = 8 \<and> take 6 ss = [0, 0, 0, 0, 0, 65535]
      then Some [ss ! 6 div 256, ss ! 6 mod 256, ss ! 7 div 256, ss ! 7 mod 256]
      else None)"

definition show_v4 :: "nat list \<Rightarrow> string" where
  "show_v4 os = join_with ''.'' (map show_nat os)"

definition show_ip :: "ip_addr \<Rightarrow> string" where
  "show_ip a =
     (case a of
        V4 os \<Rightarrow> show_v4 os
      | V6 ss \<Rightarrow>
          (case to_ipv4_mapped ss of
             Some os \<Rightarrow> ''::ffff:'' @ show_v4 os
           | None \<Rightarrow>
               (case zero_run 0 (0, 0) (0, 0) ss of (start, len) \<Rightarrow>
                  if len > 1
                  then join_with '':'' (map show_hex (take start ss)) @ ''::''
                       @ join_with '':'' (map show_hex (drop (start + len) ss))
                  else join_with '':'' (map show_hex ss))))"

section \<open>Address classes\<close>

definition is_unspecified :: "ip_addr \<Rightarrow> bool" where
  "is_unspecified a = (case a of V4 os \<Rightarrow> os = [0, 0, 0, 0] | V6 ss \<Rightarrow> ss = replicate 8 0)"

definition is_multicast :: "ip_addr \<Rightarrow> bool" where
  "is_multicast a =
     (case a of
        V4 os \<Rightarrow> (case os of [] \<Rightarrow> False | x # _ \<Rightarrow> 224 \<le> x \<and> x \<le> 239)
      | V6 ss \<Rightarrow> (case ss of [] \<Rightarrow> False | x # _ \<Rightarrow> 65280 \<le> x))"

section \<open>What the parser returns is an address\<close>

lemma read_number_bound: "read_number radix d z bound s = Some (n, r) \<Longrightarrow> n < bound"
  by (auto simp: read_number_def Let_def split: if_splits)

lemma read_separator_inner:
  "read_separator sep i inner s = Some (x, r) \<Longrightarrow> \<exists>s'. inner s' = Some (x, r)"
  by (auto simp: read_separator_def split: if_splits option.splits prod.splits)

lemma read_octets_ok:
  "read_octets i n s = Some (xs, r) \<Longrightarrow> length xs = n \<and> list_all (\<lambda>x. x < 256) xs"
  by (induction i n s arbitrary: xs r rule: read_octets.induct)
    (auto split: option.splits prod.splits dest!: read_separator_inner read_number_bound)

lemma read_ipv4_ok: "read_ipv4 s = Some (xs, r) \<Longrightarrow> length xs = 4 \<and> list_all (\<lambda>x. x < 256) xs"
  by (auto simp: read_ipv4_def dest: read_octets_ok)

lemma octet_pair_bound: "a < 256 \<Longrightarrow> b < 256 \<Longrightarrow> 256 * a + b < (65536 :: nat)"
  by simp

lemma read_groups_ok:
  "read_groups i n s = ((gs, v4), r) \<Longrightarrow> length gs \<le> n \<and> list_all (\<lambda>x. x < 65536) gs"
proof (induction n arbitrary: i s gs v4 r)
  case 0
  then show ?case by simp
next
  case (Suc n)
  let ?e = "if n > 0 then read_separator CHR '':'' i read_ipv4 s else None"
  let ?g = "read_separator CHR '':'' i (read_number 16 4 True 65536) s"
  consider (quad) os s' where "?e = Some (os, s')"
    | (stop) "?e = None" "?g = None"
    | (group) g s' where "?e = None" "?g = Some (g, s')"
    by (cases ?e; cases ?g) auto
  then show ?case
  proof cases
    case quad
    then have "n > 0" and rs: "read_separator CHR '':'' i read_ipv4 s = Some (os, s')"
      by (simp_all split: if_splits)
    from read_separator_inner [OF rs] obtain t where "read_ipv4 t = Some (os, s')" ..
    then have "length os = 4" "list_all (\<lambda>x. x < 256) os" by (simp_all add: read_ipv4_ok)
    then have "os ! 0 < 256" "os ! 1 < 256" "os ! 2 < 256" "os ! 3 < 256"
      by (simp_all add: list_all_length)
    moreover have "gs = [256 * os ! 0 + os ! 1, 256 * os ! 2 + os ! 3]"
      using Suc.prems by (simp only: read_groups.simps quad) simp
    ultimately show ?thesis using \<open>n > 0\<close> by simp
  next
    case stop
    have "gs = []" using Suc.prems by (simp only: read_groups.simps stop) simp
    then show ?thesis by simp
  next
    case group
    obtain gs' v' r' where rec: "read_groups (Suc i) n s' = ((gs', v'), r')"
      by (metis surj_pair)
    have "gs = g # gs'"
      using Suc.prems by (simp only: read_groups.simps group) (simp add: rec)
    moreover have "g < 65536"
      using read_separator_inner [OF group(2)] by (auto dest: read_number_bound)
    ultimately show ?thesis using Suc.IH [OF rec] by simp
  qed
qed

lemma read_ipv6_ok:
  assumes "read_ipv6 s = Some (ss, r)"
  shows "length ss = 8 \<and> list_all (\<lambda>x. x < 65536) ss"
proof -
  obtain hd4 v4 s1 where h: "read_groups 0 8 s = ((hd4, v4), s1)" by (metis surj_pair)
  then have hb: "length hd4 \<le> 8" "list_all (\<lambda>x. x < 65536) hd4" by (auto dest: read_groups_ok)
  show ?thesis
  proof (cases "length hd4 = 8")
    case True
    with assms h hb show ?thesis by (simp add: read_ipv6_def)
  next
    case False
    with assms h obtain s3 tl4 w s4 where
      t: "read_groups 0 (8 - (length hd4 + 1)) s3 = ((tl4, w), s4)"
      and ss: "ss = hd4 @ replicate (8 - length hd4 - length tl4) 0 @ tl4"
      by (auto simp: read_ipv6_def split: if_splits option.splits prod.splits)
    then have "length tl4 \<le> 8 - (length hd4 + 1)" "list_all (\<lambda>x. x < 65536) tl4"
      by (auto dest: read_groups_ok)
    with hb ss show ?thesis by (auto simp: list_all_iff)
  qed
qed

lemma parse_ip_ok: "parse_ip s = Some a \<Longrightarrow> ip_ok a"
  by (auto simp: parse_ip_def ip_ok_def split: option.splits if_splits prod.splits
      dest: read_ipv4_ok read_ipv6_ok)

end
