(* ===== verification/Gateway_Config.thy ===== *)
theory Gateway_Config
  imports Rust_Strings
begin

text \<open>
  The transport-neutral request view of \<open>crates/gateway-policy/src/lib.rs\<close> and the shared
  helpers of \<open>crates/gateway-policy/src/config_util.rs\<close>: header access, the string-list and
  string-map shorthands of the configuration files, and longest-prefix selection, whose
  contract is the locale \<open>longest_prefix\<close>.
\<close>

section \<open>Request heads and header writers\<close>

text \<open>
  \<open>http::HeaderMap\<close> is not part of the repository.  A request head carries what the policies
  observe of it: for each name the values \<open>get_all\<close> yields in order, each with its bytes and
  with what \<open>HeaderValue::to_str\<close> answers.
\<close>

record hval =
  hv_bytes :: string
  hv_text :: "string option"

record request_head =
  rh_headers :: "string \<Rightarrow> hval list"
  rh_method :: string

definition header_get :: "request_head \<Rightarrow> string \<Rightarrow> hval option" where
  "header_get req name = (case rh_headers req name of [] \<Rightarrow> None | v # _ \<Rightarrow> Some v)"

definition request_header :: "request_head \<Rightarrow> string \<Rightarrow> string option" where
  "request_header req name =
     (case header_get req name of None \<Rightarrow> None | Some v \<Rightarrow> hv_text v)"

text \<open>
  The \<open>HeaderWriter\<close> trait: the adapter performs ordered header operations.  An insertion
  that fails reports an error and leaves the writer in the state it returns.
\<close>

record ('w, 'e) header_writer =
  hw_insert :: "'w \<Rightarrow> string \<Rightarrow> string \<Rightarrow> 'e option \<times> 'w"
  hw_remove :: "'w \<Rightarrow> string \<Rightarrow> 'w"

text \<open>A sequence of insertions that stops at the first failure (\<open>insert_header(..)?\<close>).\<close>

fun write_all :: "('w, 'e) header_writer \<Rightarrow> 'w \<Rightarrow> (string \<times> string) list \<Rightarrow> 'e option \<times> 'w" where
  "write_all hw w [] = (None, w)"
| "write_all hw w ((name, value) # kvs) =
     (case hw_insert hw w name value of
        (Some e, w') \<Rightarrow> (Some e, w')
      | (None, w') \<Rightarrow> write_all hw w' kvs)"

section \<open>Longest-prefix selection\<close>

text \<open>
  Every path-scoped policy of the gateway picks, among its entries whose prefix starts the
  request path (and that pass a further test on the request), one with the longest prefix.
  Ties go to the later entry, as \<open>Iterator::max_by_key\<close> resolves them.
\<close>

definition longest_match :: "('a \<Rightarrow> string) \<Rightarrow> ('a \<Rightarrow> bool) \<Rightarrow> string \<Rightarrow> 'a list \<Rightarrow> 'a option" where
  "longest_match key elig path es =
     max_by_key (\<lambda>a. length (key a)) (filter (\<lambda>a. starts_with path (key a) \<and> elig a) es)"

lemma longest_match_sound:
  "longest_match key elig path es = Some a \<Longrightarrow>
     a \<in> set es \<and> starts_with path (key a) \<and> elig a"
  unfolding longest_match_def by (drule max_by_key_in) simp

lemma longest_match_longest:
  "longest_match key elig path es = Some a \<Longrightarrow> b \<in> set es \<Longrightarrow> starts_with path (key b) \<Longrightarrow> elig b
     \<Longrightarrow> length (key b) \<le> length (key a)"
  unfolding longest_match_def by (drule max_by_key_max [where x = b]) simp_all

lemma longest_match_complete:
  "b \<in> set es \<Longrightarrow> starts_with path (key b) \<Longrightarrow> elig b \<Longrightarrow> longest_match key elig path es \<noteq> None"
  by (auto simp: longest_match_def filter_empty_conv)

locale longest_prefix =
  fixes select :: "'c \<Rightarrow> 'x \<Rightarrow> string \<Rightarrow> 'a option"
    and entries :: "'c \<Rightarrow> 'a list"
    and key :: "'a \<Rightarrow> string"
    and eligible :: "'x \<Rightarrow> 'a \<Rightarrow> bool"
  assumes select_sound: "select c x p = Some a \<Longrightarrow>
      a \<in> set (entries c) \<and> starts_with p (key a) \<and> eligible x a"
    and select_longest: "select c x p = Some a \<Longrightarrow> b \<in> set (entries c) \<Longrightarrow> starts_with p (key b)
      \<Longrightarrow> eligible x b \<Longrightarrow> length (key b) \<le> length (key a)"
    and select_complete: "b \<in> set (entries c) \<Longrightarrow> starts_with p (key b) \<Longrightarrow> eligible x b
      \<Longrightarrow> select c x p \<noteq> None"
begin

text \<open>The selected prefix extends every matching prefix.\<close>

lemma select_extends:
  assumes "select c x p = Some a" and "b \<in> set (entries c)" and "starts_with p (key b)"
    and "eligible x b"
  shows "prefix (key b) (key a)"
proof -
  have "starts_with p (key a)" and "length (key b) \<le> length (key a)"
    using assms select_sound select_longest by blast+
  with assms(3) show ?thesis by (blast intro: prefix_length_prefix)
qed

lemma select_None_iff:
  "select c x p = None \<longleftrightarrow>
     (\<forall>b \<in> set (entries c). \<not> (starts_with p (key b) \<and> eligible x b))"
proof
  show "select c x p = None \<Longrightarrow> \<forall>b \<in> set (entries c). \<not> (starts_with p (key b) \<and> eligible x b)"
    using select_complete by blast
  show "\<forall>b \<in> set (entries c). \<not> (starts_with p (key b) \<and> eligible x b) \<Longrightarrow> select c x p = None"
    using select_sound by (cases "select c x p") blast+
qed

text \<open>With pairwise different prefixes the longest matching entry is the one selected.\<close>

lemma select_unique:
  assumes "inj_on key (set (entries c))" and "b \<in> set (entries c)" and "starts_with p (key b)"
    and "eligible x b"
    and longest: "\<And>a. a \<in> set (entries c) \<Longrightarrow> starts_with p (key a) \<Longrightarrow> eligible x a
      \<Longrightarrow> length (key a) \<le> length (key b)"
  shows "select c x p = Some b"
proof -
  obtain a where a: "select c x p = Some a"
    using select_complete assms(2-4) by blast
  then have "a \<in> set (entries c)" "starts_with p (key a)" "eligible x a"
    using select_sound by blast+
  moreover from this have "length (key a) \<le> length (key b)" by (rule longest)
  moreover have "prefix (key b) (key a)" using a assms(2-4) by (rule select_extends)
  ultimately have "key a = key b"
    by (metis prefix_length_le le_antisym prefix_order.antisym prefix_length_prefix assms(3))
  then have "a = b" using assms(1,2) \<open>a \<in> set (entries c)\<close> by (blast dest: inj_onD)
  with a show ?thesis by simp
qed

end

definition best_prefix :: "(string, 'v) btree \<Rightarrow> string \<Rightarrow> (string \<times> 'v) option" where
  "best_prefix values path = longest_match fst (\<lambda>_. True) path values"

interpretation prefix_map: longest_prefix
  "\<lambda>m (_ :: unit) p. best_prefix m p" "\<lambda>m. m" fst "\<lambda>_ _. True"
  by unfold_locales
    (simp_all add: best_prefix_def longest_match_sound longest_match_longest longest_match_complete
      del: not_None_eq)

section \<open>Configuration shorthands\<close>

text \<open>
  \<open>serde\<close> and \<open>serde_yaml\<close> are not part of the repository.  Decoding YAML text is a parameter
  of the functions below, and so is \<open>Value::as_str\<close>; a number carries its display form.
\<close>

datatype yaml =
    YNull
  | YBool bool
  | YNumber string
  | YString string
  | YSequence "yaml list"
  | YMapping "(yaml \<times> yaml) list"
  | YTagged string yaml

datatype map_error =
    YamlError string
  | KeyNotString
  | ExpectedScalar yaml
  | ExpectedMap yaml
  | InvalidEntry string
  | EmptyKey

definition parse_string_list :: "(string \<Rightarrow> string list option) \<Rightarrow> string \<Rightarrow> string list" where
  "parse_string_list yaml_list raw =
     (let v = trim raw in
      if v = [] then []
      else if starts_with v ''['' then (case yaml_list v of None \<Rightarrow> [] | Some xs \<Rightarrow> xs)
      else filter (\<lambda>item. item \<noteq> []) (map trim (split_chars '','' v)))"

definition yaml_scalar_to_string :: "yaml \<Rightarrow> (map_error, string) result" where
  "yaml_scalar_to_string v =
     (case v of
        YNull \<Rightarrow> Ok []
      | YBool b \<Rightarrow> Ok (if b then ''true'' else ''false'')
      | YNumber n \<Rightarrow> Ok n
      | YString s \<Rightarrow> Ok s
      | other \<Rightarrow> Err (ExpectedScalar other))"

fun yaml_map_entries :: "(yaml \<Rightarrow> string option) \<Rightarrow> (yaml \<times> yaml) list \<Rightarrow>
    (string, string) btree \<Rightarrow> (map_error, (string, string) btree) result" where
  "yaml_map_entries as_str [] m = Ok m"
| "yaml_map_entries as_str ((k, v) # rest) m =
     (case as_str k of
        None \<Rightarrow> Err KeyNotString
      | Some key \<Rightarrow>
          rtry (yaml_scalar_to_string v) (\<lambda>s. yaml_map_entries as_str rest (bt_insert key s m)))"

definition parse_yaml_string_map :: "(yaml \<Rightarrow> string option) \<Rightarrow> yaml \<Rightarrow>
    (map_error, (string, string) btree) result" where
  "parse_yaml_string_map as_str v =
     (case v of
        YMapping kvs \<Rightarrow> yaml_map_entries as_str kvs []
      | YNull \<Rightarrow> Ok []
      | other \<Rightarrow> Err (ExpectedMap other))"

definition split_entry :: "string \<Rightarrow> (string \<times> string) option" where
  "split_entry entry =
     (case split_once CHR ''='' entry of
        Some kv \<Rightarrow> Some kv
      | None \<Rightarrow> split_once CHR '':'' entry)"

fun parse_entries :: "string list \<Rightarrow> (string, string) btree \<Rightarrow>
    (map_error, (string, string) btree) result" where
  "parse_entries [] m = Ok m"
| "parse_entries (raw # rest) m =
     (let entry = trim raw in
      if entry = [] then parse_entries rest m
      else case split_entry entry of
        None \<Rightarrow> Err (InvalidEntry entry)
      | Some (k, v) \<Rightarrow>
          if trim k = [] then Err EmptyKey
          else parse_entries rest (bt_insert (trim k) (trim v) m))"

definition parse_string_map :: "(string \<Rightarrow> (string, yaml) result) \<Rightarrow> (yaml \<Rightarrow> string option) \<Rightarrow>
    string \<Rightarrow> (map_error, (string, string) btree) result" where
  "parse_string_map yaml_value as_str raw =
     (let v = trim raw in
      if v = [] then Ok []
      else if starts_with v ''{'' then
        (case yaml_value v of
           Inl e \<Rightarrow> Err (YamlError e)
         | Inr y \<Rightarrow> parse_yaml_string_map as_str y)
      else parse_entries (split_chars '',&'' v) [])"

subsection \<open>The deserializers\<close>

text \<open>
  A deserializer presents a string, a sequence whose elements decode one by one, or a map;
  anything else is refused by \<open>serde\<close> with an invalid-type error.
\<close>

datatype ('e, 's, 'm) serde_input =
    InStr string
  | InSeq "('e, 's) result list"
  | InMap "('e, string \<times> 'm) result list"
  | InOther

datatype 'e de_error =
    DeElement 'e
  | DeMap map_error
  | DeYaml string
  | DeExpectedMap
  | DeExpectedList
  | DeInvalidType

fun collect_seq :: "('e, 's) result list \<Rightarrow> ('e de_error, 's list) result" where
  "collect_seq [] = Ok []"
| "collect_seq (r # rs) =
     (case r of
        Inl e \<Rightarrow> Err (DeElement e)
      | Inr x \<Rightarrow> rtry (collect_seq rs) (\<lambda>xs. Ok (x # xs)))"

fun collect_map :: "('m \<Rightarrow> ('e de_error, 'v) result) \<Rightarrow> ('e, string \<times> 'm) result list \<Rightarrow>
    (string, 'v) btree \<Rightarrow> ('e de_error, (string, 'v) btree) result" where
  "collect_map conv [] m = Ok m"
| "collect_map conv (r # rs) m =
     (case r of
        Inl e \<Rightarrow> Err (DeElement e)
      | Inr (k, v) \<Rightarrow> rtry (conv v) (\<lambda>x. collect_map conv rs (bt_insert k x m)))"

definition deserialize_string_list :: "(string \<Rightarrow> string list option) \<Rightarrow>
    ('e, string, 'm) serde_input \<Rightarrow> ('e de_error, string list) result" where
  "deserialize_string_list yaml_list inp =
     (case inp of
        InStr s \<Rightarrow> Ok (parse_string_list yaml_list s)
      | InSeq es \<Rightarrow> collect_seq es
      | _ \<Rightarrow> Err DeInvalidType)"

definition deserialize_string_map :: "(string \<Rightarrow> (string, yaml) result) \<Rightarrow> (yaml \<Rightarrow> string option) \<Rightarrow>
    ('e, 's, yaml) serde_input \<Rightarrow> ('e de_error, (string, string) btree) result" where
  "deserialize_string_map yaml_value as_str inp =
     (case inp of
        InStr s \<Rightarrow> (case parse_string_map yaml_value as_str s of
            Inl e \<Rightarrow> Err (DeMap e) | Inr m \<Rightarrow> Ok m)
      | InMap es \<Rightarrow> collect_map
          (\<lambda>v. case yaml_scalar_to_string v of Inl e \<Rightarrow> Err (DeMap e) | Inr x \<Rightarrow> Ok x) es []
      | _ \<Rightarrow> Err DeInvalidType)"

definition deserialize_typed_map :: "(string \<Rightarrow> (string, (string, 't) btree) result) \<Rightarrow>
    ('e, 's, 't) serde_input \<Rightarrow> ('e de_error, (string, 't) btree) result" where
  "deserialize_typed_map yaml_map inp =
     (case inp of
        InStr s \<Rightarrow>
          (let v = trim s in
           if v = [] then Ok []
           else if starts_with v ''{'' then
             (case yaml_map v of Inl e \<Rightarrow> Err (DeYaml e) | Inr m \<Rightarrow> Ok m)
           else Err DeExpectedMap)
      | InMap es \<Rightarrow> collect_map Ok es []
      | _ \<Rightarrow> Err DeInvalidType)"

definition deserialize_typed_list :: "(string \<Rightarrow> (string, 't list) result) \<Rightarrow>
    ('e, 't, 'm) serde_input \<Rightarrow> ('e de_error, 't list) result" where
  "deserialize_typed_list yaml_list inp =
     (case inp of
        InStr s \<Rightarrow>
          (let v = trim s in
           if v = [] then Ok []
           else if starts_with v ''['' then
             (case yaml_list v of Inl e \<Rightarrow> Err (DeYaml e) | Inr xs \<Rightarrow> Ok xs)
           else Err DeExpectedList)
      | InSeq es \<Rightarrow> collect_seq es
      | _ \<Rightarrow> Err DeInvalidType)"

subsection \<open>The resulting maps are well formed\<close>

lemma yaml_map_entries_ok: "yaml_map_entries as_str kvs m = Ok r \<Longrightarrow> bt_ok m \<Longrightarrow> bt_ok r"
  by (induction as_str kvs m rule: yaml_map_entries.induct)
    (auto simp: rtry_eq_Ok_iff bt_ok_insert split: option.splits)

lemma parse_entries_ok: "parse_entries es m = Ok r \<Longrightarrow> bt_ok m \<Longrightarrow> bt_ok r"
  by (induction es m rule: parse_entries.induct)
    (auto simp: Let_def bt_ok_insert split: if_splits option.splits)

lemma parse_yaml_string_map_ok: "parse_yaml_string_map as_str v = Ok r \<Longrightarrow> bt_ok r"
  by (cases v) (auto simp: parse_yaml_string_map_def dest: yaml_map_entries_ok)

lemma parse_string_map_ok: "parse_string_map yv as_str raw = Ok r \<Longrightarrow> bt_ok r"
  by (auto simp: parse_string_map_def Let_def split: if_splits sum.splits
      dest: parse_entries_ok parse_yaml_string_map_ok)

lemma collect_map_ok: "collect_map conv es m = Ok r \<Longrightarrow> bt_ok m \<Longrightarrow> bt_ok r"
  by (induction conv es m rule: collect_map.induct)
    (auto simp: rtry_eq_Ok_iff bt_ok_insert split: sum.splits)

lemma deserialize_string_map_ok: "deserialize_string_map yv as_str inp = Ok r \<Longrightarrow> bt_ok r"
  by (auto simp: deserialize_string_map_def split: serde_input.splits sum.splits
      dest: parse_string_map_ok collect_map_ok)

lemma parse_entries_keys:
  "parse_entries es m = Ok r \<Longrightarrow> bt_get m [] = None \<Longrightarrow> bt_get r [] = None"
  by (induction es m rule: parse_entries.induct)
    (auto simp: Let_def bt_get_insert split: if_splits option.splits)

end
