(* ===== verification/Proxy_Trust.thy ===== *)
theory Proxy_Trust
  imports Net_Addr Gateway_Config
begin

text \<open>
  Trusted-proxy policy of \<open>crates/gateway-policy/src/rate_limit/source.rs\<close>: which client
  address a request is accounted to.  Only a configured proxy may assert an end-client
  address, and the forwarded chain is read from the right.

  The \<open>ipnet\<close> crate is not part of the repository; the operations of \<open>IpNet\<close> the policy
  calls are the fields of \<open>ipnet_ops\<close>, a parameter of every definition.  \<open>net_addr\<close> answers a
  \<open>V6\<close> address exactly for the variant \<open>IpNet::V6\<close>.
\<close>

section \<open>The policy and its operations\<close>

record 'n ipnet_ops =
  net_parse :: "string \<Rightarrow> 'n option"
  net_addr :: "'n \<Rightarrow> ip_addr"
  net_prefix_len :: "'n \<Rightarrow> nat"
  net_new :: "ip_addr \<Rightarrow> nat \<Rightarrow> 'n option"
  net_contains :: "'n \<Rightarrow> ip_addr \<Rightarrow> bool"

record 'n trusted_proxy_policy =
  networks :: "'n list"

definition parse_cidr :: "'n ipnet_ops \<Rightarrow> string \<Rightarrow> (string, 'n) result" where
  "parse_cidr ops v =
     rtry (ok_or ''limit.yml: invalid trusted proxy CIDR'' (net_parse ops v)) (\<lambda>network.
     rtry (case net_addr ops network of
             V6 ss \<Rightarrow>
               if net_prefix_len ops network \<ge> 96 then
                 (case to_ipv4_mapped ss of
                    Some address \<Rightarrow>
                      ok_or ''limit.yml: invalid trusted proxy CIDR''
                        (net_new ops (V4 address) (net_prefix_len ops network - 96))
                  | None \<Rightarrow> Ok network)
               else Ok network
           | V4 _ \<Rightarrow> Ok network) (\<lambda>network.
     if net_prefix_len ops network = 0
     then Err ''limit.yml: unrestricted proxy trust is forbidden''
     else Ok network))"

definition policy_new :: "'n ipnet_ops \<Rightarrow> string list \<Rightarrow> (string, 'n trusted_proxy_policy) result" where
  "policy_new ops cidrs =
     (if length cidrs > 64 then Err ''limit.yml: too many trusted proxy CIDRs''
      else rtry (try_map (parse_cidr ops) cidrs) (\<lambda>ns. Ok \<lparr>networks = ns\<rparr>))"

definition policy_is_empty :: "'n trusted_proxy_policy \<Rightarrow> bool" where
  "policy_is_empty pol \<longleftrightarrow> networks pol = []"

definition trusts :: "'n ipnet_ops \<Rightarrow> 'n trusted_proxy_policy \<Rightarrow> ip_addr \<Rightarrow> bool" where
  "trusts ops pol address = list_ex (\<lambda>n. net_contains ops n address) (networks pol)"

definition canonical :: "ip_addr \<Rightarrow> ip_addr" where
  "canonical address =
     (case address of
        V6 ss \<Rightarrow> (case to_ipv4_mapped ss of Some os \<Rightarrow> V4 os | None \<Rightarrow> address)
      | V4 _ \<Rightarrow> address)"

definition parse_hop :: "string \<Rightarrow> (string, ip_addr) result" where
  "parse_hop v =
     rtry (ok_or ''trusted proxy client address is invalid'' (parse_ip (trim v))) (\<lambda>a.
     let address = canonical a in
     if is_unspecified address \<or> is_multicast address
     then Err ''trusted proxy client address is invalid''
     else Ok address)"

text \<open>The inner loop: one comma-separated hop, with the current address and the hop count.\<close>

definition walk_hop :: "'n ipnet_ops \<Rightarrow> 'n trusted_proxy_policy \<Rightarrow> string \<Rightarrow> ip_addr \<times> nat \<Rightarrow>
    ((string, ip_addr) result, ip_addr \<times> nat) flow" where
  "walk_hop ops pol hop s =
     (case s of (current, hops) \<Rightarrow>
        if \<not> trusts ops pol current then Return (Ok current)
        else if Suc hops > 64 then Return (Err ''trusted proxy chain has too many hops'')
        else case parse_hop hop of
          Inl e \<Rightarrow> Return (Err e)
        | Inr current' \<Rightarrow>
            if \<not> trusts ops pol current' then Return (Ok current')
            else Next (current', Suc hops))"

text \<open>The outer loop: one header value, with the byte count as well.\<close>

definition walk_value :: "'n ipnet_ops \<Rightarrow> 'n trusted_proxy_policy \<Rightarrow> hval \<Rightarrow> nat \<times> ip_addr \<times> nat \<Rightarrow>
    ((string, ip_addr) result, nat \<times> ip_addr \<times> nat) flow" where
  "walk_value ops pol v s =
     (case s of (bytes, st) \<Rightarrow>
        let bytes' = sat_add bytes (length (hv_bytes v)) in
        if bytes' > 8192 then Return (Err ''trusted proxy chain is too large'')
        else case hv_text v of
          None \<Rightarrow> Return (Err ''trusted proxy chain is invalid'')
        | Some text \<Rightarrow>
            (case flow_fold (walk_hop ops pol) (rev (split_chars '','' text)) st of
               Return r \<Rightarrow> Return r
             | Next st' \<Rightarrow> Next (bytes', st')))"

definition resolve_akamai :: "hval list \<Rightarrow> (string, ip_addr) result" where
  "resolve_akamai vs =
     (case vs of
        [] \<Rightarrow> Err ''trusted proxy client address is missing''
      | v # rest \<Rightarrow>
          if rest \<noteq> [] then Err ''trusted proxy client address is ambiguous''
          else rtry (ok_or ''trusted proxy client address is invalid'' (hv_text v)) parse_hop)"

definition resolve_forwarded :: "'n ipnet_ops \<Rightarrow> 'n trusted_proxy_policy \<Rightarrow> hval list \<Rightarrow> ip_addr \<Rightarrow>
    (string, ip_addr) result" where
  "resolve_forwarded ops pol vs peer =
     (case flow_fold (walk_value ops pol) (rev vs) (0, peer, 0) of
        Return r \<Rightarrow> r
      | Next (bytes, current, hops) \<Rightarrow>
          if hops = 0 \<or> trusts ops pol current
          then Err ''trusted proxy chain has no client address''
          else Ok current)"

definition resolve :: "'n ipnet_ops \<Rightarrow> 'n trusted_proxy_policy \<Rightarrow> (string \<Rightarrow> hval list) \<Rightarrow>
    ip_addr option \<Rightarrow> bool \<Rightarrow> (string, ip_addr) result" where
  "resolve ops pol headers peer akamai =
     (if akamai \<and> policy_is_empty pol
      then Err ''Akamai rate limiting requires trustedProxyCidrs''
      else rtry (ok_or ''client source address is unavailable'' peer) (\<lambda>p.
        let peer = canonical p in
        if \<not> trusts ops pol peer
        then (if akamai then Err ''Akamai client address requires a trusted proxy peer'' else Ok peer)
        else if akamai then resolve_akamai (headers ''true-client-ip'')
        else resolve_forwarded ops pol (headers ''x-forwarded-for'') peer))"

section \<open>The configured networks\<close>

lemma parse_cidr_restricted: "parse_cidr ops v = Ok n \<Longrightarrow> net_prefix_len ops n \<noteq> 0"
  by (auto simp: parse_cidr_def rtry_eq_Ok_iff split: if_splits)

lemma policy_new_networks:
  "policy_new ops cidrs = Ok pol \<Longrightarrow>
     length (networks pol) = length cidrs \<and> length cidrs \<le> 64
     \<and> (\<forall>n \<in> set (networks pol). net_prefix_len ops n \<noteq> 0)"
  by (auto simp: policy_new_def rtry_eq_Ok_iff split: if_splits
      dest: try_map_Ok_length try_map_Ok_set parse_cidr_restricted)

section \<open>Reading the chain\<close>

text \<open>The hops a chain offers, in the order the loops read them.\<close>

definition chain_hops :: "hval list \<Rightarrow> string list" where
  "chain_hops vs =
     concat (map (\<lambda>v. rev (split_chars '','' (case hv_text v of None \<Rightarrow> [] | Some t \<Rightarrow> t))) (rev vs))"

lemma walk_hop_Next:
  "walk_hop ops pol hop (c, n) = Next (c', n') \<longleftrightarrow>
     trusts ops pol c \<and> n < 64 \<and> parse_hop hop = Ok c' \<and> trusts ops pol c' \<and> n' = Suc n"
  by (auto simp: walk_hop_def split: if_splits sum.splits)

lemma walk_hop_Ok:
  "trusts ops pol c \<Longrightarrow> walk_hop ops pol hop (c, n) = Return (Ok a) \<longleftrightarrow>
     n < 64 \<and> parse_hop hop = Ok a \<and> \<not> trusts ops pol a"
  by (auto simp: walk_hop_def split: if_splits sum.splits)

text \<open>Going through a list of hops without returning means they are all trusted proxies.\<close>

abbreviation trusted_hop :: "'n ipnet_ops \<Rightarrow> 'n trusted_proxy_policy \<Rightarrow> string \<Rightarrow> bool" where
  "trusted_hop ops pol h \<equiv> (\<exists>c. parse_hop h = Ok c \<and> trusts ops pol c)"

lemma walk_hops_Next:
  "flow_fold (walk_hop ops pol) hs (c, n) = Next (c', n') \<Longrightarrow> trusts ops pol c \<Longrightarrow>
     (\<forall>h \<in> set hs. trusted_hop ops pol h) \<and> trusts ops pol c' \<and> n' = n + length hs
     \<and> (hs \<noteq> [] \<longrightarrow> n' \<le> 64)"
proof (induction hs arbitrary: c n)
  case (Cons h hs)
  from Cons.prems(1) obtain d m where d: "walk_hop ops pol h (c, n) = Next (d, m)"
      and rest: "flow_fold (walk_hop ops pol) hs (d, m) = Next (c', n')"
    by (auto split: flow.splits)
  from d have d': "trusts ops pol d" "m = Suc n" "n < 64" "trusted_hop ops pol h"
    by (auto simp: walk_hop_Next)
  from Cons.IH [OF rest d'(1)] d' show ?case by (cases hs) auto
qed simp

lemma walk_hops_Ok:
  "flow_fold (walk_hop ops pol) hs (c, n) = Return (Ok a) \<Longrightarrow> trusts ops pol c \<Longrightarrow>
     \<exists>k < length hs. n + k < 64 \<and> (\<forall>j < k. trusted_hop ops pol (hs ! j))
       \<and> parse_hop (hs ! k) = Ok a \<and> \<not> trusts ops pol a"
proof (induction hs arbitrary: c n)
  case (Cons h hs)
  show ?case
  proof (cases "walk_hop ops pol h (c, n)")
    case (Return r)
    with Cons.prems have "walk_hop ops pol h (c, n) = Return (Ok a)" by simp
    with Cons.prems(2) show ?thesis by (intro exI [of _ 0]) (simp add: walk_hop_Ok)
  next
    case (Next s)
    obtain d m where s: "s = (d, m)" by (cases s)
    with Next have d: "trusts ops pol d" "m = Suc n" "trusted_hop ops pol h"
      by (auto simp: walk_hop_Next)
    from Cons.prems Next s have "flow_fold (walk_hop ops pol) hs (d, m) = Return (Ok a)" by simp
    from Cons.IH [OF this d(1)] obtain k where k: "k < length hs" "m + k < 64"
        "\<forall>j < k. trusted_hop ops pol (hs ! j)" "parse_hop (hs ! k) = Ok a" "\<not> trusts ops pol a"
      by blast
    have "\<forall>j < Suc k. trusted_hop ops pol ((h # hs) ! j)"
      using d(3) k(3) by (auto simp: less_Suc_eq_0_disj)
    with k d(2) show ?thesis by (intro exI [of _ "Suc k"]) simp
  qed
qed simp

lemma walk_value_Next:
  "walk_value ops pol v (b, c, n) = Next (b', c', n') \<Longrightarrow> trusts ops pol c \<Longrightarrow>
     \<exists>t. hv_text v = Some t \<and> (\<forall>h \<in> set (split_chars '','' t). trusted_hop ops pol h)
       \<and> trusts ops pol c' \<and> n' = n + length (split_chars '','' t)
       \<and> b' = sat_add b (length (hv_bytes v)) \<and> b' \<le> 8192"
  by (auto simp: walk_value_def Let_def split: if_splits option.splits flow.splits
      dest: walk_hops_Next)

lemma walk_value_Ok:
  "walk_value ops pol v (b, c, n) = Return (Ok a) \<longleftrightarrow>
     (\<exists>t. hv_text v = Some t \<and> sat_add b (length (hv_bytes v)) \<le> 8192
       \<and> flow_fold (walk_hop ops pol) (rev (split_chars '','' t)) (c, n) = Return (Ok a))"
  by (auto simp: walk_value_def Let_def split: if_splits option.splits flow.splits)

abbreviation value_hops :: "hval \<Rightarrow> string list" where
  "value_hops v \<equiv> rev (split_chars '','' (case hv_text v of None \<Rightarrow> [] | Some t \<Rightarrow> t))"

text \<open>
  Read as one list of hops: whenever the outer loop returns an address, the inner loop over
  all hops returns it.
\<close>

lemma walk_values_Ok:
  "flow_fold (walk_value ops pol) vs (b, c, n) = Return (Ok a) \<Longrightarrow>
     flow_fold (walk_hop ops pol) (concat (map value_hops vs)) (c, n) = Return (Ok a)"
proof (induction vs arbitrary: b c n)
  case (Cons v vs)
  show ?case
  proof (cases "walk_value ops pol v (b, c, n)")
    case (Return r)
    with Cons.prems have "walk_value ops pol v (b, c, n) = Return (Ok a)" by simp
    then show ?thesis by (auto simp: walk_value_Ok flow_fold_append)
  next
    case (Next s)
    obtain b' c' n' where s: "s = (b', c', n')" by (cases s)
    from Next s obtain t where t: "hv_text v = Some t"
        "flow_fold (walk_hop ops pol) (rev (split_chars '','' t)) (c, n) = Next (c', n')"
      by (auto simp: walk_value_def Let_def split: if_splits option.splits flow.splits)
    have "flow_fold (walk_value ops pol) vs (b', c', n') = Return (Ok a)"
      using Cons.prems Next s by simp
    from Cons.IH [OF this] t show ?thesis by (simp add: flow_fold_append)
  qed
qed simp

lemma walk_values_Next_trusted:
  "flow_fold (walk_value ops pol) vs (b, c, n) = Next (b', c', n') \<Longrightarrow> trusts ops pol c
     \<Longrightarrow> trusts ops pol c'"
proof (induction vs arbitrary: b c n)
  case (Cons v vs)
  then obtain s where s: "walk_value ops pol v (b, c, n) = Next s"
      "flow_fold (walk_value ops pol) vs s = Next (b', c', n')"
    by (auto split: flow.splits)
  obtain b1 c1 n1 where "s = (b1, c1, n1)" by (cases s)
  with s Cons.IH Cons.prems(2) show ?case by (blast dest: walk_value_Next)
qed simp

text \<open>So the last statement of \<open>resolve\<close> is never reached with an untrusted address.\<close>

lemma resolve_forwarded_Ok:
  assumes "trusts ops pol peer"
  shows "resolve_forwarded ops pol vs peer = Ok a \<longleftrightarrow>
     flow_fold (walk_value ops pol) (rev vs) (0, peer, 0) = Return (Ok a)"
  using assms
  by (auto simp: resolve_forwarded_def split: flow.splits if_splits dest: walk_values_Next_trusted)

lemma resolve_trusted_peer:
  "trusts ops pol (canonical p) \<Longrightarrow>
     resolve ops pol headers (Some p) False =
       resolve_forwarded ops pol (headers ''x-forwarded-for'') (canonical p)"
  by (simp add: resolve_def ok_or_def Let_def)

text \<open>
  The address of a forwarded request is the first hop from the right that is not a trusted
  proxy; it stands within the first 64 hops.
\<close>

lemma resolve_forwarded_rightmost:
  assumes "trusts ops pol peer" and "resolve_forwarded ops pol vs peer = Ok a"
  shows "\<exists>k < length (chain_hops vs). k < 64
     \<and> (\<forall>j < k. trusted_hop ops pol (chain_hops vs ! j))
     \<and> parse_hop (chain_hops vs ! k) = Ok a \<and> \<not> trusts ops pol a"
proof -
  have "flow_fold (walk_hop ops pol) (chain_hops vs) (peer, 0) = Return (Ok a)"
    using assms walk_values_Ok unfolding chain_hops_def by (simp add: resolve_forwarded_Ok)
  from walk_hops_Ok [OF this assms(1)] show ?thesis by simp
qed

text \<open>Text the client wrote before the hops the proxies appended does not matter.\<close>

lemma walk_value_extend:
  assumes "walk_value ops pol v (b, c, n) = Return (Ok a)"
    and "hv_text v = Some t" and "hv_text v' = Some (s @ CHR '','' # t)"
    and "sat_add b (length (hv_bytes v')) \<le> 8192"
  shows "walk_value ops pol v' (b, c, n) = Return (Ok a)"
  using assms by (simp add: walk_value_Ok split_chars_append flow_fold_append)

lemma walk_value_bytes:
  "walk_value ops pol v (b, st) = Next (b', st') \<Longrightarrow> b' = sat_add b (length (hv_bytes v))"
  by (auto simp: walk_value_def Let_def split: if_splits option.splits flow.splits)

lemma sat_add_le_sum: "sat_add a b \<le> a + b"
  by (simp add: sat_add_def)

lemma walk_values_extend:
  assumes "flow_fold (walk_value ops pol) (us @ [v]) (b, c, n) = Return (Ok a)"
    and "hv_text v = Some t" and "hv_text v' = Some (s @ CHR '','' # t)"
    and "b + sum_list (map (\<lambda>u. length (hv_bytes u)) us) + length (hv_bytes v') \<le> 8192"
  shows "flow_fold (walk_value ops pol) (us @ v' # extra) (b, c, n) = Return (Ok a)"
  using assms
proof (induction us arbitrary: b c n)
  case Nil
  from Nil.prems(1) have "walk_value ops pol v (b, c, n) = Return (Ok a)"
    by (simp split: flow.splits)
  from walk_value_extend [OF this assms(2,3)] Nil.prems(4) show ?case
    by (simp add: sat_add_def)
next
  case (Cons u us)
  show ?case
  proof (cases "walk_value ops pol u (b, c, n)")
    case (Return r)
    with Cons.prems(1) show ?thesis by simp
  next
    case (Next st)
    obtain b' c' n' where st: "st = (b', c', n')" by (cases st)
    with Next have "b' = sat_add b (length (hv_bytes u))" by (auto dest: walk_value_bytes)
    then have "b' + sum_list (map (\<lambda>u. length (hv_bytes u)) us) + length (hv_bytes v') \<le> 8192"
      using Cons.prems(4) sat_add_le_sum [of b "length (hv_bytes u)"] by simp
    with Cons.IH [of b' c' n'] Cons.prems(1) Next st assms(2,3) show ?thesis by simp
  qed
qed

text \<open>What is returned is a canonical address of a usable class.\<close>

lemma to_ipv4_mapped_ok:
  assumes "to_ipv4_mapped ss = Some os" and "list_all (\<lambda>x. x < 65536) ss"
  shows "length os = 4 \<and> list_all (\<lambda>x. x < 256) os"
proof -
  have "length ss = 8" using assms(1) by (simp add: to_ipv4_mapped_def split: if_splits)
  then have "ss ! 6 < 65536" "ss ! 7 < 65536" using assms(2) by (simp_all add: list_all_length)
  with assms(1) show ?thesis by (auto simp: to_ipv4_mapped_def split: if_splits)
qed

lemma canonical_idem [simp]: "canonical (canonical a) = canonical a"
  by (auto simp: canonical_def split: ip_addr.splits option.splits)

lemma canonical_ok: "ip_ok a \<Longrightarrow> ip_ok (canonical a)"
  by (auto simp: canonical_def ip_ok_def split: ip_addr.splits option.splits
      dest: to_ipv4_mapped_ok)

lemma parse_hop_ok:
  "parse_hop h = Ok a \<Longrightarrow>
     ip_ok a \<and> canonical a = a \<and> \<not> is_unspecified a \<and> \<not> is_multicast a"
  by (auto simp: parse_hop_def rtry_eq_Ok_iff ok_or_eq_Ok_iff Let_def split: if_splits
      dest: parse_ip_ok canonical_ok)

section \<open>Properties\<close>

text \<open>
  A concrete \<open>IpNet\<close> for the examples: an address with a prefix length, IPv4 containment by
  comparing the leading octets.
\<close>

definition ipnet_example :: "(ip_addr \<times> nat) ipnet_ops" where
  "ipnet_example = \<lparr>
     net_parse = (\<lambda>s. case split_once CHR ''/'' s of
         None \<Rightarrow> None
       | Some (a, l) \<Rightarrow> (case (parse_ip a, parse_uint 128 l) of
           (Some ip, Some n) \<Rightarrow> Some (ip, n) | _ \<Rightarrow> None)),
     net_addr = fst,
     net_prefix_len = snd,
     net_new = (\<lambda>a n. if n \<le> 32 then Some (a, n) else None),
     net_contains = (\<lambda>(n, len) a. case (n, a) of
         (V4 xs, V4 ys) \<Rightarrow> take (len div 8) xs = take (len div 8) ys
       | _ \<Rightarrow> False) \<rparr>"

definition example_policy :: "(ip_addr \<times> nat) trusted_proxy_policy" where
  "example_policy = \<lparr>networks = [(V4 [203, 0, 113, 0], 24)]\<rparr>"

definition text_value :: "string \<Rightarrow> hval" where
  "text_value s = \<lparr>hv_bytes = s, hv_text = Some s\<rparr>"

lemma example_policy_new: "policy_new ipnet_example [''203.0.113.0/24''] = Ok example_policy"
  by code_simp

text \<open>A peer that is not a configured proxy cannot choose the address it is accounted to:
  whatever headers it sends, the identity is its own (canonical) transport address, and in
  Akamai mode the request is refused.\<close>

theorem resolve_untrusted_peer:
  assumes "\<not> trusts ops pol (canonical p)"
  shows "resolve ops pol headers (Some p) False = Ok (canonical p)
     \<and> (\<exists>e. resolve ops pol headers (Some p) True = Err e)"
  using assms by (simp add: resolve_def Let_def)

theorem resolve_untrusted_peer_witness:
  "resolve ipnet_example example_policy (\<lambda>_. [text_value ''9.8.7.6'']) (Some (V4 [198, 51, 100, 7])) False
     = Ok (V4 [198, 51, 100, 7])"
proof -
  have "\<not> trusts ipnet_example example_policy (canonical (V4 [198, 51, 100, 7]))" by code_simp
  from resolve_untrusted_peer [OF this] show ?thesis by (simp add: canonical_def)
qed

text \<open>C10: Behind a trusted peer the address is the first hop from the right of the
  X-Forwarded-For chain that is not itself a trusted proxy: every hop to its right is a
  trusted proxy, and it lies within the first 64 hops.\<close>

theorem resolve_rightmost_untrusted:
  assumes "trusts ops pol (canonical p)" and "resolve ops pol headers (Some p) False = Ok a"
  shows "\<exists>k < length (chain_hops (headers ''x-forwarded-for'')). k < 64
     \<and> (\<forall>j < k. \<exists>c. parse_hop (chain_hops (headers ''x-forwarded-for'') ! j) = Ok c \<and> trusts ops pol c)
     \<and> parse_hop (chain_hops (headers ''x-forwarded-for'') ! k) = Ok a \<and> \<not> trusts ops pol a"
  using assms by (simp add: resolve_trusted_peer resolve_forwarded_rightmost)

definition example_headers :: "string \<Rightarrow> hval list" where
  "example_headers name =
     (if name = ''x-forwarded-for'' then [text_value ''1.2.3.4, 203.0.113.9''] else [])"

lemma example_chain:
  "trusts ipnet_example example_policy (canonical (V4 [203, 0, 113, 7]))"
  "resolve ipnet_example example_policy example_headers (Some (V4 [203, 0, 113, 7])) False
     = Ok (V4 [1, 2, 3, 4])"
  by code_simp+

theorem resolve_rightmost_untrusted_witness:
  "\<not> trusts ipnet_example example_policy (V4 [1, 2, 3, 4])
   \<and> trusts ipnet_example example_policy (canonical (V4 [203, 0, 113, 7]))
   \<and> resolve ipnet_example example_policy example_headers (Some (V4 [203, 0, 113, 7])) False
       = Ok (V4 [1, 2, 3, 4])"
  using resolve_rightmost_untrusted [OF example_chain] example_chain by blast

text \<open>A client cannot forge its identity through a trusted proxy.  If the chain yields an
  address, it yields the same address when the client had put further hops in front of the
  text the proxies wrote, in the same header line or in earlier header lines, as long as the
  lines read stay within 8192 bytes.\<close>

theorem resolve_ignores_client_prefix:
  assumes "trusts ops pol (canonical p)" and "resolve ops pol headers (Some p) False = Ok a"
    and "headers ''x-forwarded-for'' = v # vs" and "hv_text v = Some t"
    and "headers' ''x-forwarded-for'' = forged @ v' # vs"
    and "hv_text v' = Some (s @ '','' @ t)"
    and "sum_list (map (\<lambda>u. length (hv_bytes u)) vs) + length (hv_bytes v') \<le> 8192"
  shows "resolve ops pol headers' (Some p) False = Ok a"
proof -
  have walk: "flow_fold (walk_value ops pol) (rev vs @ [v]) (0, canonical p, 0) = Return (Ok a)"
    using assms(1-3) by (simp add: resolve_trusted_peer resolve_forwarded_Ok)
  have joined: "hv_text v' = Some (s @ CHR '','' # t)"
    using assms(6) by simp
  have bytes: "0 + sum_list (map (\<lambda>u. length (hv_bytes u)) (rev vs)) + length (hv_bytes v') \<le> 8192"
    using assms(7) by (simp add: sum_list_rev flip: rev_map)
  have "flow_fold (walk_value ops pol) (rev vs @ v' # rev forged) (0, canonical p, 0)
      = Return (Ok a)"
    by (rule walk_values_extend [OF walk assms(4) joined bytes])
  then show ?thesis using assms(1,5) by (simp add: resolve_trusted_peer resolve_forwarded_Ok)
qed

theorem resolve_ignores_client_prefix_witness:
  "resolve ipnet_example example_policy
     (\<lambda>_. [text_value ''7.7.7.7'', text_value ''8.8.8.8,1.2.3.4, 203.0.113.9''])
     (Some (V4 [203, 0, 113, 7])) False = Ok (V4 [1, 2, 3, 4])"
  by (rule resolve_ignores_client_prefix [OF example_chain, where v = "text_value ''1.2.3.4, 203.0.113.9''"
        and vs = "[]" and t = "''1.2.3.4, 203.0.113.9''" and s = "''8.8.8.8''"
        and forged = "[text_value ''7.7.7.7'']"
        and v' = "text_value ''8.8.8.8,1.2.3.4, 203.0.113.9''"])
    (simp_all add: example_headers_def text_value_def)

text \<open>An accepted configuration trusts at most 64 networks, none of them unrestricted, and
  every address resolved under it is in canonical form and, unless it is the peer's own, neither
  unspecified nor multicast.\<close>

theorem policy_new_restricted:
  assumes "policy_new ops cidrs = Ok pol"
  shows "length (networks pol) \<le> 64 \<and> (\<forall>n \<in> set (networks pol). 0 < net_prefix_len ops n)
     \<and> (\<forall>headers p akamai a. resolve ops pol headers (Some p) akamai = Ok a \<longrightarrow>
          canonical a = a \<and> (a = canonical p \<or> \<not> is_unspecified a \<and> \<not> is_multicast a))"
proof -
  have "canonical a = a \<and> (a = canonical p \<or> \<not> is_unspecified a \<and> \<not> is_multicast a)"
    if r: "resolve ops pol headers (Some p) akamai = Ok a" for headers p akamai a
  proof (cases "trusts ops pol (canonical p)")
    case True
    have "\<exists>h. parse_hop h = Ok a"
    proof (cases akamai)
      case True
      with r \<open>trusts ops pol (canonical p)\<close> show ?thesis
        by (auto simp: resolve_def resolve_akamai_def Let_def rtry_eq_Ok_iff
            split: if_splits list.splits)
    next
      case False
      with r \<open>trusts ops pol (canonical p)\<close>
      have "resolve_forwarded ops pol (headers ''x-forwarded-for'') (canonical p) = Ok a"
        by (simp add: resolve_trusted_peer)
      from resolve_forwarded_rightmost [OF \<open>trusts ops pol (canonical p)\<close> this]
      show ?thesis by blast
    qed
    then show ?thesis using parse_hop_ok by blast
  next
    case False
    with r have "a = canonical p"
      by (auto simp: resolve_def Let_def rtry_eq_Ok_iff split: if_splits)
    then show ?thesis by simp
  qed
  with policy_new_networks [OF assms] show ?thesis by auto
qed

theorem policy_new_restricted_witness:
  "policy_new ipnet_example [''203.0.113.0/24''] = Ok example_policy
   \<and> length (networks example_policy) \<le> 64"
  using policy_new_restricted [OF example_policy_new] example_policy_new by blast

end
