(* ===== verification/Security_Types.thy ===== *)
theory Security_Types
  imports Rust_Strings
begin

text \<open>
  Values the security handlers exchange: JSON documents, the rejection a handler answers with
  and the authenticated principal (\<open>crates/light-security/src/lib.rs\<close>).

  A JSON document is the data of \<open>serde_json::Value\<close>; a floating-point number carries its
  display form, and an object lists its members in the order of \<open>serde_json::Map\<close>.
\<close>

datatype json_number = JU64 nat | JNeg nat | JFloat string

datatype json =
    JNull
  | JBool bool
  | JNumber json_number
  | JString string
  | JArray "json list"
  | JObject "(string \<times> json) list"

definition json_get :: "json \<Rightarrow> string \<Rightarrow> json option" where
  "json_get v name = (case v of JObject kvs \<Rightarrow> map_of kvs name | _ \<Rightarrow> None)"

definition json_as_str :: "json \<Rightarrow> string option" where
  "json_as_str v = (case v of JString s \<Rightarrow> Some s | _ \<Rightarrow> None)"

definition json_as_u64 :: "json \<Rightarrow> nat option" where
  "json_as_u64 v = (case v of JNumber (JU64 n) \<Rightarrow> Some n | _ \<Rightarrow> None)"

definition json_as_bool :: "json \<Rightarrow> bool option" where
  "json_as_bool v = (case v of JBool b \<Rightarrow> Some b | _ \<Rightarrow> None)"

definition json_get2 :: "json \<Rightarrow> string \<Rightarrow> string \<Rightarrow> json option" where
  "json_get2 v a b = Option.bind (json_get v a) (\<lambda>w. json_get w b)"

fun show_json_number :: "json_number \<Rightarrow> string" where
  "show_json_number (JU64 n) = show_nat n"
| "show_json_number (JNeg n) = CHR ''-'' # show_nat n"
| "show_json_number (JFloat s) = s"

record handler_rejection =
  rj_status :: nat
  rj_code :: string
  rj_message :: string
  rj_headers :: "(string \<times> string) list"

definition rejection_new :: "nat \<Rightarrow> string \<Rightarrow> string \<Rightarrow> handler_rejection" where
  "rejection_new status code message =
     \<lparr>rj_status = status, rj_code = code, rj_message = message, rj_headers = []\<rparr>"

definition with_header :: "string \<Rightarrow> string \<Rightarrow> handler_rejection \<Rightarrow> handler_rejection" where
  "with_header name value r = r\<lparr>rj_headers := rj_headers r @ [(name, value)]\<rparr>"

definition unauthorized :: "string \<Rightarrow> handler_rejection" where
  "unauthorized message =
     with_header ''www-authenticate'' ''Bearer'' (rejection_new 401 ''ERR10002'' message)"

definition forbidden :: "string \<Rightarrow> handler_rejection" where
  "forbidden message = rejection_new 403 ''ERR10007'' message"

lemma json_as_str_Some: "json_as_str v = Some s \<longleftrightarrow> v = JString s"
  by (cases v) (auto simp: json_as_str_def)

lemma size_map_of: "map_of kvs k = Some c \<Longrightarrow> size c < Suc (size_list (size_prod (\<lambda>_. 0) size) kvs)"
  by (induction kvs) (auto split: if_splits)

lemma json_get_size: "json_get v k = Some c \<Longrightarrow> size c < size v"
  by (auto simp: json_get_def dest: size_map_of split: json.splits)

lemma json_get2_size: "json_get2 v a b = Some c \<Longrightarrow> size c < size v"
  by (auto simp: json_get2_def bind_eq_Some_conv dest!: json_get_size)

lemma member_size: "(n, t) \<in> set kvs \<Longrightarrow> size t < size (JObject kvs)"
  by (induction kvs) auto

lemma element_size: "e \<in> set es \<Longrightarrow> size e < size (JArray es)"
  by (induction es) auto

lemma rejection_new_simps [simp]:
  "rj_status (rejection_new s c m) = s" "rj_code (rejection_new s c m) = c"
  "rj_message (rejection_new s c m) = m" "rj_headers (rejection_new s c m) = []"
  by (simp_all add: rejection_new_def)

lemma with_header_simps [simp]:
  "rj_status (with_header n v r) = rj_status r" "rj_code (with_header n v r) = rj_code r"
  "rj_message (with_header n v r) = rj_message r"
  "rj_headers (with_header n v r) = rj_headers r @ [(n, v)]"
  by (simp_all add: with_header_def)

lemma rejection_status [simp]:
  "rj_status (unauthorized m) = 401" "rj_status (forbidden m) = 403"
  "rj_code (unauthorized m) = ''ERR10002''" "rj_code (forbidden m) = ''ERR10007''"
  by (simp_all add: unauthorized_def forbidden_def)

record auth_principal =
  ap_client_id :: "string option"
  ap_user_id :: "string option"
  ap_issuer :: "string option"
  ap_email :: "string option"
  ap_host :: "string option"
  ap_role :: "string option"
  ap_claims :: json

definition principal_default :: auth_principal where
  "principal_default = \<lparr>ap_client_id = None, ap_user_id = None, ap_issuer = None,
     ap_email = None, ap_host = None, ap_role = None, ap_claims = JNull\<rparr>"

end
