(* ===== verification/Rate_Limit.thy ===== *)
theory Rate_Limit
  imports Proxy_Trust Security_Types
begin

text \<open>
  The gateway's rate limiter, \<open>crates/gateway-policy/src/rate_limit.rs\<close>: quota syntax,
  selection of the accounting key and its quotas, the bounded table of sliding-window counters
  and the decision on a request.  The clock and the request are arguments; the state behind
  the mutex is passed explicitly.
\<close>

section \<open>Configuration\<close>

record limit_quota =
  lq_limit :: nat
  lq_window_seconds :: nat

datatype limit_key = Server | Address | Client | User | Akamai | HeaderClientId

record limit_config =
  lc_enabled :: bool
  lc_concurrent_request :: nat
  lc_queue_size :: nat
  lc_error_code :: nat
  lc_rate_limit :: "limit_quota list"
  lc_headers_always_set :: bool
  lc_key :: limit_key
  lc_trusted_proxy_cidrs :: "string list"
  lc_server :: "(string, limit_quota list) btree"
  lc_address :: "(string, limit_quota list) btree"
  lc_client :: "(string, limit_quota list) btree"
  lc_user :: "(string, limit_quota list) btree"

definition default_error_code :: nat where
  "default_error_code = 429"

definition limit_config_default :: limit_config where
  "limit_config_default = \<lparr>lc_enabled = False, lc_concurrent_request = 0, lc_queue_size = 0,
     lc_error_code = default_error_code, lc_rate_limit = [], lc_headers_always_set = False,
     lc_key = Server, lc_trusted_proxy_cidrs = [], lc_server = [], lc_address = [],
     lc_client = [], lc_user = []\<rparr>"

definition source_trust :: "'n ipnet_ops \<Rightarrow> limit_config \<Rightarrow>
    (string, 'n trusted_proxy_policy) result" where
  "source_trust ops config =
     rtry (policy_new ops (lc_trusted_proxy_cidrs config)) (\<lambda>trust.
     if lc_enabled config \<and> lc_key config = Akamai \<and> policy_is_empty trust
     then Err ''limit.yml: Akamai requires trustedProxyCidrs''
     else Ok trust)"

subsection \<open>Quota syntax\<close>

definition window_seconds_for_unit :: "string \<Rightarrow> (string, nat) result" where
  "window_seconds_for_unit unit =
     (let u = to_ascii_lowercase unit in
      if u \<in> {''s'', ''sec'', ''second'', ''seconds''} then Ok 1
      else if u \<in> {''m'', ''min'', ''minute'', ''minutes''} then Ok 60
      else if u \<in> {''h'', ''hour'', ''hours''} then Ok (60 * 60)
      else if u \<in> {''d'', ''day'', ''days''} then Ok (60 * 60 * 24)
      else Err (''unsupported limit quota unit `'' @ unit @ ''`''))"

definition parse_quota :: "string \<Rightarrow> (string, limit_quota) result" where
  "parse_quota raw =
     (let v = trim raw;
          lu = (case split_once CHR ''/'' v of Some p \<Rightarrow> p | None \<Rightarrow> (v, ''s''))
      in rtry (ok_or (''invalid limit quota `'' @ v @ ''`'') (parse_uint u64_max (trim (fst lu)))) (\<lambda>n.
         rtry (window_seconds_for_unit (trim (snd lu))) (\<lambda>w.
         Ok \<lparr>lq_limit = n, lq_window_seconds = w\<rparr>)))"

text \<open>\<open>serde_yaml\<close> decoding of a list, of a value and \<open>Number::as_u64\<close> are parameters.\<close>

definition parse_quota_list :: "(string \<Rightarrow> (string, limit_quota list) result) \<Rightarrow> string \<Rightarrow>
    (string, limit_quota list) result" where
  "parse_quota_list yaml_quotas raw =
     (let v = trim raw in
      if v = [] then Ok []
      else if starts_with v ''['' then yaml_quotas v
      else try_map parse_quota (filter (\<lambda>i. i \<noteq> []) (map trim (split_chars '', '' v))))"

record yaml_quota_codec =
  yq_list :: "string \<Rightarrow> (string, limit_quota list) result"
  yq_value :: "yaml \<Rightarrow> (string, limit_quota) result"
  yq_as_u64 :: "string \<Rightarrow> nat option"
  yq_as_str :: "yaml \<Rightarrow> string option"
  yq_text :: "string \<Rightarrow> (string, yaml) result"
  yq_debug :: "yaml \<Rightarrow> string"

definition parse_quota_value :: "yaml_quota_codec \<Rightarrow> yaml \<Rightarrow> (string, limit_quota list) result" where
  "parse_quota_value yq v =
     (case v of
        YNull \<Rightarrow> Ok []
      | YString s \<Rightarrow> parse_quota_list (yq_list yq) s
      | YNumber n \<Rightarrow>
          rtry (ok_or ''limit quota number must be unsigned'' (yq_as_u64 yq n)) (\<lambda>l.
          Ok [\<lparr>lq_limit = l, lq_window_seconds = 1\<rparr>])
      | YSequence vs \<Rightarrow>
          try_map (\<lambda>x. case x of YString s \<Rightarrow> parse_quota s | _ \<Rightarrow> yq_value yq x) vs
      | other \<Rightarrow> rtry (yq_value yq other) (\<lambda>q. Ok [q]))"

fun quota_map_entries :: "yaml_quota_codec \<Rightarrow> (yaml \<times> yaml) list \<Rightarrow> (string, limit_quota list) btree \<Rightarrow>
    (string, (string, limit_quota list) btree) result" where
  "quota_map_entries yq [] m = Ok m"
| "quota_map_entries yq ((k, v) # rest) m =
     rtry (ok_or ''limit map key must be a string'' (yq_as_str yq k)) (\<lambda>key.
     rtry (parse_quota_value yq v) (\<lambda>qs. quota_map_entries yq rest (bt_insert key qs m)))"

definition parse_quota_map_value :: "yaml_quota_codec \<Rightarrow> yaml \<Rightarrow>
    (string, (string, limit_quota list) btree) result" where
  "parse_quota_map_value yq v =
     (case v of
        YMapping kvs \<Rightarrow> quota_map_entries yq kvs []
      | YNull \<Rightarrow> Ok []
      | other \<Rightarrow> Err (''expected limit quota map, got '' @ yq_debug yq other))"

text \<open>
  The visitors: a deserializer offers a string, an unsigned number, a sequence of decoded
  elements or a map; other inputs are refused by \<open>serde\<close>.  In the map form of a quota each
  value offers what decoding it as \<open>u64\<close> and as \<open>String\<close> answers.
\<close>

datatype ('s, 'm) quota_input =
    QStr string
  | QU64 nat
  | QSeq "(string, 's) result list"
  | QMap "(string, string \<times> 'm) result list"
  | QOther

record quota_field =
  qf_u64 :: "(string, nat) result"
  qf_string :: "(string, string) result"

fun quota_fields :: "(string, string \<times> quota_field) result list \<Rightarrow> nat option \<Rightarrow> nat option \<Rightarrow>
    (string, nat option \<times> nat option) result" where
  "quota_fields [] l w = Ok (l, w)"
| "quota_fields (r # rest) l w =
     rtry r (\<lambda>(key, v).
     if key = ''limit'' then rtry (qf_u64 v) (\<lambda>n. quota_fields rest (Some n) w)
     else if key \<in> {''windowSeconds'', ''window_seconds''}
     then rtry (qf_u64 v) (\<lambda>n. quota_fields rest l (Some n))
     else if key = ''unit''
     then rtry (qf_string v) (\<lambda>u. rtry (window_seconds_for_unit u) (\<lambda>n. quota_fields rest l (Some n)))
     else quota_fields rest l w)"

definition deserialize_quota :: "('s, quota_field) quota_input \<Rightarrow> (string, limit_quota) result" where
  "deserialize_quota inp =
     (case inp of
        QStr s \<Rightarrow> parse_quota s
      | QU64 n \<Rightarrow> Ok \<lparr>lq_limit = n, lq_window_seconds = 1\<rparr>
      | QMap es \<Rightarrow>
          rtry (quota_fields es None None) (\<lambda>(l, w).
          rtry (ok_or ''missing quota limit'' l) (\<lambda>n.
          Ok \<lparr>lq_limit = n, lq_window_seconds = (case w of None \<Rightarrow> 1 | Some x \<Rightarrow> x)\<rparr>))
      | _ \<Rightarrow> Err ''invalid type'')"

definition deserialize_quota_list :: "yaml_quota_codec \<Rightarrow> (limit_quota, 'm) quota_input \<Rightarrow>
    (string, limit_quota list) result" where
  "deserialize_quota_list yq inp =
     (case inp of
        QStr s \<Rightarrow> parse_quota_list (yq_list yq) s
      | QU64 n \<Rightarrow> Ok [\<lparr>lq_limit = n, lq_window_seconds = 1\<rparr>]
      | QSeq es \<Rightarrow> try_map (\<lambda>e. e) es
      | _ \<Rightarrow> Err ''invalid type'')"

fun quota_map_visit :: "yaml_quota_codec \<Rightarrow> (string, string \<times> yaml) result list \<Rightarrow>
    (string, limit_quota list) btree \<Rightarrow> (string, (string, limit_quota list) btree) result" where
  "quota_map_visit yq [] m = Ok m"
| "quota_map_visit yq (r # rest) m =
     rtry r (\<lambda>(key, v).
     rtry (parse_quota_value yq v) (\<lambda>qs. quota_map_visit yq rest (bt_insert key qs m)))"

definition deserialize_quota_map :: "yaml_quota_codec \<Rightarrow> ('s, yaml) quota_input \<Rightarrow>
    (string, (string, limit_quota list) btree) result" where
  "deserialize_quota_map yq inp =
     (case inp of
        QStr s \<Rightarrow>
          (let v = trim s in
           if v = [] then Ok [] else rtry (yq_text yq v) (parse_quota_map_value yq))
      | QMap es \<Rightarrow> quota_map_visit yq es []
      | _ \<Rightarrow> Err ''invalid type'')"

definition deserialize_legacy_queue_size :: "int \<Rightarrow> (int, nat) result" where
  "deserialize_legacy_queue_size v =
     (if v = -1 then Ok 0 else if v \<ge> 0 then Ok (nat v) else Err v)"

section \<open>Keys and quotas of a request\<close>

definition best_path_quotas :: "(string, limit_quota list) btree \<Rightarrow> string \<Rightarrow> limit_quota list option" where
  "best_path_quotas m path =
     map_option snd (longest_match fst (\<lambda>e. snd e \<noteq> []) path m)"

definition direct_quotas :: "(string, limit_quota list) btree \<Rightarrow> string \<Rightarrow> string \<Rightarrow>
    limit_quota list option" where
  "direct_quotas m direct_key path =
     (case (case bt_get m (direct_key @ ''#'' @ path) of
              Some qs \<Rightarrow> Some qs | None \<Rightarrow> bt_get m direct_key) of
        None \<Rightarrow> None
      | Some qs \<Rightarrow> if qs \<noteq> [] then Some qs else None)"

definition non_empty :: "limit_quota list \<Rightarrow> limit_quota list option" where
  "non_empty qs = (if qs \<noteq> [] then Some qs else None)"

definition or_else :: "'a option \<Rightarrow> 'a option \<Rightarrow> 'a option" where
  "or_else a b = (case a of Some x \<Rightarrow> Some x | None \<Rightarrow> b)"

definition principal_field :: "auth_principal option \<Rightarrow> (auth_principal \<Rightarrow> string option) \<Rightarrow>
    string option" where
  "principal_field princ f = (case princ of None \<Rightarrow> None | Some p \<Rightarrow> f p)"

definition rate_limit_key_and_quotas_with_trust :: "'n ipnet_ops \<Rightarrow> request_head \<Rightarrow> limit_config \<Rightarrow>
    auth_principal option \<Rightarrow> string \<Rightarrow> ip_addr option \<Rightarrow> 'n trusted_proxy_policy \<Rightarrow>
    (handler_rejection, (string \<times> limit_quota list) option) result" where
  "rate_limit_key_and_quotas_with_trust ops req config princ path peer trust =
     (let keyed = (\<lambda>key m id.
        Ok (map_option (\<lambda>qs. (key, qs))
          (or_else (direct_quotas m id path) (non_empty (lc_rate_limit config)))));
          resolved = (\<lambda>akamai.
        (case resolve ops trust (rh_headers req) peer akamai of
           Inl message \<Rightarrow> Err (rejection_new 400 ''ERR10002'' message)
         | Inr a \<Rightarrow> Ok (show_ip a)))
      in case lc_key config of
        Server \<Rightarrow>
          Ok (map_option (\<lambda>qs. (''server'', qs))
            (or_else (best_path_quotas (lc_server config) path) (non_empty (lc_rate_limit config))))
      | Address \<Rightarrow>
          rtry (resolved False) (\<lambda>address. keyed (''address:'' @ address) (lc_address config) address)
      | Client \<Rightarrow>
          rtry (ok_or (unauthorized ''client id is required for client rate limiting'')
                 (principal_field princ ap_client_id)) (\<lambda>client_id.
          keyed (''client:'' @ client_id) (lc_client config) client_id)
      | User \<Rightarrow>
          rtry (ok_or (unauthorized ''user id is required for user rate limiting'')
                 (principal_field princ ap_user_id)) (\<lambda>user_id.
          keyed (''user:'' @ user_id) (lc_user config) user_id)
      | Akamai \<Rightarrow>
          rtry (resolved True) (\<lambda>address. keyed (''akamai:'' @ address) (lc_address config) address)
      | HeaderClientId \<Rightarrow>
          rtry (ok_or (unauthorized ''verified authentication is required for header client rate limiting'')
                 princ) (\<lambda>p.
          rtry (ok_or (unauthorized ''verified client id is required for client rate limiting'')
                 (ap_client_id p)) (\<lambda>client_id.
          keyed (''client:'' @ client_id) (lc_client config) client_id)))"

section \<open>Counters\<close>

record bucket =
  bk_entries :: "nat list"
  bk_expires_at :: nat

type_synonym buckets = "(string, bucket) btree"

definition MAX_RATE_LIMIT_BUCKETS :: nat where
  "MAX_RATE_LIMIT_BUCKETS = 4096"

definition MAX_RATE_LIMIT_KEY_BYTES :: nat where
  "MAX_RATE_LIMIT_KEY_BYTES = 4096"

definition bucket_default :: bucket where
  "bucket_default = \<lparr>bk_entries = [], bk_expires_at = 0\<rparr>"

text \<open>
  \<open>bucket_entries\<close> hands out the entries of the key's bucket, which it creates and whose
  expiry it extends; \<open>None\<close> when the key is too long or the table is full of live buckets.
\<close>

definition bucket_entries :: "buckets \<Rightarrow> string \<Rightarrow> nat \<Rightarrow> nat \<Rightarrow> bucket option \<times> buckets" where
  "bucket_entries state key now window =
     (if length key > MAX_RATE_LIMIT_KEY_BYTES then (None, state)
      else
        let full = (bt_get state key = None \<and> length state \<ge> MAX_RATE_LIMIT_BUCKETS);
            state' = (if full then bt_retain (\<lambda>_ b. bk_expires_at b > now) state else state)
        in if full \<and> length state' \<ge> MAX_RATE_LIMIT_BUCKETS then (None, state')
           else
             let b = (case bt_get state' key of None \<Rightarrow> bucket_default | Some b \<Rightarrow> b);
                 b' = b\<lparr>bk_expires_at := max (bk_expires_at b) (sat_add now (max window 1))\<rparr>
             in (Some b', bt_insert key b' state'))"

definition max_window :: "limit_quota list \<Rightarrow> nat" where
  "max_window qs = (if qs = [] then 1 else Max (set (map lq_window_seconds qs)))"

definition in_window :: "nat \<Rightarrow> nat \<Rightarrow> nat list \<Rightarrow> nat list" where
  "in_window now w es = filter (\<lambda>t. now - t < w) es"

fun first_exceeded :: "nat list \<Rightarrow> nat \<Rightarrow> limit_quota list \<Rightarrow> (limit_quota \<times> nat) option" where
  "first_exceeded es now [] = None"
| "first_exceeded es now (q # qs) =
     (let count = length (in_window now (lq_window_seconds q) es) in
      if count \<ge> lq_limit q then Some (q, count) else first_exceeded es now qs)"

definition evaluate_counter :: "nat list \<Rightarrow> limit_quota list \<Rightarrow> nat \<Rightarrow> bool \<Rightarrow>
    (limit_quota \<times> nat) option \<times> nat list" where
  "evaluate_counter es quotas now allow_initial_empty =
     (let initially_empty = (es = []);
          es' = dropWhile (\<lambda>t. now - t \<ge> max_window quotas) es
      in case (if \<not> (allow_initial_empty \<and> initially_empty) then first_exceeded es' now quotas
               else None) of
           Some qc \<Rightarrow> (Some qc, es')
         | None \<Rightarrow> (None, es' @ [now]))"

text \<open>
  The critical section both entry points share: take the bucket, evaluate the counter on its
  entries, and leave the entries in the bucket.
\<close>

datatype charge_outcome =
    NoCapacity
  | Exceeded limit_quota nat "nat list"
  | Admitted "nat list"

definition charge :: "buckets \<Rightarrow> string \<Rightarrow> limit_quota list \<Rightarrow> nat \<Rightarrow> bool \<Rightarrow> charge_outcome \<times> buckets" where
  "charge state key quotas now allow_initial_empty =
     (case bucket_entries state key now (max_window quotas) of
        (None, state') \<Rightarrow> (NoCapacity, state')
      | (Some b, state') \<Rightarrow>
          (case evaluate_counter (bk_entries b) quotas now allow_initial_empty of
             (r, es) \<Rightarrow>
               let state'' = bt_insert key (b\<lparr>bk_entries := es\<rparr>) state'
               in case r of
                    Some (q, count) \<Rightarrow> (Exceeded q count es, state'')
                  | None \<Rightarrow> (Admitted es, state'')))"

section \<open>The decision on a request\<close>

record rate_limit_headers =
  rl_limit :: nat
  rl_remaining :: nat
  rl_reset :: nat
  rl_retry_after :: "nat option"

definition headers_for_quota :: "limit_quota \<Rightarrow> nat \<Rightarrow> nat list \<Rightarrow> nat \<Rightarrow> bool \<Rightarrow> rate_limit_headers" where
  "headers_for_quota q count es now rejected =
     (let oldest = (case in_window now (lq_window_seconds q) es of [] \<Rightarrow> now | t # _ \<Rightarrow> t);
          reset = max (lq_window_seconds q - (now - oldest)) 1;
          used = (if rejected then count else min count (lq_limit q))
      in \<lparr>rl_limit = lq_limit q, rl_remaining = lq_limit q - used, rl_reset = reset,
          rl_retry_after = (if rejected then Some reset else None)\<rparr>)"

definition retry_after_value :: "rate_limit_headers \<Rightarrow> nat" where
  "retry_after_value h = (case rl_retry_after h of None \<Rightarrow> rl_reset h | Some r \<Rightarrow> r)"

definition exceeded_rejection :: "limit_config \<Rightarrow> rate_limit_headers \<Rightarrow> handler_rejection" where
  "exceeded_rejection config h =
     with_header ''Retry-After'' (show_nat (retry_after_value h))
     (with_header ''X-RateLimit-Reset'' (show_nat (rl_reset h))
     (with_header ''X-RateLimit-Remaining'' (show_nat (rl_remaining h))
     (with_header ''X-RateLimit-Limit'' (show_nat (rl_limit h))
     (rejection_new (lc_error_code config) ''ERR10077'' ''rate limit exceeded''))))"

definition capacity_rejection :: "limit_config \<Rightarrow> handler_rejection" where
  "capacity_rejection config =
     with_header ''Retry-After'' ''1''
       (rejection_new (lc_error_code config) ''ERR10077'' ''rate limit capacity exhausted'')"

record 'n rate_limit_runtime =
  rt_config :: limit_config
  rt_state :: buckets
  rt_source_trust :: "(string, 'n trusted_proxy_policy) result"

definition runtime_new :: "'n ipnet_ops \<Rightarrow> limit_config \<Rightarrow> 'n rate_limit_runtime" where
  "runtime_new ops config =
     \<lparr>rt_config = config, rt_state = [], rt_source_trust = source_trust ops config\<rparr>"

definition check_rate_limit_with_source_ip :: "'n ipnet_ops \<Rightarrow> nat \<Rightarrow> request_head \<Rightarrow>
    'n rate_limit_runtime \<Rightarrow> auth_principal option \<Rightarrow> string \<Rightarrow> ip_addr option \<Rightarrow>
    (handler_rejection, rate_limit_headers option) result \<times> 'n rate_limit_runtime" where
  "check_rate_limit_with_source_ip ops now req rt princ path peer =
     (let config = rt_config rt in
      if \<not> lc_enabled config then (Ok None, rt)
      else case (case rt_source_trust rt of
                   Inl message \<Rightarrow> Err (rejection_new 500 ''ERR10002'' message)
                 | Inr trust \<Rightarrow>
                     rate_limit_key_and_quotas_with_trust ops req config princ path peer trust) of
        Inl e \<Rightarrow> (Err e, rt)
      | Inr None \<Rightarrow> (Ok None, rt)
      | Inr (Some (key, quotas)) \<Rightarrow>
          if quotas = [] then (Ok None, rt)
          else case charge (rt_state rt) key quotas now False of (outcome, state') \<Rightarrow>
            (case outcome of
               NoCapacity \<Rightarrow> Err (capacity_rejection config)
             | Exceeded q count es \<Rightarrow>
                 Err (exceeded_rejection config (headers_for_quota q count es now True))
             | Admitted es \<Rightarrow>
                 if lc_headers_always_set config
                 then let q = hd quotas in
                      Ok (Some (headers_for_quota q (length (in_window now (lq_window_seconds q) es))
                            es now False))
                 else Ok None,
             rt\<lparr>rt_state := state'\<rparr>))"

definition check_rate_limit :: "'n ipnet_ops \<Rightarrow> nat \<Rightarrow> request_head \<Rightarrow>
    'n rate_limit_runtime \<Rightarrow> auth_principal option \<Rightarrow> string \<Rightarrow> string option \<Rightarrow>
    (handler_rejection, rate_limit_headers option) result \<times> 'n rate_limit_runtime" where
  "check_rate_limit ops now req rt princ path peer =
     check_rate_limit_with_source_ip ops now req rt princ path
       (case peer of None \<Rightarrow> None | Some p \<Rightarrow> parse_ip p)"

record selected_quota_decision =
  sq_allowed :: bool
  sq_count :: nat
  sq_reset :: "nat option"

definition check_selected_rate_limit :: "nat \<Rightarrow> 'n rate_limit_runtime \<Rightarrow> string \<Rightarrow> limit_quota \<Rightarrow>
    selected_quota_decision \<times> 'n rate_limit_runtime" where
  "check_selected_rate_limit now rt label quota =
     (case charge (rt_state rt) (''lambda-selected:'' @ label) [quota] now True of
        (outcome, state') \<Rightarrow>
          (case outcome of
             NoCapacity \<Rightarrow> \<lparr>sq_allowed = False, sq_count = lq_limit quota, sq_reset = Some 1\<rparr>
           | Exceeded q count es \<Rightarrow>
               \<lparr>sq_allowed = False, sq_count = count,
                sq_reset = (if lq_window_seconds quota = 1 then Some 1
                            else case es of [] \<Rightarrow> None
                                 | first # _ \<Rightarrow> Some (lq_window_seconds quota - (now - first)))\<rparr>
           | Admitted es \<Rightarrow> \<lparr>sq_allowed = True, sq_count = length es, sq_reset = None\<rparr>,
           rt\<lparr>rt_state := state'\<rparr>))"

definition apply_rate_limit_headers :: "('w, 'e) header_writer \<Rightarrow> 'w \<Rightarrow> rate_limit_headers \<Rightarrow>
    'e option \<times> 'w" where
  "apply_rate_limit_headers hw response h =
     write_all hw response
       ([(''X-RateLimit-Limit'', show_nat (rl_limit h)),
         (''X-RateLimit-Remaining'', show_nat (rl_remaining h)),
         (''X-RateLimit-Reset'', show_nat (rl_reset h))]
        @ (case rl_retry_after h of None \<Rightarrow> [] | Some r \<Rightarrow> [(''Retry-After'', show_nat r)]))"

end
