(* ===== verification/Rate_Window.thy ===== *)
theory Rate_Window
  imports Rate_Limit
begin

text \<open>
  What the rate limiter guarantees over a run: the table stays within its bounds, no window of
  a quota ever holds more admitted requests than the quota allows (also across the eviction of
  expired buckets), and a refusal names the exact second at which the key is admitted again.
\<close>

section \<open>The table stays bounded\<close>

definition table_ok :: "buckets \<Rightarrow> bool" where
  "table_ok st \<longleftrightarrow> bt_ok st \<and> length st \<le> MAX_RATE_LIMIT_BUCKETS
     \<and> (\<forall>e \<in> set st. length (fst e) \<le> MAX_RATE_LIMIT_KEY_BYTES)"

lemma table_ok_Nil [simp]: "table_ok []"
  by (simp add: table_ok_def)

lemma set_bt_insert: "set (bt_insert k v m) \<subseteq> insert (k, v) (set m)"
  by (auto simp: bt_insert_def)

lemma bt_get_Some_iff_mem: "bt_ok m \<Longrightarrow> bt_get m k = Some v \<longleftrightarrow> (k, v) \<in> set m"
  by (simp add: bt_get_def bt_ok_distinct)

lemma set_bt_retain: "set (bt_retain P m) \<subseteq> set m"
  by (auto simp: bt_retain_def)

lemma table_ok_retain: "table_ok st \<Longrightarrow> table_ok (bt_retain P st)"
  unfolding table_ok_def
  using bt.size_retain [of st P] set_bt_retain [of P st] by (auto simp: bt.inv_retain)

lemma table_ok_insert:
  assumes "table_ok st" and "length k \<le> MAX_RATE_LIMIT_KEY_BYTES"
    and "bt_get st k = None \<Longrightarrow> length st < MAX_RATE_LIMIT_BUCKETS"
  shows "table_ok (bt_insert k b st)"
  using assms set_bt_insert [of k b st] bt.size_put_bounded [of st MAX_RATE_LIMIT_BUCKETS k b]
  unfolding table_ok_def by (auto simp: bt.inv_put)

text \<open>What taking a bucket does to the table, as seen through lookups.\<close>

definition touched :: "bucket option \<Rightarrow> nat \<Rightarrow> nat \<Rightarrow> bucket" where
  "touched b now w =
     (let b0 = (case b of None \<Rightarrow> bucket_default | Some x \<Rightarrow> x)
      in b0\<lparr>bk_expires_at := max (bk_expires_at b0) (sat_add now (max w 1))\<rparr>)"

definition evicted :: "buckets \<Rightarrow> buckets \<Rightarrow> nat \<Rightarrow> string \<Rightarrow> bool" where
  "evicted st st' now k \<longleftrightarrow>
     bt_get st' k = None \<and> (\<exists>b. bt_get st k = Some b \<and> bk_expires_at b \<le> now)"

lemma evicted_retain:
  "bt_ok st \<Longrightarrow> bt_get (bt_retain (\<lambda>_ b. now < bk_expires_at b) st) k = bt_get st k
     \<or> evicted st (bt_retain (\<lambda>_ b. now < bk_expires_at b) st) now k"
  by (auto simp: evicted_def bt_get_retain split: option.splits)

lemma bucket_entries_Some:
  assumes "table_ok st" and "bucket_entries st key now w = (Some b, st')"
  shows "table_ok st' \<and> b = touched (bt_get st key) now w \<and> bt_get st' key = Some b
     \<and> (\<forall>k. k \<noteq> key \<longrightarrow> bt_get st' k = bt_get st k \<or> evicted st st' now k)"
proof -
  define full where "full \<longleftrightarrow> bt_get st key = None \<and> length st \<ge> MAX_RATE_LIMIT_BUCKETS"
  define st1 where "st1 = (if full then bt_retain (\<lambda>_ b. bk_expires_at b > now) st else st)"
  have ok: "bt_ok st" using assms(1) by (simp add: table_ok_def)
  have len: "length key \<le> MAX_RATE_LIMIT_KEY_BYTES"
    and room: "\<not> (full \<and> length st1 \<ge> MAX_RATE_LIMIT_BUCKETS)"
    using assms(2) unfolding bucket_entries_def full_def st1_def by (auto simp: Let_def split: if_splits)
  have get: "bt_get st1 key = bt_get st key"
    by (auto simp: st1_def full_def bt_get_retain ok)
  have b: "b = touched (bt_get st key) now w" and st': "st' = bt_insert key b st1"
    using assms(2) len room get unfolding bucket_entries_def touched_def
    by (auto simp: Let_def full_def st1_def split: if_splits)
  have "table_ok st1" using assms(1) by (simp add: st1_def table_ok_retain)
  then have "table_ok st'" unfolding st'
    using len room get by (intro table_ok_insert) (auto simp: full_def st1_def)
  moreover have "bt_get st' k = bt_get st k \<or> evicted st st' now k" if "k \<noteq> key" for k
    using that evicted_retain [OF ok, of now k] unfolding st' st1_def
    by (auto simp: bt_get_insert evicted_def)
  ultimately show ?thesis using b by (simp add: st' bt_get_insert)
qed

lemma bucket_entries_None:
  assumes "table_ok st" and "bucket_entries st key now w = (None, st')"
  shows "table_ok st' \<and> (bt_get st' key = bt_get st key)
     \<and> (\<forall>k. bt_get st' k = bt_get st k \<or> evicted st st' now k)"
proof -
  have ok: "bt_ok st" using assms(1) by (simp add: table_ok_def)
  consider (long) "st' = st" | (full) "st' = bt_retain (\<lambda>_ b. bk_expires_at b > now) st" "bt_get st key = None"
    using assms(2) unfolding bucket_entries_def by (auto simp: Let_def split: if_splits)
  then show ?thesis
    using assms(1) evicted_retain [OF ok, of now]
    by cases (auto simp: table_ok_retain bt_get_retain ok)
qed

lemma charge_table_ok:
  assumes "table_ok st"
  shows "table_ok (snd (charge st key qs now allow))"
proof (cases "bucket_entries st key now (max_window qs)")
  case (Pair ob st1)
  show ?thesis
  proof (cases ob)
    case None
    with Pair bucket_entries_None [OF assms] show ?thesis by (simp add: charge_def)
  next
    case (Some b)
    with Pair bucket_entries_Some [OF assms]
    have st1: "table_ok st1" "bt_get st1 key = Some b" by auto
    then have "(key, b) \<in> set st1" by (simp add: table_ok_def bt_get_Some_iff_mem)
    with st1 have "table_ok (bt_insert key b' st1)" for b'
      by (intro table_ok_insert) (auto simp: table_ok_def)
    then show ?thesis using Pair Some
      by (auto simp: charge_def Let_def split: prod.splits option.splits)
  qed
qed

section \<open>One sliding window\<close>

text \<open>Admitted times \<open>ts\<close> that lie in the window of length \<open>w\<close> ending at \<open>t\<close>.\<close>

definition window_count :: "nat list \<Rightarrow> nat \<Rightarrow> nat \<Rightarrow> nat" where
  "window_count ts t w = length (filter (\<lambda>a. a \<le> t \<and> t - a < w) ts)"

lemma window_count_append [simp]:
  "window_count (xs @ ys) t w = window_count xs t w + window_count ys t w"
  by (simp add: window_count_def)

lemma window_count_old: "\<forall>a \<in> set ts. a + w \<le> t \<Longrightarrow> window_count ts t w = 0"
  by (auto simp: window_count_def filter_empty_conv)

lemma window_count_mono: "\<forall>a \<in> set ts. a \<le> t \<Longrightarrow> t \<le> t' \<Longrightarrow> window_count ts t' w \<le> window_count ts t w"
proof -
  assume ts: "\<forall>a \<in> set ts. a \<le> t" and t: "t \<le> t'"
  have "filter (\<lambda>a. a \<le> t' \<and> t' - a < w) ts = filter (\<lambda>a. t' - a < w) (filter (\<lambda>a. a \<le> t \<and> t - a < w) ts)"
    using ts t by (auto intro!: filter_cong)
  then show ?thesis unfolding window_count_def by (metis length_filter_le)
qed

lemma window_count_in_window:
  "\<forall>a \<in> set ts. a \<le> t \<Longrightarrow> window_count ts t w = length (in_window t w ts)"
  by (simp add: window_count_def in_window_def cong: filter_cong)

lemma max_window_ge: "q \<in> set qs \<Longrightarrow> lq_window_seconds q \<le> max_window qs"
  by (auto simp: max_window_def)

lemma first_exceeded_None_iff:
  "first_exceeded es now qs = None \<longleftrightarrow>
     (\<forall>q \<in> set qs. length (in_window now (lq_window_seconds q) es) < lq_limit q)"
  by (induction qs) (auto simp: Let_def)

lemma first_exceeded_Some:
  "first_exceeded es now qs = Some (q, c) \<Longrightarrow>
     q \<in> set qs \<and> c = length (in_window now (lq_window_seconds q) es) \<and> lq_limit q \<le> c"
  by (induction qs) (auto simp: Let_def split: if_splits)

lemma evaluate_counter_entries:
  "evaluate_counter es qs now allow = (r, es') \<Longrightarrow>
     es' = dropWhile (\<lambda>t. now - t \<ge> max_window qs) es @ (if r = None then [now] else [])"
  by (auto simp: evaluate_counter_def Let_def split: option.splits if_splits)

text \<open>
  How the history of a key relates to its bucket: the bucket holds the most recent admissions,
  those it dropped are a full window old, and the bucket outlives all it holds.  A missing
  bucket means that nothing younger than a window was lost.
\<close>

definition history_ok :: "limit_quota list \<Rightarrow> bucket option \<Rightarrow> nat list \<Rightarrow> nat \<Rightarrow> bool" where
  "history_ok qs ob ts now \<longleftrightarrow>
     sorted ts \<and> (\<forall>a \<in> set ts. a \<le> now) \<and>
     (case ob of
        None \<Rightarrow> \<forall>a \<in> set ts. a + max_window qs \<le> now
      | Some b \<Rightarrow> (\<exists>old. ts = old @ bk_entries b \<and> (\<forall>a \<in> set old. a + max_window qs \<le> now))
          \<and> (\<forall>a \<in> set ts. a + max_window qs \<le> bk_expires_at b))"

text \<open>The largest number of admissions a window may hold.\<close>

definition quota_cap :: "bool \<Rightarrow> limit_quota \<Rightarrow> nat" where
  "quota_cap allow q = (if allow then max 1 (lq_limit q) else lq_limit q)"

definition windows_ok :: "bool \<Rightarrow> limit_quota list \<Rightarrow> nat list \<Rightarrow> bool" where
  "windows_ok allow qs ts \<longleftrightarrow>
     (\<forall>q \<in> set qs. \<forall>t. window_count ts t (lq_window_seconds q) \<le> quota_cap allow q)"

lemma history_ok_later:
  "history_ok qs ob ts now \<Longrightarrow> now \<le> now' \<Longrightarrow> history_ok qs ob ts now'"
  by (cases ob) (force simp: history_ok_def)+

lemma history_ok_evicted:
  "history_ok qs (Some b) ts now \<Longrightarrow> now \<le> now' \<Longrightarrow> bk_expires_at b \<le> now' \<Longrightarrow>
     history_ok qs None ts now'"
  by (force simp: history_ok_def)

lemma history_ok_touched:
  assumes "history_ok qs ob ts now" and "now + max w 1 \<le> u64_max"
  shows "history_ok qs (Some (touched ob now w)) ts now \<and> now + max w 1 \<le> bk_expires_at (touched ob now w)"
proof (cases ob)
  case None
  have "\<forall>a \<in> set ts. a + max_window qs \<le> now + max w 1"
    using assms(1) None by (fastforce simp: history_ok_def)
  with None assms show ?thesis
    by (auto simp: history_ok_def touched_def bucket_default_def sat_add_def)
next
  case (Some b)
  then show ?thesis using assms by (auto simp: history_ok_def touched_def sat_add_def le_max_iff_disj)
qed

lemma takeWhile_old:
  assumes "\<forall>a \<in> set es. a \<le> (now :: nat)"
  shows "\<forall>a \<in> set (takeWhile (\<lambda>t. w \<le> now - t) es). a + w \<le> now"
proof
  fix a assume "a \<in> set (takeWhile (\<lambda>t. w \<le> now - t) es)"
  then have "w \<le> now - a" "a \<le> now" using assms by (auto dest: set_takeWhileD)
  then show "a + w \<le> now" by arith
qed

lemma history_ok_SomeI:
  assumes "sorted ts" and "\<forall>a \<in> set ts. a \<le> now" and "ts = old @ bk_entries b"
    and "\<forall>a \<in> set old. a + max_window qs \<le> now"
    and "\<forall>a \<in> set ts. a + max_window qs \<le> bk_expires_at b"
  shows "history_ok qs (Some b) ts now"
  unfolding history_ok_def option.case using assms by blast

text \<open>The entries left in the bucket count exactly the admissions of the window.\<close>

lemma history_window_count:
  assumes "history_ok qs (Some b) ts now" and "q \<in> set qs"
  shows "window_count ts now (lq_window_seconds q) =
    length (in_window now (lq_window_seconds q) (dropWhile (\<lambda>t. now - t \<ge> max_window qs) (bk_entries b)))"
proof -
  let ?drop = "takeWhile (\<lambda>t. now - t \<ge> max_window qs) (bk_entries b)"
  let ?keep = "dropWhile (\<lambda>t. now - t \<ge> max_window qs) (bk_entries b)"
  obtain old where ts: "ts = old @ bk_entries b" and old: "\<forall>a \<in> set old. a + max_window qs \<le> now"
      and le: "\<forall>a \<in> set ts. a \<le> now"
    using assms(1) by (auto simp: history_ok_def)
  have w: "lq_window_seconds q \<le> max_window qs" using assms(2) by (rule max_window_ge)
  have "\<forall>a \<in> set ?drop. a + max_window qs \<le> now"
    using le by (intro takeWhile_old) (simp add: ts)
  with old w have "\<forall>a \<in> set (old @ ?drop). a + lq_window_seconds q \<le> now" by fastforce
  then have "window_count (old @ ?drop) now (lq_window_seconds q) = 0" by (rule window_count_old)
  moreover have "ts = (old @ ?drop) @ ?keep" by (simp add: ts)
  then have "window_count ts now (lq_window_seconds q) =
      window_count (old @ ?drop) now (lq_window_seconds q) + window_count ?keep now (lq_window_seconds q)"
    by (simp only: window_count_append)
  moreover have "\<forall>a \<in> set ?keep. a \<le> now" using le by (auto simp: ts dest: set_dropWhileD)
  ultimately show ?thesis by (simp add: window_count_in_window)
qed

lemma windows_ok_admit:
  assumes "windows_ok allow qs ts" and "\<forall>a \<in> set ts. a \<le> now"
    and room: "\<And>q. q \<in> set qs \<Longrightarrow> window_count ts now (lq_window_seconds q) < quota_cap allow q"
  shows "windows_ok allow qs (ts @ [now])"
  unfolding windows_ok_def
proof (intro ballI allI)
  fix q t assume q: "q \<in> set qs"
  show "window_count (ts @ [now]) t (lq_window_seconds q) \<le> quota_cap allow q"
  proof (cases "now \<le> t")
    case True
    have "window_count ts t (lq_window_seconds q) < quota_cap allow q"
      using window_count_mono [OF assms(2) True] room [OF q] by (rule le_less_trans)
    moreover have "window_count [now] t (lq_window_seconds q) \<le> 1" by (simp add: window_count_def)
    ultimately show ?thesis by simp
  next
    case False
    then have "window_count [now] t (lq_window_seconds q) = 0" by (simp add: window_count_def)
    with assms(1) q show ?thesis by (simp add: windows_ok_def)
  qed
qed

lemma evaluate_counter_admits_room:
  assumes "evaluate_counter es qs now allow = (None, es')" and "q \<in> set qs"
  shows "length (in_window now (lq_window_seconds q) (dropWhile (\<lambda>t. now - t \<ge> max_window qs) es))
    < quota_cap allow q"
proof (cases "allow \<and> es = []")
  case True
  then show ?thesis by (simp add: quota_cap_def in_window_def)
next
  case False
  with assms show ?thesis
    by (auto simp: evaluate_counter_def Let_def first_exceeded_None_iff quota_cap_def less_max_iff_disj
        split: option.splits if_splits)
qed

lemma history_ok_evaluate:
  assumes h: "history_ok qs (Some b) ts now" and w: "windows_ok allow qs ts"
    and e: "evaluate_counter (bk_entries b) qs now allow = (r, es)"
    and x: "now + max_window qs \<le> bk_expires_at b"
  shows "history_ok qs (Some (b\<lparr>bk_entries := es\<rparr>)) (ts @ (if r = None then [now] else [])) now
     \<and> windows_ok allow qs (ts @ (if r = None then [now] else []))"
proof
  let ?drop = "takeWhile (\<lambda>t. now - t \<ge> max_window qs) (bk_entries b)"
  obtain old where ts: "ts = old @ bk_entries b" and old: "\<forall>a \<in> set old. a + max_window qs \<le> now"
      and le: "\<forall>a \<in> set ts. a \<le> now" and "sorted ts"
    using h by (auto simp: history_ok_def)
  let ?ts = "ts @ (if r = None then [now] else [])"
  have dropped: "\<forall>a \<in> set (old @ ?drop). a + max_window qs \<le> now"
    using le old takeWhile_old [of "bk_entries b" now "max_window qs"] by (auto simp: ts)
  have entries: "?ts = (old @ ?drop) @ bk_entries (b\<lparr>bk_entries := es\<rparr>)"
    using evaluate_counter_entries [OF e] ts by simp
  have "sorted ?ts" and "\<forall>a \<in> set ?ts. a \<le> now"
    using \<open>sorted ts\<close> le by (auto simp: sorted_append)
  moreover have "\<forall>a \<in> set ?ts. a + max_window qs \<le> bk_expires_at (b\<lparr>bk_entries := es\<rparr>)"
    using h x by (auto simp: history_ok_def)
  ultimately show "history_ok qs (Some (b\<lparr>bk_entries := es\<rparr>)) ?ts now"
    using entries dropped by (blast intro: history_ok_SomeI)
  show "windows_ok allow qs (ts @ (if r = None then [now] else []))"
  proof (cases r)
    case None
    with e le w h show ?thesis
      using evaluate_counter_admits_room [of "bk_entries b" qs now allow es]
      by (simp add: windows_ok_admit history_window_count)
  qed (simp add: w)
qed

section \<open>One call of the critical section\<close>

definition admitted :: "charge_outcome \<Rightarrow> bool" where
  "admitted r = (case r of Admitted _ \<Rightarrow> True | _ \<Rightarrow> False)"

lemma charge_other_key:
  assumes "table_ok st" and "charge st key qs' now allow = (r, st')" and "k \<noteq> key"
    and "history_ok qs (bt_get st k) ts T" and "T \<le> now"
  shows "history_ok qs (bt_get st' k) ts now"
proof -
  have "bt_get st' k = bt_get st k \<or> evicted st st' now k"
  proof (cases "bucket_entries st key now (max_window qs')")
    case (Pair ob st1)
    show ?thesis
    proof (cases ob)
      case None
      with Pair assms(2) have "st' = st1" by (simp add: charge_def)
      with None Pair bucket_entries_None [OF assms(1)] show ?thesis by blast
    next
      case (Some b)
      with Pair assms(2) obtain b' where "st' = bt_insert key b' st1"
        by (auto simp: charge_def Let_def split: prod.splits option.splits)
      moreover have "bt_get st1 k = bt_get st k \<or> evicted st st1 now k"
        using bucket_entries_Some [OF assms(1), of key now _ b st1] Pair Some assms(3) by blast
      ultimately show ?thesis using assms(3) by (simp add: bt_get_insert evicted_def)
    qed
  qed
  then show ?thesis
  proof
    assume "evicted st st' now k"
    then obtain b where "bt_get st k = Some b" "bk_expires_at b \<le> now" "bt_get st' k = None"
      by (auto simp: evicted_def)
    with assms(4,5) show ?thesis by (simp add: history_ok_evicted)
  qed (use assms(4,5) in \<open>simp add: history_ok_later\<close>)
qed

lemma charge_own_key:
  assumes "table_ok st" and "charge st key qs now allow = (r, st')"
    and "history_ok qs (bt_get st key) ts T" and "T \<le> now" and "windows_ok allow qs ts"
    and "now + max (max_window qs) 1 \<le> u64_max"
  shows "history_ok qs (bt_get st' key) (ts @ (if admitted r then [now] else [])) now
     \<and> windows_ok allow qs (ts @ (if admitted r then [now] else []))"
proof (cases "bucket_entries st key now (max_window qs)")
  case (Pair ob st1)
  have h: "history_ok qs (bt_get st key) ts now" using assms(3,4) by (rule history_ok_later)
  show ?thesis
  proof (cases ob)
    case None
    with Pair assms(2) have "st' = st1" "r = NoCapacity" by (simp_all add: charge_def)
    with None Pair bucket_entries_None [OF assms(1)] h assms(5) show ?thesis
      by (auto simp: admitted_def)
  next
    case (Some b)
    with Pair bucket_entries_Some [OF assms(1)]
    have b: "b = touched (bt_get st key) now (max_window qs)" by blast
    from history_ok_touched [OF h assms(6)]
    have hb: "history_ok qs (Some b) ts now" "now + max_window qs \<le> bk_expires_at b"
      unfolding b by linarith+
    obtain x es where e: "evaluate_counter (bk_entries b) qs now allow = (x, es)" by fastforce
    with Some Pair assms(2)
    have "st' = bt_insert key (b\<lparr>bk_entries := es\<rparr>) st1" "admitted r \<longleftrightarrow> x = None"
      by (auto simp: charge_def Let_def admitted_def split: option.splits)
    with history_ok_evaluate [OF hb(1) assms(5) e hb(2)] show ?thesis
      by (simp add: bt_get_insert)
  qed
qed

section \<open>When a refused key is admitted again\<close>

lemma in_window_dropWhile_sorted:
  "sorted es \<Longrightarrow> in_window now w (dropWhile (\<lambda>t. w \<le> now - t) es) = dropWhile (\<lambda>t. w \<le> now - t) es"
proof (induction es)
  case (Cons t es)
  show ?case
  proof (cases "w \<le> now - t")
    case False
    then have "\<forall>x \<in> set (t # es). now - x < w" using Cons.prems by fastforce
    then have "in_window now w (t # es) = t # es"
      unfolding in_window_def by (rule filter_True)
    with False show ?thesis by simp
  qed (use Cons in simp)
qed (simp add: in_window_def)

lemma length_in_window_le: "length (in_window now w es) \<le> length es"
  by (simp add: in_window_def)

lemma first_exceeded_single:
  "first_exceeded es now [q] =
     (if length (in_window now (lq_window_seconds q) es) \<ge> lq_limit q
      then Some (q, length (in_window now (lq_window_seconds q) es)) else None)"
  by (simp add: Let_def)

lemma max_window_single [simp]: "max_window [q] = lq_window_seconds q"
  by (simp add: max_window_def)

lemma evaluate_counter_single:
  "fst (evaluate_counter es [q] now False) = None \<longleftrightarrow>
     length (in_window now (lq_window_seconds q) (dropWhile (\<lambda>t. lq_window_seconds q \<le> now - t) es))
       < lq_limit q"
  by (simp add: evaluate_counter_def Let_def not_le)

text \<open>A key the table holds always gets its bucket.\<close>

lemma bucket_entries_present:
  "bt_get st k = Some b \<Longrightarrow> length k \<le> MAX_RATE_LIMIT_KEY_BYTES \<Longrightarrow>
     \<exists>st'. bucket_entries st k now w = (Some (touched (Some b) now w), st')"
  by (simp add: bucket_entries_def touched_def Let_def)

lemma charge_present:
  assumes "bt_get st k = Some b" and "length k \<le> MAX_RATE_LIMIT_KEY_BYTES"
  shows "admitted (fst (charge st k qs now allow)) \<longleftrightarrow>
    fst (evaluate_counter (bk_entries b) qs now allow) = None"
proof -
  obtain st' where "bucket_entries st k now (max_window qs) = (Some (touched (Some b) now (max_window qs)), st')"
    using bucket_entries_present [OF assms] by blast
  then show ?thesis
    by (auto simp: charge_def Let_def admitted_def touched_def split: prod.splits option.splits)
qed

lemma charge_Exceeded:
  assumes "table_ok st" and "charge st k qs now allow = (Exceeded q c es, st')"
  shows "\<exists>b. length k \<le> MAX_RATE_LIMIT_KEY_BYTES \<and> b = touched (bt_get st k) now (max_window qs)
     \<and> evaluate_counter (bk_entries b) qs now allow = (Some (q, c), es)
     \<and> bt_get st' k = Some (b\<lparr>bk_entries := es\<rparr>)"
proof (cases "bucket_entries st k now (max_window qs)")
  case (Pair ob st1)
  with assms(2) obtain b where b: "ob = Some b"
    by (cases ob) (auto simp: charge_def)
  have "length k \<le> MAX_RATE_LIMIT_KEY_BYTES"
    using Pair b by (auto simp: bucket_entries_def split: if_splits)
  with assms(2) Pair b bucket_entries_Some [OF assms(1), of k now "max_window qs" b st1] show ?thesis
    by (auto simp: charge_def Let_def bt_get_insert split: prod.splits option.splits)
qed

lemma retry_after_exact:
  assumes es: "sorted (o' # es)" "now - o' < w" "o' \<le> now" "now \<le> now'"
    and n: "length (o' # es) = n"
  shows "length (in_window now' w (dropWhile (\<lambda>t. w \<le> now' - t) (o' # es))) < n
     \<longleftrightarrow> now + max (w - (now - o')) 1 \<le> (now' :: nat)"
proof (cases "w \<le> now' - o'")
  case True
  have "length (in_window now' w (dropWhile (\<lambda>t. w \<le> now' - t) es)) \<le> length es"
    using length_in_window_le length_dropWhile_le by (rule order_trans)
  with True n have "length (in_window now' w (dropWhile (\<lambda>t. w \<le> now' - t) (o' # es))) < n" by simp
  moreover have "now + max (w - (now - o')) 1 \<le> now'" using True es by linarith
  ultimately show ?thesis by blast
next
  case False
  with es(1) in_window_dropWhile_sorted [of "o' # es" now' w] n
  have "\<not> length (in_window now' w (dropWhile (\<lambda>t. w \<le> now' - t) (o' # es))) < n" by simp
  moreover have "\<not> now + max (w - (now - o')) 1 \<le> now'" using False es by linarith
  ultimately show ?thesis by blast
qed

lemma charge_retry:
  assumes "table_ok st" and "history_ok [q] (bt_get st k) ts T" and "T \<le> now"
    and "windows_ok False [q] ts" and "now + max (lq_window_seconds q) 1 \<le> u64_max"
    and "0 < lq_limit q" and "charge st k [q] now False = (Exceeded q' c es, st')" and "now \<le> now'"
  shows "admitted (fst (charge st' k [q] now' False)) \<longleftrightarrow>
    now + retry_after_value (headers_for_quota q' c es now True) \<le> now'"
proof -
  let ?w = "lq_window_seconds q"
  define b where "b = touched (bt_get st k) now ?w"
  have ev: "evaluate_counter (bk_entries b) [q] now False = (Some (q', c), es)"
    and k: "length k \<le> MAX_RATE_LIMIT_KEY_BYTES" "bt_get st' k = Some (b\<lparr>bk_entries := es\<rparr>)"
    using charge_Exceeded [OF assms(1,7)] by (simp_all add: b_def)
  have h: "history_ok [q] (Some b) ts now"
    using history_ok_touched [OF history_ok_later [OF assms(2,3)]] assms(5) by (simp add: b_def)
  then have sorted: "sorted (bk_entries b)" and le: "\<forall>a \<in> set (bk_entries b). a \<le> now"
    by (auto simp: history_ok_def sorted_append)
  have es: "es = dropWhile (\<lambda>t. ?w \<le> now - t) (bk_entries b)"
    using evaluate_counter_entries [OF ev] by simp
  have win: "in_window now ?w es = es" unfolding es by (rule in_window_dropWhile_sorted [OF sorted])
  have "q' = q" "lq_limit q \<le> length es"
    using ev win by (auto simp: evaluate_counter_def Let_def es split: if_splits)
  moreover have "length es \<le> lq_limit q"
    using history_window_count [OF h, of q] assms(4) win
    by (simp add: windows_ok_def quota_cap_def flip: es) metis
  ultimately have n: "length es = lq_limit q" "q' = q" by simp_all
  then obtain o' es' where o': "es = o' # es'" using assms(6) by (cases es) auto
  have "sorted es" unfolding es using sorted by (rule sorted_dropWhile)
  moreover have "now - o' < ?w" using win unfolding o' in_window_def
    by (metis filter_id_conv list.set_intros(1))
  moreover have "o' \<in> set (bk_entries b)"
    using o' es set_dropWhileD [of o'] by (metis list.set_intros(1))
  ultimately have "length (in_window now' ?w (dropWhile (\<lambda>t. ?w \<le> now' - t) es)) < lq_limit q
      \<longleftrightarrow> now + max (?w - (now - o')) 1 \<le> now'"
    using retry_after_exact [of o' es' now ?w now' "lq_limit q"] le assms(8) n(1) by (simp add: o')
  moreover have "retry_after_value (headers_for_quota q' c es now True) = max (?w - (now - o')) 1"
    using win by (simp add: n(2) retry_after_value_def headers_for_quota_def Let_def o')
  ultimately show ?thesis
    using charge_present [OF k(2,1), of "[q]" now' False] by (simp add: evaluate_counter_single)
qed

section \<open>Runs\<close>

text \<open>
  The two entry points as events of a run, with the time the clock shows; the log records for
  each event whether the request was let through.
\<close>

datatype rl_event =
    Check nat request_head "auth_principal option" string "ip_addr option"
  | Selected nat string limit_quota

fun event_time :: "rl_event \<Rightarrow> nat" where
  "event_time (Check now _ _ _ _) = now"
| "event_time (Selected now _ _) = now"

fun rl_step :: "'n ipnet_ops \<Rightarrow> rl_event \<Rightarrow> 'n rate_limit_runtime \<Rightarrow> bool \<times> 'n rate_limit_runtime" where
  "rl_step ops (Check now req princ path peer) rt =
     (case check_rate_limit_with_source_ip ops now req rt princ path peer of (r, rt') \<Rightarrow> (is_ok r, rt'))"
| "rl_step ops (Selected now label q) rt =
     (case check_selected_rate_limit now rt label q of (d, rt') \<Rightarrow> (sq_allowed d, rt'))"

fun rl_run :: "'n ipnet_ops \<Rightarrow> rl_event list \<Rightarrow> 'n rate_limit_runtime \<Rightarrow>
    (rl_event \<times> bool) list \<times> 'n rate_limit_runtime" where
  "rl_run ops [] rt = ([], rt)"
| "rl_run ops (ev # evs) rt =
     (case rl_step ops ev rt of (ok, rt1) \<Rightarrow>
      case rl_run ops evs rt1 of (log, rt2) \<Rightarrow> ((ev, ok) # log, rt2))"

text \<open>The key, the quotas and the mode under which an event is accounted, if it is.\<close>

fun event_call :: "'n ipnet_ops \<Rightarrow> limit_config \<Rightarrow> 'n trusted_proxy_policy \<Rightarrow> rl_event \<Rightarrow>
    (string \<times> limit_quota list \<times> bool) option" where
  "event_call ops config trust (Check now req princ path peer) =
     (if \<not> lc_enabled config then None
      else case rate_limit_key_and_quotas_with_trust ops req config princ path peer trust of
        Inr (Some (k, qs)) \<Rightarrow> if qs = [] then None else Some (k, qs, False)
      | _ \<Rightarrow> None)"
| "event_call ops config trust (Selected now label q) = Some (''lambda-selected:'' @ label, [q], True)"

definition admitted_times :: "'n ipnet_ops \<Rightarrow> limit_config \<Rightarrow> 'n trusted_proxy_policy \<Rightarrow> string \<Rightarrow>
    (rl_event \<times> bool) list \<Rightarrow> nat list" where
  "admitted_times ops config trust k log =
     map (event_time \<circ> fst)
       (filter (\<lambda>(ev, ok). ok \<and> map_option fst (event_call ops config trust ev) = Some k) log)"

lemma check_call:
  assumes "event_call ops (rt_config rt) trust (Check now req princ path peer) = Some (k, qs, allow)"
    and "rt_source_trust rt = Ok trust" and "charge (rt_state rt) k qs now allow = (r, st')"
  shows "check_rate_limit_with_source_ip ops now req rt princ path peer =
    ((case r of
        NoCapacity \<Rightarrow> Err (capacity_rejection (rt_config rt))
      | Exceeded q count es \<Rightarrow>
          Err (exceeded_rejection (rt_config rt) (headers_for_quota q count es now True))
      | Admitted es \<Rightarrow>
          if lc_headers_always_set (rt_config rt)
          then Ok (Some (headers_for_quota (hd qs)
                 (length (in_window now (lq_window_seconds (hd qs)) es)) es now False))
          else Ok None), rt\<lparr>rt_state := st'\<rparr>)"
  using assms
  by (cases r) (auto simp: check_rate_limit_with_source_ip_def Let_def
      split: if_splits sum.splits option.splits)

lemma rl_step_call:
  assumes "event_call ops (rt_config rt) trust ev = Some (k, qs, allow)"
    and "rt_source_trust rt = Ok trust"
    and "charge (rt_state rt) k qs (event_time ev) allow = (r, st')"
  shows "rl_step ops ev rt = (admitted r, rt\<lparr>rt_state := st'\<rparr>)"
proof (cases ev)
  case (Check now req princ path peer)
  with assms have "allow = False" by (auto split: if_splits sum.splits option.splits)
  with Check assms check_call [of ops rt trust now req princ path peer k qs allow r st'] show ?thesis
    by (cases r) (auto simp: admitted_def)
next
  case (Selected now label q)
  with assms show ?thesis
    by (cases r) (auto simp: check_selected_rate_limit_def admitted_def)
qed

lemma rl_step_no_call:
  assumes "event_call ops (rt_config rt) trust ev = None" and "rt_source_trust rt = Ok trust"
  shows "snd (rl_step ops ev rt) = rt"
  using assms
  by (cases ev) (auto simp: check_rate_limit_with_source_ip_def Let_def
      split: if_splits sum.splits option.splits)

text \<open>A step never touches the configuration, and keeps the table within its bounds.\<close>

lemma check_frame:
  assumes "table_ok (rt_state rt)" and "check_rate_limit_with_source_ip ops now req rt princ path peer = (r, rt')"
  shows "rt_config rt' = rt_config rt \<and> rt_source_trust rt' = rt_source_trust rt \<and> table_ok (rt_state rt')"
proof -
  have "rt' = rt \<or> (\<exists>k qs. rt' = rt\<lparr>rt_state := snd (charge (rt_state rt) k qs now False)\<rparr>)"
    using assms(2)
    by (auto simp: check_rate_limit_with_source_ip_def Let_def
        split: if_splits sum.splits option.splits prod.splits) (metis snd_conv)+
  then show ?thesis using assms(1) charge_table_ok by auto
qed

lemma rl_step_frame:
  assumes "table_ok (rt_state rt)" and "rl_step ops ev rt = (ok, rt')"
  shows "rt_config rt' = rt_config rt \<and> rt_source_trust rt' = rt_source_trust rt \<and> table_ok (rt_state rt')"
proof (cases ev)
  case (Check now req princ path peer)
  with assms show ?thesis using check_frame [OF assms(1)] by (auto split: prod.splits)
next
  case (Selected now label q)
  then have "rt' = rt\<lparr>rt_state := snd (charge (rt_state rt) (''lambda-selected:'' @ label) [q] now True)\<rparr>"
    using assms(2) by (auto simp: check_selected_rate_limit_def split: prod.splits)
  then show ?thesis using charge_table_ok [OF assms(1)] by simp
qed

lemma rl_run_frame:
  assumes "table_ok (rt_state rt)" and "rl_run ops evs rt = (log, rt')"
  shows "rt_config rt' = rt_config rt \<and> rt_source_trust rt' = rt_source_trust rt \<and> table_ok (rt_state rt')"
  using assms
proof (induction evs arbitrary: rt log)
  case (Cons ev evs)
  obtain ok rt1 where step: "rl_step ops ev rt = (ok, rt1)" by fastforce
  obtain log1 rt2 where run: "rl_run ops evs rt1 = (log1, rt2)" by fastforce
  have "rt' = rt2" using Cons.prems(2) step run by simp
  with rl_step_frame [OF Cons.prems(1) step] Cons.IH [of rt1 log1] run show ?case by simp
qed simp

text \<open>
  What a run must keep to for the windows of a key to be meaningful: every event accounted
  under the key uses the same quotas in the same mode, and the clock stays in range.
\<close>

definition consistent_key :: "'n ipnet_ops \<Rightarrow> limit_config \<Rightarrow> 'n trusted_proxy_policy \<Rightarrow> string \<Rightarrow>
    limit_quota list \<Rightarrow> bool \<Rightarrow> rl_event list \<Rightarrow> bool" where
  "consistent_key ops config trust k qs allow evs \<longleftrightarrow>
     (\<forall>ev \<in> set evs. case event_call ops config trust ev of
        None \<Rightarrow> True
      | Some (k', qs', allow') \<Rightarrow>
          k' = k \<longrightarrow> qs' = qs \<and> allow' = allow \<and> event_time ev + max (max_window qs) 1 \<le> u64_max)"

lemma rl_step_windows:
  assumes "table_ok (rt_state rt)" and "rt_source_trust rt = Ok trust"
    and "history_ok qs (bt_get (rt_state rt) k) ts T" and "windows_ok allow qs ts"
    and "T \<le> event_time ev" and "consistent_key ops (rt_config rt) trust k qs allow [ev]"
    and step: "rl_step ops ev rt = (ok, rt1)"
  shows "history_ok qs (bt_get (rt_state rt1) k)
      (ts @ admitted_times ops (rt_config rt) trust k [(ev, ok)]) (event_time ev)
    \<and> windows_ok allow qs (ts @ admitted_times ops (rt_config rt) trust k [(ev, ok)])"
proof (cases "event_call ops (rt_config rt) trust ev")
  case None
  then have "rt1 = rt" using rl_step_no_call [OF None assms(2)] step by simp
  with None assms show ?thesis by (simp add: admitted_times_def history_ok_later)
next
  case (Some call)
  obtain k' qs' allow' where call: "call = (k', qs', allow')" by (cases call)
  obtain r st' where ch: "charge (rt_state rt) k' qs' (event_time ev) allow' = (r, st')" by fastforce
  have rt1: "ok = admitted r" "rt1 = rt\<lparr>rt_state := st'\<rparr>"
    using rl_step_call [OF _ assms(2) ch] Some call step by auto
  show ?thesis
  proof (cases "k' = k")
    case True
    with assms(6) Some call have own: "qs' = qs" "allow' = allow"
        "event_time ev + max (max_window qs) 1 \<le> u64_max"
      by (auto simp: consistent_key_def)
    have "charge (rt_state rt) k qs (event_time ev) allow = (r, st')" using ch True own by simp
    from charge_own_key [OF assms(1) this assms(3,5,4) own(3)] Some call True show ?thesis
      by (simp add: rt1 admitted_times_def split: if_splits)
  next
    case False
    with charge_other_key [OF assms(1) ch _ assms(3,5)] assms(4) Some call show ?thesis
      by (simp add: rt1 admitted_times_def)
  qed
qed

lemma rl_run_windows:
  assumes "table_ok (rt_state rt)" and "rt_source_trust rt = Ok trust" and "rt_config rt = config"
    and "history_ok qs (bt_get (rt_state rt) k) ts T" and "windows_ok allow qs ts"
    and "sorted (T # map event_time evs)" and "consistent_key ops config trust k qs allow evs"
    and "rl_run ops evs rt = (log, rt')"
  shows "history_ok qs (bt_get (rt_state rt') k) (ts @ admitted_times ops config trust k log)
      (last (T # map event_time evs))
    \<and> windows_ok allow qs (ts @ admitted_times ops config trust k log)"
  using assms
proof (induction evs arbitrary: rt log ts T)
  case Nil
  then show ?case by (simp add: admitted_times_def)
next
  case (Cons ev evs)
  obtain ok rt1 where step: "rl_step ops ev rt = (ok, rt1)" by fastforce
  obtain log1 where run: "rl_run ops evs rt1 = (log1, rt')" and log: "log = (ev, ok) # log1"
    using Cons.prems(8) step by (auto split: prod.splits)
  let ?ts = "ts @ admitted_times ops config trust k [(ev, ok)]"
  have split: "ts @ admitted_times ops config trust k log = ?ts @ admitted_times ops config trust k log1"
    by (simp add: log admitted_times_def)
  have one: "consistent_key ops (rt_config rt) trust k qs allow [ev]"
    and rest: "consistent_key ops config trust k qs allow evs"
    using Cons.prems(3,7) by (auto simp: consistent_key_def)
  have T: "T \<le> event_time ev" and mono: "sorted (event_time ev # map event_time evs)"
    using Cons.prems(6) by simp_all
  note h = rl_step_windows [OF Cons.prems(1,2,4,5) T one step, unfolded Cons.prems(3)]
  note f = rl_step_frame [OF Cons.prems(1) step]
  have "history_ok qs (bt_get (rt_state rt') k) (?ts @ admitted_times ops config trust k log1)
      (last (event_time ev # map event_time evs))
    \<and> windows_ok allow qs (?ts @ admitted_times ops config trust k log1)"
    using Cons.IH [of rt1 ?ts "event_time ev" log1] f h Cons.prems(2,3) mono rest run by simp
  moreover have "last (T # map event_time (ev # evs)) = last (event_time ev # map event_time evs)" by simp
  ultimately show ?case by (simp only: split)
qed

lemma runtime_new_simps [simp]:
  "rt_state (runtime_new ops config) = []" "rt_config (runtime_new ops config) = config"
  "rt_source_trust (runtime_new ops config) = source_trust ops config"
  by (simp_all add: runtime_new_def)

lemma history_ok_start: "history_ok qs (bt_get [] k) [] 0"
  by (simp add: history_ok_def bt_get_def)

lemma windows_ok_start: "windows_ok allow qs []"
  by (simp add: windows_ok_def window_count_def)

lemma rl_run_from_start:
  assumes "source_trust ops config = Ok trust" and "sorted (map event_time evs)"
    and "consistent_key ops config trust k qs allow evs"
    and "rl_run ops evs (runtime_new ops config) = (log, rt)"
  shows "history_ok qs (bt_get (rt_state rt) k) (admitted_times ops config trust k log)
      (last (0 # map event_time evs))
    \<and> windows_ok allow qs (admitted_times ops config trust k log)"
  using rl_run_windows [where rt = "runtime_new ops config" and T = 0 and ts = "[]"] assms
  by (simp add: history_ok_start windows_ok_start)

section \<open>Properties\<close>

text \<open>Whatever requests arrive, the table of counters holds at most 4096 buckets with keys of
  at most 4096 bytes, each key once: identities chosen by clients cannot grow it.\<close>

theorem rate_limit_table_bounded:
  "table_ok (rt_state (snd (rl_run ops evs (runtime_new ops config))))"
proof (cases "rl_run ops evs (runtime_new ops config)")
  case (Pair log rt)
  with rl_run_frame [OF _ Pair] show ?thesis by simp
qed


definition example_limit :: limit_config where
  "example_limit = limit_config_default\<lparr>lc_enabled := True, lc_key := Address,
     lc_rate_limit := [\<lparr>lq_limit = 2, lq_window_seconds = 60\<rparr>]\<rparr>"

definition example_check :: "nat \<Rightarrow> string \<Rightarrow> rl_event" where
  "example_check t path =
     Check t \<lparr>rh_headers = (\<lambda>_. []), rh_method = ''GET''\<rparr> None path (Some (V4 [198, 51, 100, 7]))"

definition example_events :: "rl_event list" where
  "example_events = map (\<lambda>t. example_check t ''/v1'') [1700000000, 1700000001, 1700000002]"

definition example_quota :: limit_quota where
  "example_quota = \<lparr>lq_limit = 2, lq_window_seconds = 60\<rparr>"

lemma example_run:
  "source_trust ipnet_example example_limit = Ok \<lparr>networks = []\<rparr>"
  "sorted (map event_time example_events)"
  "consistent_key ipnet_example example_limit \<lparr>networks = []\<rparr> ''address:198.51.100.7''
     [example_quota] False example_events"
  "map snd (fst (rl_run ipnet_example example_events (runtime_new ipnet_example example_limit)))
     = [True, True, False]"
  by code_simp+

lemma example_run_split:
  "rl_run ops evs (runtime_new ops config) =
     (fst (rl_run ops evs (runtime_new ops config)), snd (rl_run ops evs (runtime_new ops config)))"
  by simp


text \<open>The Retry-After of a refusal is exact.  When a key with a single non-zero quota is
  refused because the quota is used up, a later request of that key, with nothing accounted to
  it in between, is let through if and only if at least the announced number of seconds has
  passed.\<close>

theorem rate_limit_retry_after_exact:
  assumes "source_trust ops config = Ok trust" and "sorted (map event_time evs)"
    and "consistent_key ops config trust k [q] False evs"
    and "rl_run ops evs (runtime_new ops config) = (log, rt)" and "0 < lq_limit q"
    and call: "event_call ops config trust (Check now req princ path peer) = Some (k, [q], False)"
    and "last (0 # map event_time evs) \<le> now" and "now + max (lq_window_seconds q) 1 \<le> u64_max"
    and "check_rate_limit_with_source_ip ops now req rt princ path peer = (Err rej, rt')"
    and "rej \<noteq> capacity_rejection config"
  shows "\<exists>h. rej = exceeded_rejection config h \<and>
    (\<forall>ev. event_call ops config trust ev = Some (k, [q], False) \<longrightarrow> now \<le> event_time ev \<longrightarrow>
      (fst (rl_step ops ev rt') \<longleftrightarrow> now + retry_after_value h \<le> event_time ev))"
proof -
  have f: "rt_config rt = config" "rt_source_trust rt = Ok trust" "table_ok (rt_state rt)"
    using rl_run_frame [OF _ assms(4)] assms(1) by simp_all
  have h: "history_ok [q] (bt_get (rt_state rt) k) (admitted_times ops config trust k log)
        (last (0 # map event_time evs))"
      "windows_ok False [q] (admitted_times ops config trust k log)"
    using rl_run_from_start [OF assms(1-4)] by blast+
  obtain r st' where ch: "charge (rt_state rt) k [q] now False = (r, st')" by fastforce
  from check_call [OF call [folded f(1)] f(2) ch] assms(9,10) f(1)
  obtain q' c es where r: "r = Exceeded q' c es" "rt' = rt\<lparr>rt_state := st'\<rparr>"
      "rej = exceeded_rejection config (headers_for_quota q' c es now True)"
    by (cases r) (auto split: if_splits)
  have "fst (rl_step ops ev rt') \<longleftrightarrow>
      now + retry_after_value (headers_for_quota q' c es now True) \<le> event_time ev"
    if ev: "event_call ops config trust ev = Some (k, [q], False)" "now \<le> event_time ev" for ev
  proof -
    obtain r2 st2 where ch2: "charge st' k [q] (event_time ev) False = (r2, st2)" by fastforce
    have "rl_step ops ev rt' = (admitted r2, rt'\<lparr>rt_state := st2\<rparr>)"
      using rl_step_call [of ops rt' trust ev k "[q]" False r2 st2] ev(1) f ch2 by (simp add: r(2))
    with charge_retry [OF f(3) h(1) assms(7) h(2) assms(8,5) ch [unfolded r(1)] ev(2)] ch2
    show ?thesis by simp
  qed
  with r(3) show ?thesis by blast
qed

definition example_refused :: "handler_rejection" where
  "example_refused = exceeded_rejection example_limit
     \<lparr>rl_limit = 2, rl_remaining = 0, rl_reset = 57, rl_retry_after = Some 57\<rparr>"

lemma example_refusal:
  "fst (check_rate_limit_with_source_ip ipnet_example 1700000003
      \<lparr>rh_headers = (\<lambda>_. []), rh_method = ''GET''\<rparr>
      (snd (rl_run ipnet_example example_events (runtime_new ipnet_example example_limit)))
      None ''/v1'' (Some (V4 [198, 51, 100, 7]))) = Err example_refused"
  "event_call ipnet_example example_limit \<lparr>networks = []\<rparr> (example_check 1700000003 ''/v1'')
     = Some (''address:198.51.100.7'', [example_quota], False)"
  "last (0 # map event_time example_events) \<le> 1700000003"
  "1700000003 + max (lq_window_seconds example_quota) 1 \<le> u64_max" "0 < lq_limit example_quota"
  "rj_message example_refused \<noteq> rj_message (capacity_rejection example_limit)"
  by code_simp+

theorem rate_limit_retry_after_exact_witness:
  "\<exists>h. example_refused = exceeded_rejection example_limit h"
proof -
  let ?rt = "snd (rl_run ipnet_example example_events (runtime_new ipnet_example example_limit))"
  obtain rt' where "check_rate_limit_with_source_ip ipnet_example 1700000003
      \<lparr>rh_headers = (\<lambda>_. []), rh_method = ''GET''\<rparr> ?rt None ''/v1'' (Some (V4 [198, 51, 100, 7]))
      = (Err example_refused, rt')"
    using example_refusal(1) by (metis prod.collapse)
  moreover have "example_refused \<noteq> capacity_rejection example_limit" using example_refusal(6) by metis
  ultimately show ?thesis
    using rate_limit_retry_after_exact [OF example_run(1-3) example_run_split example_refusal(5)
      example_refusal(2) [unfolded example_check_def] example_refusal(3,4)] by blast
qed



end
