(* ===== verification/Replay_Store.thy ===== *)
theory Replay_Store
  imports Rust_Strings
begin

text \<open>
  Replay protection of signed webhooks, \<open>frameworks/light-pingora/src/hmac_replay.rs\<close>: the
  replay identity, the in-process store and the Redis-backed store.  The contract of the trait
  \<open>WebhookReplayStore\<close> is the locale \<open>replay_store\<close>; the in-process store is shown to meet
  it.  SHA-256, the UUID generator and the Redis server are not part of the repository: a hash
  function, the fresh owner token and the server's answers are arguments.
\<close>

section \<open>Replay identities\<close>

record webhook_replay_key =
  digest :: string

datatype replay_store_error = Capacity | Unavailable

datatype replay_admin_error =
    Invalid string
  | UnknownProfile
  | ReplayDisabled
  | Store replay_store_error

definition be_bytes_u32 :: "nat \<Rightarrow> string" where
  "be_bytes_u32 n = map char_of [n div 16777216 mod 256, n div 65536 mod 256, n div 256 mod 256, n mod 256]"

definition digest_component :: "string \<Rightarrow> (replay_admin_error, string) result" where
  "digest_component v =
     (if length v < 2 ^ 32 then Ok (be_bytes_u32 (length v) @ v)
      else Err (Invalid ''replay identity component is too large''))"

definition replay_key_new :: "(string \<Rightarrow> string) \<Rightarrow> string \<Rightarrow> string \<Rightarrow> string \<Rightarrow>
    (replay_admin_error, webhook_replay_key) result" where
  "replay_key_new sha256_hex profile selector delivery_id =
     rtry (try_each (\<lambda>(name, v).
         if trim v = [] then Err (Invalid (name @ '' must be a non-empty string'')) else Ok ())
       [(''profile'', profile), (''selector'', selector), (''deliveryId'', delivery_id)]) (\<lambda>_.
     rtry (try_map digest_component [profile, selector, delivery_id]) (\<lambda>parts.
     Ok \<lparr>digest = sha256_hex (concat parts)\<rparr>))"

section \<open>Store operations\<close>

record replay_reservation =
  rr_key :: webhook_replay_key
  rr_owner_token :: string

datatype reserve_outcome = Reserved replay_reservation | Duplicate

datatype replay_store_scope = Local | Distributed

definition scope_as_str :: "replay_store_scope \<Rightarrow> string" where
  "scope_as_str s = (case s of Local \<Rightarrow> ''local'' | Distributed \<Rightarrow> ''distributed'')"

record replay_removal_outcome =
  rm_removed :: bool
  rm_scope :: replay_store_scope

text \<open>\<open>u64::try_from(retention.as_millis()).ok().filter(|v| *v > 0)\<close>.\<close>

definition retention_millis :: "nat \<Rightarrow> (replay_store_error, nat) result" where
  "retention_millis millis = (if millis \<le> u64_max \<and> 0 < millis then Ok millis else Err Unavailable)"

subsection \<open>The in-process store\<close>

record local_entry =
  le_owner_token :: string
  le_expires_at_millis :: nat

record local_store =
  ls_max_entries :: nat
  ls_entries :: "(string, local_entry) btree"

definition local_new :: "nat \<Rightarrow> local_store" where
  "local_new max_entries = \<lparr>ls_max_entries = max_entries, ls_entries = []\<rparr>"

definition purge_expired :: "nat \<Rightarrow> (string, local_entry) btree \<Rightarrow> (string, local_entry) btree" where
  "purge_expired now es = bt_retain (\<lambda>_ e. le_expires_at_millis e > now) es"

definition live_entry :: "nat \<Rightarrow> local_store \<Rightarrow> string \<Rightarrow> local_entry option" where
  "live_entry now st k =
     (case bt_get (ls_entries st) k of
        Some e \<Rightarrow> if le_expires_at_millis e > now then Some e else None
      | None \<Rightarrow> None)"

definition local_reserve :: "nat \<Rightarrow> string \<Rightarrow> webhook_replay_key \<Rightarrow> nat \<Rightarrow> local_store \<Rightarrow>
    (replay_store_error, reserve_outcome) result \<times> local_store" where
  "local_reserve now token key retention st =
     (case retention_millis retention of
        Inl e \<Rightarrow> (Err e, st)
      | Inr millis \<Rightarrow>
          if live_entry now st (digest key) \<noteq> None then (Ok Duplicate, st)
          else
            let es = bt_remove (digest key) (ls_entries st);
                full = (length es \<ge> ls_max_entries st);
                es' = (if full then purge_expired now es else es)
            in if full \<and> length es' \<ge> ls_max_entries st
               then (Err Capacity, st\<lparr>ls_entries := es'\<rparr>)
               else (Ok (Reserved \<lparr>rr_key = key, rr_owner_token = token\<rparr>),
                     st\<lparr>ls_entries := bt_insert (digest key)
                          \<lparr>le_owner_token = token, le_expires_at_millis = sat_add now millis\<rparr> es'\<rparr>))"

definition local_release :: "replay_reservation \<Rightarrow> local_store \<Rightarrow> local_store" where
  "local_release r st =
     (case bt_get (ls_entries st) (digest (rr_key r)) of
        Some e \<Rightarrow>
          if le_owner_token e = rr_owner_token r
          then st\<lparr>ls_entries := bt_remove (digest (rr_key r)) (ls_entries st)\<rparr> else st
      | None \<Rightarrow> st)"

definition local_force_remove :: "webhook_replay_key \<Rightarrow> local_store \<Rightarrow> bool \<times> local_store" where
  "local_force_remove key st =
     (bt_get (ls_entries st) (digest key) \<noteq> None,
      st\<lparr>ls_entries := bt_remove (digest key) (ls_entries st)\<rparr>)"

text \<open>\<open>local_entries\<close> and \<open>RuntimeCache::len\<close>.\<close>

definition local_entries :: "nat \<Rightarrow> local_store \<Rightarrow> nat \<times> local_store" where
  "local_entries now st =
     (let es = purge_expired now (ls_entries st) in (length es, st\<lparr>ls_entries := es\<rparr>))"

subsection \<open>The Redis-backed store\<close>

text \<open>
  The server's answers to \<open>SET key token NX PX millis\<close>, to the compare-and-delete script and
  to \<open>DEL\<close>, each with the server state after it; an error stands for a failed or timed-out
  connection or command.
\<close>

record 'c redis_server =
  rd_connect :: "'c \<Rightarrow> (unit, unit) result \<times> 'c"
  rd_set_nx_px :: "'c \<Rightarrow> string \<Rightarrow> string \<Rightarrow> nat \<Rightarrow> (unit, string option) result \<times> 'c"
  rd_compare_and_delete :: "'c \<Rightarrow> string \<Rightarrow> string \<Rightarrow> (unit, int) result \<times> 'c"
  rd_del :: "'c \<Rightarrow> string \<Rightarrow> (unit, nat) result \<times> 'c"

definition storage_key :: "string \<Rightarrow> webhook_replay_key \<Rightarrow> string" where
  "storage_key key_prefix key = key_prefix @ digest key"

definition redis_reserve :: "'c redis_server \<Rightarrow> string \<Rightarrow> string \<Rightarrow> webhook_replay_key \<Rightarrow> nat \<Rightarrow> 'c \<Rightarrow>
    (replay_store_error, reserve_outcome) result \<times> 'c" where
  "redis_reserve rd key_prefix token key retention c =
     (case retention_millis retention of
        Inl e \<Rightarrow> (Err e, c)
      | Inr millis \<Rightarrow>
          (case rd_connect rd c of
             (Inl _, c1) \<Rightarrow> (Err Unavailable, c1)
           | (Inr _, c1) \<Rightarrow>
               (case rd_set_nx_px rd c1 (storage_key key_prefix key) token millis of
                  (Inl _, c2) \<Rightarrow> (Err Unavailable, c2)
                | (Inr response, c2) \<Rightarrow>
                    (Ok (if response = Some ''OK''
                         then Reserved \<lparr>rr_key = key, rr_owner_token = token\<rparr> else Duplicate), c2))))"

definition redis_release :: "'c redis_server \<Rightarrow> string \<Rightarrow> replay_reservation \<Rightarrow> 'c \<Rightarrow>
    (replay_store_error, unit) result \<times> 'c" where
  "redis_release rd key_prefix r c =
     (case rd_connect rd c of
        (Inl _, c1) \<Rightarrow> (Err Unavailable, c1)
      | (Inr _, c1) \<Rightarrow>
          (case rd_compare_and_delete rd c1 (storage_key key_prefix (rr_key r)) (rr_owner_token r) of
             (Inl _, c2) \<Rightarrow> (Err Unavailable, c2)
           | (Inr _, c2) \<Rightarrow> (Ok (), c2)))"

definition redis_force_remove :: "'c redis_server \<Rightarrow> string \<Rightarrow> webhook_replay_key \<Rightarrow> 'c \<Rightarrow>
    (replay_store_error, bool) result \<times> 'c" where
  "redis_force_remove rd key_prefix key c =
     (case rd_connect rd c of
        (Inl _, c1) \<Rightarrow> (Err Unavailable, c1)
      | (Inr _, c1) \<Rightarrow>
          (case rd_del rd c1 (storage_key key_prefix key) of
             (Inl _, c2) \<Rightarrow> (Err Unavailable, c2)
           | (Inr removed, c2) \<Rightarrow> (Ok (removed > 0), c2)))"

section \<open>The contract of a replay store\<close>

text \<open>
  \<open>held s n k\<close> is the owner of the reservation of \<open>k\<close> that is live at time \<open>n\<close>.  The clock of
  a process store is monotone, so what is asked of an operation at time \<open>now\<close> concerns the
  instants from \<open>now\<close> on.
\<close>

locale replay_store =
  fixes reserve :: "nat \<Rightarrow> string \<Rightarrow> webhook_replay_key \<Rightarrow> nat \<Rightarrow> 's \<Rightarrow>
      (replay_store_error, reserve_outcome) result \<times> 's"
    and release :: "replay_reservation \<Rightarrow> 's \<Rightarrow> 's"
    and force_remove :: "webhook_replay_key \<Rightarrow> 's \<Rightarrow> bool \<times> 's"
    and sample :: "nat \<Rightarrow> 's \<Rightarrow> nat \<times> 's"
    and held :: "'s \<Rightarrow> nat \<Rightarrow> string \<Rightarrow> string option"
    and inv :: "'s \<Rightarrow> bool"
  assumes reserve_held: "inv s \<Longrightarrow> held s now (digest k) \<noteq> None \<Longrightarrow> retention_millis r = Ok m
      \<Longrightarrow> reserve now t k r s = (Ok Duplicate, s)"
    and reserve_grants: "inv s \<Longrightarrow> reserve now t k r s = (Ok (Reserved rsv), s')
      \<Longrightarrow> rsv = \<lparr>rr_key = k, rr_owner_token = t\<rparr> \<and> held s now (digest k) = None
        \<and> (\<forall>n < sat_add now r. held s' n (digest k) = Some t)"
    and reserve_keeps: "inv s \<Longrightarrow> now \<le> n \<Longrightarrow> held s n k' = Some w
      \<Longrightarrow> held (snd (reserve now t k r s)) n k' = Some w"
    and release_keeps: "inv s \<Longrightarrow> held s n k' = Some w
      \<Longrightarrow> (digest (rr_key rsv), rr_owner_token rsv) \<noteq> (k', w)
      \<Longrightarrow> held (release rsv s) n k' = Some w"
    and force_keeps: "inv s \<Longrightarrow> held s n k' = Some w \<Longrightarrow> digest k \<noteq> k'
      \<Longrightarrow> held (snd (force_remove k s)) n k' = Some w"
    and sample_keeps: "inv s \<Longrightarrow> now \<le> n \<Longrightarrow> held s n k' = Some w
      \<Longrightarrow> held (snd (sample now s)) n k' = Some w"
    and inv_reserve: "inv s \<Longrightarrow> inv (snd (reserve now t k r s))"
    and inv_release: "inv s \<Longrightarrow> inv (release rsv s)"
    and inv_force: "inv s \<Longrightarrow> inv (snd (force_remove k s))"
    and inv_sample: "inv s \<Longrightarrow> inv (snd (sample now s))"

text \<open>Calls of a store, at the time its clock shows.\<close>

datatype replay_call =
    CReserve nat string webhook_replay_key nat
  | CRelease nat replay_reservation
  | CForceRemove nat webhook_replay_key
  | CSample nat

fun call_time :: "replay_call \<Rightarrow> nat" where
  "call_time (CReserve n _ _ _) = n"
| "call_time (CRelease n _) = n"
| "call_time (CForceRemove n _) = n"
| "call_time (CSample n) = n"

text \<open>The calls that may end the reservation \<open>w\<close> of a key: its owner's release, and a removal.\<close>

fun frees :: "string \<Rightarrow> string \<Rightarrow> replay_call \<Rightarrow> bool" where
  "frees k w (CReserve _ _ _ _) \<longleftrightarrow> False"
| "frees k w (CRelease _ rsv) \<longleftrightarrow> digest (rr_key rsv) = k \<and> rr_owner_token rsv = w"
| "frees k w (CForceRemove _ key) \<longleftrightarrow> digest key = k"
| "frees k w (CSample _) \<longleftrightarrow> False"

fun replay_step where
  "replay_step rsv rel frc smp (CReserve now t k r) s = snd (rsv now t k r s)"
| "replay_step rsv rel frc smp (CRelease now rr) s = rel rr s"
| "replay_step rsv rel frc smp (CForceRemove now k) s = snd (frc k s)"
| "replay_step rsv rel frc smp (CSample now) s = snd (smp now s)"

definition replay_run where
  "replay_run rsv rel frc smp cs s = fold (replay_step rsv rel frc smp) cs s"

context replay_store
begin

lemma inv_step: "inv s \<Longrightarrow> inv (replay_step reserve release force_remove sample c s)"
  by (cases c) (simp_all add: inv_reserve inv_release inv_force inv_sample)

lemma inv_run: "inv s \<Longrightarrow> inv (replay_run reserve release force_remove sample cs s)"
  by (induction cs arbitrary: s) (simp_all add: replay_run_def inv_step)

lemma step_keeps:
  "inv s \<Longrightarrow> held s n k = Some w \<Longrightarrow> call_time c \<le> n \<Longrightarrow> \<not> frees k w c \<Longrightarrow>
     held (replay_step reserve release force_remove sample c s) n k = Some w"
  by (cases c) (auto simp: reserve_keeps release_keeps force_keeps sample_keeps)

lemma run_keeps:
  "inv s \<Longrightarrow> held s n k = Some w \<Longrightarrow> \<forall>c \<in> set cs. call_time c \<le> n \<and> \<not> frees k w c \<Longrightarrow>
     held (replay_run reserve release force_remove sample cs s) n k = Some w"
  by (induction cs arbitrary: s) (simp_all add: replay_run_def inv_step step_keeps)

text \<open>
  No replay: once a delivery is reserved, every further attempt to reserve it is a duplicate
  until the retention has passed, whatever else happens in between, unless the reservation is
  given back by its owner or removed by an administrator.
\<close>

lemma no_replay:
  assumes "inv s" and "reserve now t k r s = (Ok (Reserved rsv), s')"
    and "\<forall>c \<in> set cs. call_time c \<le> now' \<and> \<not> frees (digest k) t c"
    and "now' < sat_add now r" and "digest k' = digest k" and "retention_millis r' = Ok m"
  shows "fst (reserve now' t' k' r' (replay_run reserve release force_remove sample cs s')) = Ok Duplicate"
proof -
  have "held s' now' (digest k) = Some t" using reserve_grants [OF assms(1,2)] assms(4) by blast
  moreover have "inv s'" using inv_reserve [OF assms(1), of now t k r] assms(2) by simp
  ultimately have "held (replay_run reserve release force_remove sample cs s') now' (digest k) = Some t"
    using assms(3) by (blast intro: run_keeps)
  moreover have "inv (replay_run reserve release force_remove sample cs s')"
    using \<open>inv s'\<close> by (rule inv_run)
  ultimately show ?thesis using reserve_held [of _ now' k' r' m t'] assms(5,6) by simp
qed

end

section \<open>The in-process store meets the contract\<close>

definition local_held :: "local_store \<Rightarrow> nat \<Rightarrow> string \<Rightarrow> string option" where
  "local_held st n k = map_option le_owner_token (live_entry n st k)"

definition local_ok :: "local_store \<Rightarrow> bool" where
  "local_ok st \<longleftrightarrow> bt_ok (ls_entries st) \<and> length (ls_entries st) \<le> ls_max_entries st"

lemma local_held_Some_iff:
  "local_held st n k = Some w \<longleftrightarrow>
     (\<exists>e. bt_get (ls_entries st) k = Some e \<and> n < le_expires_at_millis e \<and> le_owner_token e = w)"
  by (auto simp: local_held_def live_entry_def split: option.splits)

lemma retention_millis_Ok: "retention_millis r = Ok m \<Longrightarrow> m = r"
  by (simp add: retention_millis_def split: if_splits)

text \<open>
  The entries left when room is made for a reservation: those of the other keys that are live.
\<close>

definition make_room :: "nat \<Rightarrow> string \<Rightarrow> local_store \<Rightarrow> (string, local_entry) btree" where
  "make_room now k st =
     (let es = bt_remove k (ls_entries st)
      in if length es \<ge> ls_max_entries st then purge_expired now es else es)"

lemma make_room_ok: "bt_ok (ls_entries st) \<Longrightarrow> bt_ok (make_room now k st)"
  by (simp add: make_room_def Let_def purge_expired_def bt.inv_del bt.inv_retain)

lemma make_room_keeps:
  assumes "bt_ok (ls_entries st)" and "bt_get (ls_entries st) k' = Some e"
    and "now < le_expires_at_millis e" and "k' \<noteq> k"
  shows "bt_get (make_room now k st) k' = Some e"
  using assms bt.retain_keeps [of "bt_remove k (ls_entries st)" k' e]
  by (simp add: make_room_def Let_def purge_expired_def bt.inv_del bt.get_del)

lemma length_make_room: "bt_ok (ls_entries st) \<Longrightarrow> length (make_room now k st) \<le> length (ls_entries st)"
  unfolding make_room_def purge_expired_def Let_def
  using bt.size_del [of "ls_entries st" k] bt.inv_del [of "ls_entries st" k]
    bt.size_retain [of "bt_remove k (ls_entries st)" "\<lambda>_ e. now < le_expires_at_millis e"]
  by simp

lemma local_reserve_cases:
  assumes "retention_millis r = Ok m" and "live_entry now st (digest k) = None"
  shows "local_reserve now t k r st =
    (if length (make_room now (digest k) st) \<ge> ls_max_entries st
     then (Err Capacity, st\<lparr>ls_entries := make_room now (digest k) st\<rparr>)
     else (Ok (Reserved \<lparr>rr_key = k, rr_owner_token = t\<rparr>),
           st\<lparr>ls_entries := bt_insert (digest k)
             \<lparr>le_owner_token = t, le_expires_at_millis = sat_add now m\<rparr> (make_room now (digest k) st)\<rparr>))"
  using assms by (auto simp: local_reserve_def make_room_def Let_def)

lemma local_reserve_ok:
  assumes "local_ok st" shows "local_ok (snd (local_reserve now t k r st))"
proof (cases "retention_millis r")
  case (Inr m)
  show ?thesis
  proof (cases "live_entry now st (digest k)")
    case None
    have "bt_ok (ls_entries st)" "length (ls_entries st) \<le> ls_max_entries st"
      using assms by (simp_all add: local_ok_def)
    moreover from this have "length (make_room now (digest k) st) \<le> ls_max_entries st"
      using length_make_room [of st now "digest k"] by linarith
    ultimately show ?thesis
      using bt.size_put_bounded [of "make_room now (digest k) st" "ls_max_entries st" "digest k"]
      by (simp add: local_reserve_cases [OF Inr None] local_ok_def make_room_ok bt.inv_put)
  qed (simp add: local_reserve_def Inr assms)
qed (simp add: local_reserve_def assms)

lemma local_reserve_keeps:
  assumes "local_ok st" and "now \<le> n" and "local_held st n k' = Some w"
  shows "local_held (snd (local_reserve now t k r st)) n k' = Some w"
proof -
  obtain e where e: "bt_get (ls_entries st) k' = Some e" "n < le_expires_at_millis e" "le_owner_token e = w"
    using assms(3) by (auto simp: local_held_Some_iff)
  show ?thesis
  proof (cases "retention_millis r")
    case (Inr m)
    show ?thesis
    proof (cases "live_entry now st (digest k)")
      case None
      with e(1,2) assms(2) have "k' \<noteq> digest k" by (auto simp: live_entry_def)
      moreover from this have "bt_get (make_room now (digest k) st) k' = Some e"
        using e assms(1,2) by (intro make_room_keeps) (auto simp: local_ok_def)
      ultimately show ?thesis using e
        by (simp add: local_reserve_cases [OF Inr None] local_held_Some_iff bt_get_insert)
    qed (simp add: local_reserve_def Inr assms)
  qed (simp add: local_reserve_def assms)
qed

lemma local_reserve_grants:
  assumes "local_reserve now t k r st = (Ok (Reserved rsv), st')"
  shows "rsv = \<lparr>rr_key = k, rr_owner_token = t\<rparr> \<and> local_held st now (digest k) = None
    \<and> (\<forall>n < sat_add now r. local_held st' n (digest k) = Some t)"
proof -
  obtain m where m: "retention_millis r = Ok m"
    using assms by (auto simp: local_reserve_def split: sum.splits)
  have none: "live_entry now st (digest k) = None"
    using assms m by (auto simp: local_reserve_def split: if_splits)
  have st': "rsv = \<lparr>rr_key = k, rr_owner_token = t\<rparr>"
      "ls_entries st' = bt_insert (digest k)
         \<lparr>le_owner_token = t, le_expires_at_millis = sat_add now m\<rparr> (make_room now (digest k) st)"
    using assms by (auto simp: local_reserve_cases [OF m none] split: if_splits)
  then show ?thesis using none retention_millis_Ok [OF m]
    by (simp add: local_held_def live_entry_def bt_get_insert)
qed

interpretation local: replay_store local_reserve local_release local_force_remove local_entries
  local_held local_ok
proof unfold_locales
  fix st :: local_store and now r m t and k :: webhook_replay_key
  assume "local_held st now (digest k) \<noteq> None" "retention_millis r = Ok m"
  then show "local_reserve now t k r st = (Ok Duplicate, st)"
    by (simp add: local_reserve_def local_held_def)
next
  fix st :: local_store and n k' w and rsv :: replay_reservation
  assume "local_ok st" "local_held st n k' = Some w"
    "(digest (rr_key rsv), rr_owner_token rsv) \<noteq> (k', w)"
  then show "local_held (local_release rsv st) n k' = Some w"
    by (auto simp: local_held_Some_iff local_release_def bt_get_remove split: option.splits)
next
  fix st :: local_store and n k' w and k :: webhook_replay_key
  assume "local_ok st" "local_held st n k' = Some w" "digest k \<noteq> k'"
  then show "local_held (snd (local_force_remove k st)) n k' = Some w"
    by (auto simp: local_held_Some_iff local_force_remove_def bt_get_remove)
next
  fix st :: local_store and now n k' w
  assume "local_ok st" "now \<le> n" "local_held st n k' = Some w"
  then show "local_held (snd (local_entries now st)) n k' = Some w"
    by (auto simp: local_held_Some_iff local_entries_def purge_expired_def local_ok_def
        Let_def bt.retain_keeps)
next
  fix st :: local_store and rsv :: replay_reservation assume "local_ok st"
  then show "local_ok (local_release rsv st)"
    using bt.size_del [of "ls_entries st" "digest (rr_key rsv)"]
    by (auto simp: local_ok_def local_release_def bt.inv_del split: option.splits)
next
  fix st :: local_store and k :: webhook_replay_key assume "local_ok st"
  then show "local_ok (snd (local_force_remove k st))"
    using bt.size_del [of "ls_entries st" "digest k"]
    by (auto simp: local_ok_def local_force_remove_def bt.inv_del)
next
  fix st :: local_store and now assume "local_ok st"
  then show "local_ok (snd (local_entries now st))"
    using bt.size_retain [of "ls_entries st" "\<lambda>_ e. now < le_expires_at_millis e"]
    by (auto simp: local_ok_def local_entries_def purge_expired_def Let_def bt.inv_retain)
qed (rule local_reserve_grants local_reserve_keeps local_reserve_ok, assumption+)+

section \<open>Properties\<close>

text \<open>C11: No replay.  After a delivery has been reserved in a reachable in-process store, every
  further attempt to reserve the same identity before the retention has passed answers
  Duplicate, whatever calls happen in between, unless the owner released the reservation or an
  administrator removed it.\<close>

theorem local_store_no_replay:
  assumes "s = replay_run local_reserve local_release local_force_remove local_entries history (local_new cap)"
    and "local_reserve now t k r s = (Ok (Reserved rsv), s')"
    and "\<forall>c \<in> set cs. call_time c \<le> now' \<and> \<not> frees (digest k) t c"
    and "now' < sat_add now r" and "0 < r'" and "r' \<le> u64_max"
  shows "fst (local_reserve now' t' k r'
      (replay_run local_reserve local_release local_force_remove local_entries cs s')) = Ok Duplicate"
proof (rule local.no_replay [OF _ assms(2-4) refl])
  show "local_ok s" unfolding assms(1)
    by (rule local.inv_run) (simp add: local_ok_def local_new_def)
  show "retention_millis r' = Ok r'" using assms(5,6) by (simp add: retention_millis_def)
qed

definition example_delivery :: webhook_replay_key where
  "example_delivery = \<lparr>digest = ''d1''\<rparr>"

definition example_reserved :: local_store where
  "example_reserved = snd (local_reserve 10 ''t1'' example_delivery 1000 (local_new 1))"

lemma example_reserve:
  "local_reserve 10 ''t1'' example_delivery 1000
     (replay_run local_reserve local_release local_force_remove local_entries [] (local_new 1))
   = (Ok (Reserved \<lparr>rr_key = example_delivery, rr_owner_token = ''t1''\<rparr>), example_reserved)"
  by code_simp

theorem local_store_no_replay_witness:
  "fst (local_reserve 900 ''t3'' example_delivery 5
      (replay_run local_reserve local_release local_force_remove local_entries
        [CReserve 20 ''t2'' \<lparr>digest = ''d2''\<rparr> 50,
         CRelease 30 \<lparr>rr_key = example_delivery, rr_owner_token = ''t9''\<rparr>, CSample 800]
        example_reserved)) = Ok Duplicate"
  by (rule local_store_no_replay [OF refl example_reserve])
    (simp_all add: example_delivery_def sat_add_def u64_max_def)

lemma local_step_max:
  "ls_max_entries (replay_step local_reserve local_release local_force_remove local_entries c st)
     = ls_max_entries st"
  by (cases c)
    (auto simp: local_reserve_def local_release_def local_force_remove_def local_entries_def Let_def
      split: sum.splits option.splits)

lemma local_run_max:
  "ls_max_entries (replay_run local_reserve local_release local_force_remove local_entries cs st)
     = ls_max_entries st"
  by (induction cs arbitrary: st) (simp_all add: replay_run_def local_step_max)

text \<open>The in-process store never holds more entries than its configured capacity, in any
  sequence of calls.\<close>

theorem local_store_capacity:
  "length (ls_entries (replay_run local_reserve local_release local_force_remove local_entries cs (local_new cap)))
     \<le> cap"
proof -
  have "local_ok (local_new cap)" by (simp add: local_ok_def local_new_def)
  from local.inv_run [OF this, of cs] show ?thesis
    by (simp add: local_ok_def local_run_max) (simp add: local_new_def)
qed

definition hash_input :: "string \<Rightarrow> string \<Rightarrow> string \<Rightarrow> string" where
  "hash_input profile selector delivery_id =
     concat (map (\<lambda>v. be_bytes_u32 (length v) @ v) [profile, selector, delivery_id])"

lemma replay_key_new_Ok:
  "replay_key_new h p s d = Ok k \<Longrightarrow>
     digest k = h (hash_input p s d) \<and> length p < 2 ^ 32 \<and> length s < 2 ^ 32 \<and> length d < 2 ^ 32"
  by (auto simp: replay_key_new_def rtry_eq_Ok_iff digest_component_def hash_input_def
      split: if_splits)

lemma u32_digits:
  assumes "(n :: nat) < 2 ^ 32"
  shows "n = ((n div 16777216 mod 256 * 256 + n div 65536 mod 256) * 256 + n div 256 mod 256) * 256 + n mod 256"
proof -
  have step: "m div 256 * 256 + m mod 256 = m" for m :: nat by simp
  have "n div 65536 = n div 256 div 256" "n div 16777216 = n div 256 div 256 div 256"
    by (simp_all add: div_mult2_eq [symmetric])
  moreover have "n div 256 div 256 div 256 < 256"
    using assms by (simp add: div_mult2_eq [symmetric] div_less_iff_less_mult)
  ultimately show ?thesis by (simp add: step)
qed

lemma be_bytes_u32_inject:
  assumes "be_bytes_u32 m = be_bytes_u32 n" and "m < 2 ^ 32" and "n < 2 ^ 32"
  shows "m = n"
proof -
  have "map (of_char :: char \<Rightarrow> nat) (be_bytes_u32 m) = map of_char (be_bytes_u32 n)"
    using assms(1) by simp
  then have digits: "m div 16777216 mod 256 = n div 16777216 mod 256"
      "m div 65536 mod 256 = n div 65536 mod 256" "m div 256 mod 256 = n div 256 mod 256"
      "m mod 256 = n mod 256"
    by (simp_all add: be_bytes_u32_def)
  show ?thesis
    by (rule trans [OF u32_digits [OF assms(2)]], unfold digits, rule u32_digits [OF assms(3), symmetric])
qed

lemma prefixed_inject:
  assumes "be_bytes_u32 (length a) @ a @ x = be_bytes_u32 (length b) @ b @ y"
    and "length a < 2 ^ 32" and "length b < 2 ^ 32"
  shows "a = b \<and> x = y"
proof -
  have "be_bytes_u32 (length a) = be_bytes_u32 (length b)" "a @ x = b @ y"
    using assms(1) by (auto simp: be_bytes_u32_def)
  then show ?thesis using be_bytes_u32_inject [OF _ assms(2,3)] by simp
qed

lemma hash_input_inject:
  assumes "hash_input p s d = hash_input p' s' d'"
    and "length p < 2 ^ 32" "length s < 2 ^ 32" "length d < 2 ^ 32"
    and "length p' < 2 ^ 32" "length s' < 2 ^ 32" "length d' < 2 ^ 32"
  shows "p = p' \<and> s = s' \<and> d = d'"
proof -
  have p: "p = p' \<and> be_bytes_u32 (length s) @ s @ (be_bytes_u32 (length d) @ d)
      = be_bytes_u32 (length s') @ s' @ (be_bytes_u32 (length d') @ d')"
    using assms by (intro prefixed_inject) (simp_all add: hash_input_def)
  with assms(3,6) have s: "s = s' \<and> be_bytes_u32 (length d) @ d = be_bytes_u32 (length d') @ d'"
    by (intro prefixed_inject) simp_all
  with assms(4,7) have "d = d'" using prefixed_inject [of d "[]" d' "[]"] by simp
  with p s show ?thesis by simp
qed

text \<open>Replay identities do not collide by construction: when two accepted triples of
  profile, selector and delivery id get the same key, they are the same triple, or the hash
  function maps their two different length-prefixed encodings to the same digest.\<close>

theorem replay_key_injective:
  assumes "replay_key_new h p s d = Ok k" and "replay_key_new h p' s' d' = Ok k"
  shows "(p, s, d) = (p', s', d') \<or>
    hash_input p s d \<noteq> hash_input p' s' d' \<and> h (hash_input p s d) = h (hash_input p' s' d')"
  using replay_key_new_Ok [OF assms(1)] replay_key_new_Ok [OF assms(2)]
    hash_input_inject [of p s d p' s' d'] by simp blast

theorem replay_key_injective_witness:
  "\<exists>k. replay_key_new (\<lambda>x. x) ''github'' ''repo'' ''42'' = Ok k
    \<and> ((''github'', ''repo'', ''42'') = (''github'', ''repo'', ''42'') \<or>
      hash_input ''github'' ''repo'' ''42'' \<noteq> hash_input ''github'' ''repo'' ''42''
      \<and> hash_input ''github'' ''repo'' ''42'' = hash_input ''github'' ''repo'' ''42'')"
proof -
  have "is_ok (replay_key_new (\<lambda>x. x) ''github'' ''repo'' ''42'')" by code_simp
  then obtain k where k: "replay_key_new (\<lambda>x. x) ''github'' ''repo'' ''42'' = Ok k"
    by (auto simp: is_ok_iff)
  with replay_key_injective [OF k k] show ?thesis by blast
qed

end
