(* ===== verification/Gateway_Handlers.thy ===== *)
theory Gateway_Handlers
  imports Gateway_Config Net_Addr
begin

text \<open>
  Header mutation, correlation ids, direct registry lookup and CORS of
  \<open>crates/gateway-policy/src\<close> (\<open>header.rs\<close>, \<open>correlation.rs\<close>, \<open>direct_registry.rs\<close>,
  \<open>cors.rs\<close>, \<open>java_cors.rs\<close>).  The \<open>url\<close> crate is not part of the repository: what
  \<open>Url::parse\<close> reports of an origin is an argument.
\<close>

section \<open>Header mutation\<close>

record header_mutation =
  hm_remove :: "string list"
  hm_update :: "(string, string) btree"

record header_path_prefix_config =
  hp_request :: header_mutation
  hp_response :: header_mutation

record header_config =
  hc_enabled :: bool
  hc_request :: header_mutation
  hc_response :: header_mutation
  hc_path_prefix_header :: "(string, header_path_prefix_config) btree"

definition apply_mutation :: "('w, 'e) header_writer \<Rightarrow> 'w \<Rightarrow> header_mutation \<Rightarrow> 'e option \<times> 'w" where
  "apply_mutation hw w m = write_all hw (fold (\<lambda>name w. hw_remove hw w name) (hm_remove m) w) (hm_update m)"

definition apply_header_with :: "(header_config \<Rightarrow> header_mutation) \<Rightarrow>
    (header_path_prefix_config \<Rightarrow> header_mutation) \<Rightarrow> ('w, 'e) header_writer \<Rightarrow> 'w \<Rightarrow>
    header_config \<Rightarrow> string \<Rightarrow> 'e option \<times> 'w" where
  "apply_header_with base scoped hw w config path =
     (if \<not> hc_enabled config then (None, w)
      else case apply_mutation hw w (base config) of
        (Some e, w1) \<Rightarrow> (Some e, w1)
      | (None, w1) \<Rightarrow>
          (case best_prefix (hc_path_prefix_header config) path of
             None \<Rightarrow> (None, w1)
           | Some (_, prefix_config) \<Rightarrow> apply_mutation hw w1 (scoped prefix_config)))"

definition apply_header_request :: "('w, 'e) header_writer \<Rightarrow> 'w \<Rightarrow> header_config \<Rightarrow> string \<Rightarrow>
    'e option \<times> 'w" where
  "apply_header_request hw w config path = apply_header_with hc_request hp_request hw w config path"

definition apply_header_response :: "('w, 'e) header_writer \<Rightarrow> 'w \<Rightarrow> header_config \<Rightarrow> string \<Rightarrow>
    'e option \<times> 'w" where
  "apply_header_response hw w config path = apply_header_with hc_response hp_response hw w config path"

section \<open>Correlation ids\<close>

record correlation_config =
  cc_enabled :: bool
  cc_autogen_correlation_id :: bool
  cc_correlation_mdc_field :: string
  cc_traceability_mdc_field :: string

definition correlation_config_default :: correlation_config where
  "correlation_config_default = \<lparr>cc_enabled = True, cc_autogen_correlation_id = True,
     cc_correlation_mdc_field = ''cId'', cc_traceability_mdc_field = ''tId''\<rparr>"

record correlation_state =
  cs_correlation_id :: "string option"
  cs_traceability_id :: "string option"

text \<open>\<open>generated\<close> is the value of \<open>java_compatible_uuid()\<close>.\<close>

definition apply_correlation_request :: "('w, 'e) header_writer \<Rightarrow> string \<Rightarrow> request_head \<Rightarrow> 'w \<Rightarrow>
    correlation_config \<Rightarrow> ('e, correlation_state) result \<times> 'w" where
  "apply_correlation_request hw generated req w config =
     (if \<not> cc_enabled config
      then (Ok \<lparr>cs_correlation_id = None, cs_traceability_id = None\<rparr>, w)
      else
        let traceability_id = request_header req ''X-Traceability-Id'';
            correlation_id = request_header req ''X-Correlation-Id''
        in if correlation_id = None \<and> cc_autogen_correlation_id config
           then (case hw_insert hw w ''X-Correlation-Id'' generated of
                   (Some e, w') \<Rightarrow> (Err e, w')
                 | (None, w') \<Rightarrow>
                     (Ok \<lparr>cs_correlation_id = Some generated, cs_traceability_id = traceability_id\<rparr>, w'))
           else (Ok \<lparr>cs_correlation_id = correlation_id, cs_traceability_id = traceability_id\<rparr>, w))"

definition apply_correlation_response :: "('w, 'e) header_writer \<Rightarrow> 'w \<Rightarrow> correlation_state \<Rightarrow>
    'e option \<times> 'w" where
  "apply_correlation_response hw w st =
     (case cs_traceability_id st of
        None \<Rightarrow> (None, w)
      | Some t \<Rightarrow> hw_insert hw w ''X-Traceability-Id'' t)"

definition correlation_id_for_upstream :: "correlation_state \<Rightarrow> string option" where
  "correlation_id_for_upstream st = cs_correlation_id st"

section \<open>Direct registry\<close>

record direct_registry_match =
  dm_key :: string
  dm_url :: string

definition registry_get :: "(string, string) btree \<Rightarrow> string \<Rightarrow> direct_registry_match option" where
  "registry_get urls key = map_option (\<lambda>url. \<lparr>dm_key = key, dm_url = url\<rparr>) (bt_get urls key)"

definition direct_registry_match :: "(string, string) btree \<Rightarrow> string \<Rightarrow> string option \<Rightarrow>
    direct_registry_match option" where
  "direct_registry_match direct_urls service_id env_tag =
     (let tagged = (case env_tag of
            None \<Rightarrow> None
          | Some tag \<Rightarrow>
              if trim tag = [] then None
              else registry_get direct_urls (service_id @ ''|'' @ tag));
          selected = (case tagged of Some m \<Rightarrow> Some m | None \<Rightarrow> registry_get direct_urls service_id)
      in case selected of
           None \<Rightarrow> None
         | Some m \<Rightarrow> if CHR '','' \<in> set (dm_url m) then None else Some m)"

section \<open>CORS\<close>

record cors_path_prefix =
  cp_allowed_origins :: "string list"
  cp_allowed_methods :: "string list"



record cors_response_headers =
  ch_allow_origin :: "string option"
  ch_allow_methods :: "string list"
  ch_allow_headers :: string















definition apply_cors_response :: "('w, 'e) header_writer \<Rightarrow> 'w \<Rightarrow> cors_response_headers \<Rightarrow>
    'e option \<times> 'w" where
  "apply_cors_response hw response h =
     write_all hw response
       ((case ch_allow_origin h of
           None \<Rightarrow> []
         | Some o' \<Rightarrow>
             [(''access-control-allow-origin'', o'),
              (''vary'', ''Origin, Access-Control-Request-Method, Access-Control-Request-Headers'')])
        @ (if ch_allow_methods h = [] then []
           else [(''access-control-allow-methods'', join_with '', '' (ch_allow_methods h))])
        @ [(''access-control-allow-headers'', ch_allow_headers h),
           (''access-control-allow-credentials'', ''true''),
           (''access-control-max-age'', show_nat 3600)])"

definition cors_deserialize_string_list :: "(string \<Rightarrow> (string, string list) result) \<Rightarrow>
    ('e, string, 'm) serde_input \<Rightarrow> ('e de_error, string list) result" where
  "cors_deserialize_string_list yaml_list inp =
     (case inp of
        InStr s \<Rightarrow>
          (let v = trim s in
           if v = [] then Ok []
           else if starts_with v ''['' then
             (case yaml_list v of Inl e \<Rightarrow> Err (DeYaml e) | Inr xs \<Rightarrow> Ok xs)
           else Ok (filter (\<lambda>item. item \<noteq> []) (map trim (split_chars '','' v))))
      | InSeq es \<Rightarrow> collect_seq es
      | _ \<Rightarrow> Err DeInvalidType)"

definition deserialize_path_prefix_allowed :: "(string \<Rightarrow> (string, (string, cors_path_prefix) btree) result) \<Rightarrow>
    ('e, 's, cors_path_prefix) serde_input \<Rightarrow> ('e de_error, (string, cors_path_prefix) btree) result" where
  "deserialize_path_prefix_allowed yaml_map inp =
     (case inp of
        InStr s \<Rightarrow>
          (let v = trim s in
           if v = [] then Ok []
           else if starts_with v ''{'' then
             (case yaml_map v of Inl e \<Rightarrow> Err (DeYaml e) | Inr m \<Rightarrow> Ok m)
           else Err DeExpectedMap)
      | InMap es \<Rightarrow> collect_map Ok es []
      | _ \<Rightarrow> Err DeInvalidType)"

subsection \<open>Origins as the Java Lambda matches them\<close>

text \<open>\<open>str::find\<close> for a character and for a string: the first byte offset.\<close>

fun find_char :: "char \<Rightarrow> string \<Rightarrow> nat option" where
  "find_char c [] = None"
| "find_char c (x # xs) = (if x = c then Some 0 else map_option Suc (find_char c xs))"

fun find_str :: "string \<Rightarrow> string \<Rightarrow> nat option" where
  "find_str p [] = (if p = [] then Some 0 else None)"
| "find_str p (x # xs) = (if starts_with (x # xs) p then Some 0 else map_option Suc (find_str p xs))"

text \<open>\<open>str::parse::<i32>\<close>.\<close>

definition parse_i32 :: "string \<Rightarrow> int option" where
  "parse_i32 s =
     (case s of
        CHR ''-'' # ds \<Rightarrow>
          if ds = [] then None
          else (case parse_digits 0 ds of
                  None \<Rightarrow> None | Some n \<Rightarrow> if n \<le> 2 ^ 31 then Some (- int n) else None)
      | _ \<Rightarrow> map_option int (parse_uint (2 ^ 31 - 1) s))"

datatype invalid_origin = InvalidOrigin

text \<open>Where the search for the port starts: behind the scheme, or at the closing bracket.\<close>

definition java_port_from :: "string \<Rightarrow> nat \<Rightarrow> (invalid_origin, nat) result" where
  "java_port_from origin start =
     (case find_char CHR ''['' (drop start origin) of
        None \<Rightarrow> Ok start
      | Some bracket \<Rightarrow>
          (case find_char CHR '']'' (drop (start + bracket) origin) of
             None \<Rightarrow> Err InvalidOrigin
           | Some e \<Rightarrow> Ok (start + bracket + e)))"

definition java_sanitize_default_port :: "string \<Rightarrow> (invalid_origin, string) result" where
  "java_sanitize_default_port origin =
     (case find_str ''://'' origin of
        None \<Rightarrow> Ok origin
      | Some scheme_end \<Rightarrow>
          rtry (java_port_from origin (scheme_end + 3)) (\<lambda>from.
          case find_char CHR '':'' (drop from origin) of
            None \<Rightarrow> Ok origin
          | Some offset \<Rightarrow>
              let colon = from + offset; scheme = take scheme_end origin in
              (case parse_i32 (drop (colon + 1) origin) of
                 None \<Rightarrow> Err InvalidOrigin
               | Some port \<Rightarrow>
                   if scheme = ''http'' \<and> port = 80 \<or> scheme = ''https'' \<and> port = 443
                   then Ok (take colon origin) else Ok origin)))"

definition origin_allowed :: "string \<Rightarrow> string list \<Rightarrow> (invalid_origin, bool) result" where
  "origin_allowed origin allowed =
     (if allowed = [] then Ok False
      else rtry (java_sanitize_default_port origin) (\<lambda>sanitized.
        Ok (list_ex (\<lambda>candidate. eq_ignore_ascii_case candidate sanitized) allowed)))"

section \<open>What the handlers guarantee\<close>

subsection \<open>Header writes\<close>

lemma map_of_rev_distinct: "distinct (map fst m) \<Longrightarrow> map_of (rev m) k = map_of m k"
  by (induction m) (auto simp: map_add_def split: option.splits, force)

text \<open>
  A writer that keeps what it is told, as \<open>http::HeaderMap\<close> does: an accepted insertion is
  visible under its name and touches no other name, a removal hides the name.
\<close>

definition keeps_headers :: "('w, 'e) header_writer \<Rightarrow> ('w \<Rightarrow> string \<Rightarrow> string option) \<Rightarrow> bool" where
  "keeps_headers hw look \<longleftrightarrow>
     (\<forall>w n v w' m. hw_insert hw w n v = (None, w') \<longrightarrow> look w' m = (if m = n then Some v else look w m))
     \<and> (\<forall>w n m. look (hw_remove hw w n) m = (if m = n then None else look w m))"

lemma look_write_all:
  assumes "keeps_headers hw look" and "write_all hw w kvs = (None, w')"
  shows "look w' m = (case map_of (rev kvs) m of Some v \<Rightarrow> Some v | None \<Rightarrow> look w m)"
  using assms(2)
proof (induction kvs arbitrary: w)
  case (Cons kv kvs)
  obtain n v where kv: "kv = (n, v)" by (cases kv)
  with Cons.prems obtain w1 where w1: "hw_insert hw w n v = (None, w1)" "write_all hw w1 kvs = (None, w')"
    by (auto split: prod.splits option.splits)
  have "look w1 m = (if m = n then Some v else look w m)"
    using assms(1) w1(1) unfolding keeps_headers_def by blast
  with Cons.IH [OF w1(2)] show ?case
    by (auto simp: kv map_add_def split: option.splits)
qed simp

lemma look_remove_all:
  assumes "keeps_headers hw look"
  shows "look (fold (\<lambda>n w. hw_remove hw w n) ns w) m = (if m \<in> set ns then None else look w m)"
  using assms by (induction ns arbitrary: w) (auto simp: keeps_headers_def)

definition mutated :: "header_mutation \<Rightarrow> (string \<Rightarrow> string option) \<Rightarrow> string \<Rightarrow> string option" where
  "mutated m look n =
     (case bt_get (hm_update m) n of
        Some v \<Rightarrow> Some v
      | None \<Rightarrow> if n \<in> set (hm_remove m) then None else look n)"

lemma look_apply_mutation:
  assumes "keeps_headers hw look" and "apply_mutation hw w m = (None, w')" and "bt_ok (hm_update m)"
  shows "look w' n = mutated m (look w) n"
proof -
  have "look w' n = (case map_of (rev (hm_update m)) n of
      Some v \<Rightarrow> Some v | None \<Rightarrow> if n \<in> set (hm_remove m) then None else look w n)"
    using look_write_all [OF assms(1) assms(2) [unfolded apply_mutation_def], of n]
    by (simp only: look_remove_all [OF assms(1)])
  then show ?thesis
    using assms(3) by (simp add: mutated_def bt_get_def map_of_rev_distinct bt_ok_distinct)
qed

text \<open>A response passed through the header handler shows, for every header name, what the
  longest matching path entry prescribes, otherwise what the general entry prescribes,
  otherwise what it had before: an update beats a removal within an entry, and the path entry
  beats the general one.\<close>

theorem apply_header_response_effect:
  assumes "keeps_headers hw look" and "apply_header_response hw w config path = (None, w')"
    and "hc_enabled config" and "bt_ok (hm_update (hc_response config))"
    and "best_prefix (hc_path_prefix_header config) path = Some (p, scoped)"
    and "bt_ok (hm_update (hp_response scoped))"
  shows "look w' n = mutated (hp_response scoped) (mutated (hc_response config) (look w)) n
    \<and> starts_with path p
    \<and> (\<forall>q \<in> fst ` set (hc_path_prefix_header config). starts_with path q \<longrightarrow> prefix q p)"
proof -
  obtain w1 where w1: "apply_mutation hw w (hc_response config) = (None, w1)"
      "apply_mutation hw w1 (hp_response scoped) = (None, w')"
    using assms(2,3,5) unfolding apply_header_response_def apply_header_with_def
    by (auto split: prod.splits option.splits)
  have "look w1 = mutated (hc_response config) (look w)"
    using look_apply_mutation [OF assms(1) w1(1) assms(4)] by blast
  then have "look w' n = mutated (hp_response scoped) (mutated (hc_response config) (look w)) n"
    using look_apply_mutation [OF assms(1) w1(2) assms(6)] by simp
  moreover have "starts_with path p"
    using prefix_map.select_sound [OF assms(5)] by simp
  moreover have "prefix q p" if q: "q \<in> fst ` set (hc_path_prefix_header config)" "starts_with path q" for q
  proof -
    obtain pol where "(q, pol) \<in> set (hc_path_prefix_header config)" using q(1) by auto
    from prefix_map.select_extends [OF assms(5) this] q(2) show ?thesis by simp
  qed
  ultimately show ?thesis by blast
qed

definition example_writer :: "(string \<Rightarrow> string option, unit) header_writer" where
  "example_writer = \<lparr>hw_insert = (\<lambda>w n v. (None, w(n := Some v))), hw_remove = (\<lambda>w n. w(n := None))\<rparr>"

definition example_header_config :: header_config where
  "example_header_config = \<lparr>hc_enabled = True,
     hc_request = \<lparr>hm_remove = [], hm_update = []\<rparr>,
     hc_response = \<lparr>hm_remove = [''server''], hm_update = [(''x-a'', ''1'')]\<rparr>,
     hc_path_prefix_header = [(''/v1'', \<lparr>hp_request = \<lparr>hm_remove = [], hm_update = []\<rparr>,
        hp_response = \<lparr>hm_remove = [], hm_update = [(''x-a'', ''2'')]\<rparr>\<rparr>)]\<rparr>"

lemma example_writer_keeps: "keeps_headers example_writer (\<lambda>w. w)"
  by (simp add: keeps_headers_def example_writer_def)

theorem apply_header_response_effect_witness:
  "\<exists>w'. apply_header_response example_writer (\<lambda>_. Some ''x'') example_header_config ''/v1/pets'' = (None, w')
     \<and> w' ''x-a'' = Some ''2''"
proof -
  obtain w' where w': "apply_header_response example_writer (\<lambda>_. Some ''x'') example_header_config ''/v1/pets''
      = (None, w')"
    by (simp add: apply_header_response_def apply_header_with_def apply_mutation_def
        example_header_config_def example_writer_def best_prefix_def longest_match_def)
  have "w' ''x-a'' = mutated \<lparr>hm_remove = [], hm_update = [(''x-a'', ''2'')]\<rparr>
      (mutated (hc_response example_header_config) (\<lambda>_. Some ''x'')) ''x-a''"
    using apply_header_response_effect [OF example_writer_keeps w', where n = "''x-a''"]
    by (simp add: example_header_config_def best_prefix_def longest_match_def bt_ok_def)
  with w' show ?thesis by (simp add: mutated_def bt_get_def)
qed

subsection \<open>CORS grants\<close>







end
