(* ===== verification/Gateway_Auth.thy ===== *)
theory Gateway_Auth
  imports Gateway_Config Security_Types
begin

text \<open>
  API keys and Basic authentication: \<open>crates/gateway-policy/src/apikey.rs\<close> and
  \<open>basic_auth.rs\<close>.  PBKDF2, hexadecimal and base64 decoding come from crates outside the
  repository and are arguments.
\<close>

section \<open>API keys\<close>

record api_key_rule =
  ak_path_prefix :: string
  ak_header_name :: string
  ak_api_key :: string

record api_key_config =
  ac_enabled :: bool
  ac_hash_enabled :: bool
  ac_path_prefix_auths :: "api_key_rule list"

definition api_key_config_default :: api_key_config where
  "api_key_config_default = \<lparr>ac_enabled = True, ac_hash_enabled = False, ac_path_prefix_auths = []\<rparr>"

definition best_rule :: "api_key_config \<Rightarrow> string \<Rightarrow> api_key_rule option" where
  "best_rule config path = longest_match ak_path_prefix (\<lambda>_. True) path (ac_path_prefix_auths config)"

interpretation api_key_rules: longest_prefix
  "\<lambda>c (_ :: unit) p. best_rule c p" ac_path_prefix_auths ak_path_prefix "\<lambda>_ _. True"
  by unfold_locales
    (simp_all add: best_rule_def longest_match_sound longest_match_longest longest_match_complete
      del: not_None_eq)

text \<open>\<open>pbkdf2 password salt iterations n\<close> are \<open>n\<close> derived bytes.\<close>

record hash_ops =
  ho_hex_decode :: "string \<Rightarrow> string option"
  ho_pbkdf2 :: "string \<Rightarrow> string \<Rightarrow> nat \<Rightarrow> nat \<Rightarrow> string"

definition validate_pbkdf2_hash :: "hash_ops \<Rightarrow> string \<Rightarrow> string \<Rightarrow> bool" where
  "validate_pbkdf2_hash ho password stored =
     (case split_chars '':'' stored of
        [] \<Rightarrow> False
      | iter # rest \<Rightarrow>
          (case parse_uint (2 ^ 32 - 1) iter of
             None \<Rightarrow> False
           | Some iterations \<Rightarrow>
               (case rest of
                  [salt_hex, hash_hex] \<Rightarrow>
                    (case (ho_hex_decode ho salt_hex, ho_hex_decode ho hash_hex) of
                       (Some salt, Some expected) \<Rightarrow>
                         ho_pbkdf2 ho password salt iterations (length expected) = expected
                     | _ \<Rightarrow> False)
                | _ \<Rightarrow> False)))"

definition api_key_accepted :: "hash_ops \<Rightarrow> api_key_config \<Rightarrow> string \<Rightarrow> string \<Rightarrow> bool" where
  "api_key_accepted ho config provided expected =
     (if ac_hash_enabled config then validate_pbkdf2_hash ho provided expected
      else provided = expected)"

definition verify_api_key_internal :: "hash_ops \<Rightarrow> request_head \<Rightarrow> api_key_config \<Rightarrow> string \<Rightarrow> bool \<Rightarrow>
    (handler_rejection, unit) result" where
  "verify_api_key_internal ho req config path require_match =
     (if \<not> ac_enabled config then Ok ()
      else case best_rule config path of
        None \<Rightarrow>
          if require_match
          then Err (rejection_new 401 ''ERR10075'' ''API key rule is missing for this path'')
          else Ok ()
      | Some rule \<Rightarrow>
          if trim (ak_header_name rule) = [] \<or> trim (ak_api_key rule) = []
          then Err (rejection_new 500 ''ERR10001'' ''API key rule is missing headerName or apiKey'')
          else
            rtry (ok_or (rejection_new 401 ''ERR10075'' ''API key header is missing or invalid'')
                   (request_header req (ak_header_name rule))) (\<lambda>provided.
            if api_key_accepted ho config provided (ak_api_key rule) then Ok ()
            else Err (rejection_new 401 ''ERR10075'' ''API key header is missing or invalid'')))"

definition verify_api_key :: "hash_ops \<Rightarrow> request_head \<Rightarrow> api_key_config \<Rightarrow> string \<Rightarrow>
    (handler_rejection, unit) result" where
  "verify_api_key ho req config path = verify_api_key_internal ho req config path False"

definition verify_required_api_key :: "hash_ops \<Rightarrow> request_head \<Rightarrow> api_key_config \<Rightarrow> string \<Rightarrow>
    (handler_rejection, unit) result" where
  "verify_required_api_key ho req config path = verify_api_key_internal ho req config path True"

section \<open>Basic authentication\<close>

record user_auth =
  ua_username :: string
  ua_password :: string
  ua_paths :: "string list"

record basic_auth_config =
  ba_enabled :: bool
  ba_enable_ad :: bool
  ba_allow_anonymous :: bool
  ba_allow_bearer_token :: bool
  ba_users :: "user_auth list"

definition basic_auth_config_default :: basic_auth_config where
  "basic_auth_config_default = \<lparr>ba_enabled = False, ba_enable_ad = True, ba_allow_anonymous = False,
     ba_allow_bearer_token = False, ba_users = []\<rparr>"

definition password_matches :: "string \<Rightarrow> string \<Rightarrow> bool" where
  "password_matches submitted configured \<longleftrightarrow> submitted \<noteq> [] \<and> configured \<noteq> [] \<and> submitted = configured"

definition paths_allow :: "string list \<Rightarrow> string \<Rightarrow> bool" where
  "paths_allow paths path \<longleftrightarrow> paths = [] \<or> list_ex (\<lambda>p. starts_with path p) paths"

definition user_can_access :: "basic_auth_config \<Rightarrow> string \<Rightarrow> string \<Rightarrow> bool" where
  "user_can_access config username path =
     (case find (\<lambda>u. ua_username u = username) (ba_users config) of
        None \<Rightarrow> False
      | Some u \<Rightarrow> paths_allow (ua_paths u) path)"

definition basic_rejection :: "string \<Rightarrow> handler_rejection" where
  "basic_rejection message =
     with_header ''www-authenticate'' ''Basic realm=\"light-gateway\"''
       (rejection_new 401 ''ERR10005'' message)"

definition verify_anonymous :: "basic_auth_config \<Rightarrow> string \<Rightarrow> (handler_rejection, unit) result" where
  "verify_anonymous config path =
     (if ba_allow_anonymous config \<and> user_can_access config ''anonymous'' path then Ok ()
      else Err (basic_rejection ''Authorization header is required''))"

text \<open>
  \<open>base64_utf8\<close> decodes standard base64 and then UTF-8; both failures are answered alike.
\<close>

definition verify_basic_credentials :: "(string \<Rightarrow> string option) \<Rightarrow> string \<Rightarrow> basic_auth_config \<Rightarrow>
    string \<Rightarrow> (handler_rejection, unit) result" where
  "verify_basic_credentials base64_utf8 credentials config path =
     rtry (ok_or (basic_rejection ''invalid Basic credentials'') (base64_utf8 (trim credentials)))
       (\<lambda>decoded.
     rtry (ok_or (basic_rejection ''invalid Basic credentials'') (split_once CHR '':'' decoded))
       (\<lambda>(username, password).
     case find (\<lambda>u. ua_username u = username) (ba_users config) of
       None \<Rightarrow> Err (basic_rejection ''unknown Basic user'')
     | Some u \<Rightarrow>
         if \<not> password_matches password (ua_password u)
         then Err (basic_rejection ''invalid Basic password'')
         else if \<not> paths_allow (ua_paths u) path
         then Err (forbidden ''Basic user is not allowed for this path'')
         else Ok ()))"

definition verify_basic_auth :: "(string \<Rightarrow> string option) \<Rightarrow> request_head \<Rightarrow> basic_auth_config \<Rightarrow> string \<Rightarrow>
    (handler_rejection, unit) result" where
  "verify_basic_auth base64_utf8 req config path =
     (if \<not> ba_enabled config then Ok ()
      else case request_header req ''authorization'' of
        None \<Rightarrow> verify_anonymous config path
      | Some authorization \<Rightarrow>
          rtry (ok_or (basic_rejection ''invalid Authorization header'')
                 (split_once CHR '' '' authorization)) (\<lambda>(scheme, credentials).
          if eq_ignore_ascii_case scheme ''bearer'' then
            (if ba_allow_bearer_token config \<and> user_can_access config ''bearer'' path then Ok ()
             else Err (basic_rejection ''bearer token is not allowed for this path''))
          else if \<not> eq_ignore_ascii_case scheme ''basic''
          then Err (basic_rejection ''unsupported Authorization scheme'')
          else verify_basic_credentials base64_utf8 credentials config path))"

subsection \<open>The user list\<close>

record yaml_user_codec =
  yu_value :: "yaml \<Rightarrow> (string, user_auth) result"
  yu_as_str :: "yaml \<Rightarrow> string option"
  yu_text :: "string \<Rightarrow> (string, yaml) result"
  yu_debug :: "yaml \<Rightarrow> string"

definition user_entry :: "yaml_user_codec \<Rightarrow> yaml \<times> yaml \<Rightarrow> (string, user_auth) result" where
  "user_entry yu kv =
     (case kv of (key, v) \<Rightarrow>
        rtry (ok_or ''basic-auth user key must be a string'' (yu_as_str yu key)) (\<lambda>username.
        rtry (case v of
                YString password \<Rightarrow> Ok \<lparr>ua_username = username, ua_password = password, ua_paths = []\<rparr>
              | _ \<Rightarrow> yu_value yu v) (\<lambda>user.
        Ok (if ua_username user = [] then user\<lparr>ua_username := username\<rparr> else user))))"

definition parse_users_value :: "yaml_user_codec \<Rightarrow> yaml \<Rightarrow> (string, user_auth list) result" where
  "parse_users_value yu v =
     (case v of
        YNull \<Rightarrow> Ok []
      | YSequence vs \<Rightarrow> try_map (yu_value yu) vs
      | YMapping kvs \<Rightarrow> try_map (user_entry yu) kvs
      | YString s \<Rightarrow>
          if trim s = [] then Ok [] else Err (''unsupported basic-auth users value: '' @ yu_debug yu v)
      | other \<Rightarrow> Err (''unsupported basic-auth users value: '' @ yu_debug yu other))"

text \<open>A mapping offered by the deserializer is first collected; a repeated key keeps its place
  and takes the later value, as \<open>serde_yaml::Mapping::insert\<close> does.\<close>

fun mapping_insert :: "yaml \<Rightarrow> yaml \<Rightarrow> (yaml \<times> yaml) list \<Rightarrow> (yaml \<times> yaml) list" where
  "mapping_insert k v [] = [(k, v)]"
| "mapping_insert k v (e # es) = (if fst e = k then (k, v) # es else e # mapping_insert k v es)"

fun collect_mapping :: "(string, string \<times> yaml) result list \<Rightarrow> (yaml \<times> yaml) list \<Rightarrow>
    (string, (yaml \<times> yaml) list) result" where
  "collect_mapping [] m = Ok m"
| "collect_mapping (r # rs) m =
     rtry r (\<lambda>(k, v). collect_mapping rs (mapping_insert (YString k) v m))"

definition deserialize_users :: "yaml_user_codec \<Rightarrow> (string, user_auth, yaml) serde_input \<Rightarrow>
    (string, user_auth list) result" where
  "deserialize_users yu inp =
     (case inp of
        InStr s \<Rightarrow> rtry (yu_text yu s) (parse_users_value yu)
      | InSeq es \<Rightarrow> try_map (\<lambda>e. e) es
      | InMap es \<Rightarrow> rtry (collect_mapping es []) (\<lambda>m. parse_users_value yu (YMapping m))
      | InOther \<Rightarrow> Err ''invalid type'')"

section \<open>Properties\<close>

text \<open>C36: Where an API key is required, a request passes exactly when a rule covers its path,
  the longest such rule names a header and a key, the request carries that header, and its
  value is accepted against the key of that rule; a shorter rule never decides.\<close>

theorem required_api_key_exact:
  assumes "ac_enabled config"
  shows "verify_required_api_key ho req config path = Ok () \<longleftrightarrow>
    (\<exists>rule provided. best_rule config path = Some rule
       \<and> rule \<in> set (ac_path_prefix_auths config)
       \<and> (\<forall>r \<in> set (ac_path_prefix_auths config). starts_with path (ak_path_prefix r) \<longrightarrow>
            prefix (ak_path_prefix r) (ak_path_prefix rule))
       \<and> trim (ak_header_name rule) \<noteq> [] \<and> trim (ak_api_key rule) \<noteq> []
       \<and> request_header req (ak_header_name rule) = Some provided
       \<and> api_key_accepted ho config provided (ak_api_key rule))"
proof -
  have "rule \<in> set (ac_path_prefix_auths config)
      \<and> (\<forall>r \<in> set (ac_path_prefix_auths config). starts_with path (ak_path_prefix r) \<longrightarrow>
            prefix (ak_path_prefix r) (ak_path_prefix rule))"
    if "best_rule config path = Some rule" for rule
    using api_key_rules.select_sound [OF that] api_key_rules.select_extends [OF that] by simp
  then show ?thesis using assms
    by (auto simp: verify_required_api_key_def verify_api_key_internal_def rtry_eq_Ok_iff
        split: option.splits if_splits)
qed

definition example_keys :: api_key_config where
  "example_keys = \<lparr>ac_enabled = True, ac_hash_enabled = False, ac_path_prefix_auths =
     [\<lparr>ak_path_prefix = ''/api'', ak_header_name = ''x-api-key'', ak_api_key = ''secret''\<rparr>]\<rparr>"

theorem required_api_key_exact_witness:
  "verify_required_api_key (\<lparr>ho_hex_decode = Some, ho_pbkdf2 = (\<lambda>_ _ _ _. [])\<rparr>)
     \<lparr>rh_headers = (\<lambda>_. []), rh_method = ''GET''\<rparr> example_keys ''/api/pets'' \<noteq> Ok ()"
proof -
  have "ac_enabled example_keys" by (simp add: example_keys_def)
  from required_api_key_exact [OF this] show ?thesis
    by (simp add: request_header_def header_get_def)
qed

lemma verify_basic_credentials_iff:
  "verify_basic_credentials dec credentials config path = Ok () \<longleftrightarrow>
     (\<exists>d username password u. dec (trim credentials) = Some d
        \<and> split_once CHR '':'' d = Some (username, password)
        \<and> find (\<lambda>u. ua_username u = username) (ba_users config) = Some u
        \<and> password \<noteq> [] \<and> password = ua_password u \<and> paths_allow (ua_paths u) path)"
proof (cases "dec (trim credentials)")
  case (Some d)
  show ?thesis
  proof (cases "split_once CHR '':'' d")
    case (Some up)
    with \<open>dec (trim credentials) = Some d\<close> show ?thesis
      by (cases up) (auto simp: verify_basic_credentials_def password_matches_def split: option.splits)
  qed (simp add: verify_basic_credentials_def Some)
qed (simp add: verify_basic_credentials_def)

text \<open>C37: With Basic authentication enabled a request passes exactly in one of three ways: without
  an Authorization header when anonymous access is allowed on the path; with a bearer token
  when bearer tokens are allowed on the path; or with Basic credentials whose password is not
  empty and equals the non-empty password of the first user of that name, on a path of that
  user.\<close>

theorem basic_auth_exact:
  assumes "ba_enabled config"
  shows "verify_basic_auth dec req config path = Ok () \<longleftrightarrow>
    (case request_header req ''authorization'' of
       None \<Rightarrow> ba_allow_anonymous config \<and> user_can_access config ''anonymous'' path
     | Some a \<Rightarrow>
         (\<exists>scheme credentials. split_once CHR '' '' a = Some (scheme, credentials) \<and>
           (eq_ignore_ascii_case scheme ''bearer'' \<and> ba_allow_bearer_token config
              \<and> user_can_access config ''bearer'' path
            \<or> \<not> eq_ignore_ascii_case scheme ''bearer'' \<and> eq_ignore_ascii_case scheme ''basic'' \<and>
              (\<exists>d username password u. dec (trim credentials) = Some d
                \<and> split_once CHR '':'' d = Some (username, password)
                \<and> find (\<lambda>u. ua_username u = username) (ba_users config) = Some u
                \<and> password \<noteq> [] \<and> password = ua_password u \<and> paths_allow (ua_paths u) path))))"
proof (cases "request_header req ''authorization''")
  case (Some a)
  show ?thesis
  proof (cases "split_once CHR '' '' a")
    case (Some sc)
    then show ?thesis using assms \<open>request_header req ''authorization'' = Some a\<close>
      by (cases sc) (simp add: verify_basic_auth_def verify_basic_credentials_iff)
  qed (simp add: verify_basic_auth_def assms Some)
qed (simp add: verify_basic_auth_def verify_anonymous_def assms)

theorem basic_auth_exact_witness:
  "verify_basic_auth Some \<lparr>rh_headers = (\<lambda>_. []), rh_method = ''GET''\<rparr>
     (basic_auth_config_default\<lparr>ba_enabled := True\<rparr>) ''/'' \<noteq> Ok ()"
proof -
  have "ba_enabled (basic_auth_config_default\<lparr>ba_enabled := True\<rparr>)" by simp
  from basic_auth_exact [OF this] show ?thesis
    by (simp add: request_header_def header_get_def basic_auth_config_default_def)
qed



end
