(* ===== verification/Unified_Security.thy ===== *)
theory Unified_Security
  imports Gateway_Auth
begin

text \<open>
  The unified security handler, \<open>crates/gateway-policy/src/unified_security.rs\<close>: which
  authentication a path requires, composed (\<open>allOf\<close>) policies with HMAC, and the start-up
  validation that HMAC-protected paths cannot be bypassed.  JWT verification
  (\<open>verify_jwt_request_with_service_ids\<close>), base64, JSON parsing and \<open>http::Method\<close> are
  arguments, collected in \<open>unified_env\<close>; the request is a session state with a header view,
  because JWT verification may add pass-through headers to it.
\<close>

section \<open>Configuration\<close>

datatype unified_auth_factor_type = Hmac | Jwt | ApiKey

record unified_auth_factor =
  uf_factor_type :: unified_auth_factor_type
  uf_profile :: string
  uf_jwk_service_ids :: "string list"

record unified_authentication =
  all_of :: "unified_auth_factor list"

record unified_path_auth =
  up_prefix :: string
  up_methods :: "string list"
  up_basic :: bool
  up_jwt :: bool
  up_sjwt :: bool
  up_swt :: bool
  up_apikey :: bool
  up_jwk_service_ids :: "string list"
  up_sjwk_service_ids :: "string list"
  up_swt_service_ids :: "string list"
  up_authentication :: "unified_authentication option"

definition unified_path_auth_default :: unified_path_auth where
  "unified_path_auth_default = \<lparr>up_prefix = [], up_methods = [], up_basic = False, up_jwt = False,
     up_sjwt = False, up_swt = False, up_apikey = False, up_jwk_service_ids = [],
     up_sjwk_service_ids = [], up_swt_service_ids = [], up_authentication = None\<rparr>"

record unified_security_config =
  us_enabled :: bool
  us_anonymous_prefixes :: "string list"
  us_path_prefix_auths :: "unified_path_auth list"

definition unified_security_config_default :: unified_security_config where
  "unified_security_config_default =
     \<lparr>us_enabled = True, us_anonymous_prefixes = [], us_path_prefix_auths = []\<rparr>"

record unified_security_outcome =
  uo_principal :: "auth_principal option"
  uo_hmac_profile :: "string option"

definition outcome_default :: unified_security_outcome where
  "outcome_default = \<lparr>uo_principal = None, uo_hmac_profile = None\<rparr>"

definition rule_requires_hmac :: "unified_path_auth \<Rightarrow> bool" where
  "rule_requires_hmac rule =
     (case up_authentication rule of
        None \<Rightarrow> False
      | Some a \<Rightarrow> list_ex (\<lambda>f. uf_factor_type f = Hmac) (all_of a))"

definition requires_hmac :: "unified_security_config \<Rightarrow> bool" where
  "requires_hmac config = list_ex rule_requires_hmac (us_path_prefix_auths config)"

definition is_anonymous :: "unified_security_config \<Rightarrow> string \<Rightarrow> bool" where
  "is_anonymous config path = list_ex (\<lambda>p. starts_with path p) (us_anonymous_prefixes config)"

definition method_matches :: "string \<Rightarrow> unified_path_auth \<Rightarrow> bool" where
  "method_matches request_method rule \<longleftrightarrow>
     up_methods rule = []
     \<or> list_ex (\<lambda>m. eq_ignore_ascii_case m (to_ascii_uppercase request_method)) (up_methods rule)"

definition best_auth_rule :: "unified_security_config \<Rightarrow> string \<Rightarrow> string \<Rightarrow> unified_path_auth option" where
  "best_auth_rule config path request_method =
     longest_match up_prefix (method_matches request_method) path (us_path_prefix_auths config)"

interpretation auth_rules: longest_prefix
  "\<lambda>c m p. best_auth_rule c p m" us_path_prefix_auths up_prefix method_matches
  by unfold_locales
    (simp_all add: best_auth_rule_def longest_match_sound longest_match_longest longest_match_complete
      del: not_None_eq)

definition hmac_profile_for :: "unified_security_config \<Rightarrow> string \<Rightarrow> string \<Rightarrow> string option" where
  "hmac_profile_for config path request_method =
     (case best_auth_rule config path request_method of
        None \<Rightarrow> None
      | Some rule \<Rightarrow>
          (case up_authentication rule of
             None \<Rightarrow> None
           | Some a \<Rightarrow> map_option uf_profile (find (\<lambda>f. uf_factor_type f = Hmac) (all_of a))))"

section \<open>Request verification\<close>

record ('s, 'rt) unified_env =
  ue_head :: "'s \<Rightarrow> request_head"
  ue_verify_jwt :: "'rt \<Rightarrow> string \<Rightarrow> string list \<Rightarrow> 's \<Rightarrow>
    (handler_rejection, auth_principal option) result \<times> 's"
  ue_hash_ops :: hash_ops
  ue_base64_utf8 :: "string \<Rightarrow> string option"
  ue_url_safe_no_pad :: "string \<Rightarrow> string option"
  ue_url_safe :: "string \<Rightarrow> string option"
  ue_json :: "string \<Rightarrow> json option"

definition decode_jwt_part :: "('s, 'rt) unified_env \<Rightarrow> string \<Rightarrow> string option" where
  "decode_jwt_part env part =
     (case ue_url_safe_no_pad env part of Some b \<Rightarrow> Some b | None \<Rightarrow> ue_url_safe env part)"

text \<open>\<open>splitn(3, '.')\<close>: the third part keeps further dots.\<close>

definition split3 :: "char \<Rightarrow> string \<Rightarrow> (string \<times> string \<times> string) option" where
  "split3 c s =
     (case split_once c s of
        None \<Rightarrow> None
      | Some (a, rest) \<Rightarrow>
          (case split_once c rest of None \<Rightarrow> None | Some (b, r) \<Rightarrow> Some (a, b, r)))"

definition jwt_payload_claims :: "('s, 'rt) unified_env \<Rightarrow> string \<Rightarrow> json option" where
  "jwt_payload_claims env token =
     (case split3 CHR ''.'' token of
        None \<Rightarrow> None
      | Some (h, payload, _) \<Rightarrow>
          (case Option.bind (decode_jwt_part env h) (ue_json env) of
             None \<Rightarrow> None
           | Some _ \<Rightarrow>
               (case decode_jwt_part env payload of
                  None \<Rightarrow> None | Some bytes \<Rightarrow> ue_json env bytes)))"

definition token_is_jwt_like :: "('s, 'rt) unified_env \<Rightarrow> string \<Rightarrow> bool" where
  "token_is_jwt_like env token \<longleftrightarrow> jwt_payload_claims env token \<noteq> None"

definition claim_has_scope :: "json \<Rightarrow> string \<Rightarrow> bool" where
  "claim_has_scope claims key =
     (case json_get claims key of
        Some (JString s) \<Rightarrow> trim s \<noteq> []
      | Some (JArray xs) \<Rightarrow> xs \<noteq> []
      | _ \<Rightarrow> False)"

definition token_has_scope :: "('s, 'rt) unified_env \<Rightarrow> string \<Rightarrow> bool" where
  "token_has_scope env token =
     (case jwt_payload_claims env token of
        None \<Rightarrow> False
      | Some claims \<Rightarrow> list_ex (claim_has_scope claims) [''scope'', ''scp''])"

definition swt_not_implemented :: handler_rejection where
  "swt_not_implemented = rejection_new 501 ''ERR10001''
     ''SWT token introspection is not yet implemented; configure jwt or basic authentication for this path prefix''"

definition runtime_missing :: handler_rejection where
  "runtime_missing = rejection_new 500 ''ERR10001'' ''security.yml is not active''"

definition dispatch_bearer_token :: "('s, 'rt) unified_env \<Rightarrow> unified_path_auth \<Rightarrow> 'rt option \<Rightarrow> string \<Rightarrow>
    string \<Rightarrow> 's \<Rightarrow> (handler_rejection, auth_principal option) result \<times> 's" where
  "dispatch_bearer_token env rule security_runtime path raw_token s =
     (let verify = (\<lambda>ids.
        case security_runtime of
          None \<Rightarrow> (Err runtime_missing, s)
        | Some rt \<Rightarrow> ue_verify_jwt env rt path ids s)
      in if \<not> token_is_jwt_like env raw_token
         then (if up_swt rule then (Err swt_not_implemented, s)
               else (Err (unauthorized ''invalid or unsupported bearer token''), s))
         else if up_jwt rule \<and> up_sjwt rule
         then verify (if token_has_scope env raw_token then up_jwk_service_ids rule
                      else up_sjwk_service_ids rule)
         else if up_jwt rule then verify (up_jwk_service_ids rule)
         else if up_sjwt rule then verify (up_sjwk_service_ids rule)
         else if up_swt rule then (Err swt_not_implemented, s)
         else (Err (unauthorized ''no bearer token verifier is enabled for this path''), s))"

fun verify_factors :: "('s, 'rt) unified_env \<Rightarrow> api_key_config option \<Rightarrow> 'rt option \<Rightarrow> string \<Rightarrow>
    unified_auth_factor list \<Rightarrow> unified_security_outcome \<Rightarrow> 's \<Rightarrow>
    (handler_rejection, unified_security_outcome) result \<times> 's" where
  "verify_factors env api rt path [] outcome s = (Ok outcome, s)"
| "verify_factors env api rt path (f # fs) outcome s =
     (case uf_factor_type f of
        Jwt \<Rightarrow>
          (case rt of
             None \<Rightarrow> (Err runtime_missing, s)
           | Some r \<Rightarrow>
               (case ue_verify_jwt env r path (uf_jwk_service_ids f) s of
                  (Inl e, s') \<Rightarrow> (Err e, s')
                | (Inr None, s') \<Rightarrow>
                    (Err (unauthorized ''JWT authentication is required by the composed policy''), s')
                | (Inr (Some p), s') \<Rightarrow>
                    verify_factors env api rt path fs (outcome\<lparr>uo_principal := Some p\<rparr>) s'))
      | ApiKey \<Rightarrow>
          (case api of
             None \<Rightarrow> (Err (rejection_new 500 ''ERR10001'' ''apikey.yml is not active''), s)
           | Some c \<Rightarrow>
               (case verify_required_api_key (ue_hash_ops env) (ue_head env s) c path of
                  Inl e \<Rightarrow> (Err e, s)
                | Inr _ \<Rightarrow> verify_factors env api rt path fs outcome s))
      | Hmac \<Rightarrow> verify_factors env api rt path fs (outcome\<lparr>uo_hmac_profile := Some (uf_profile f)\<rparr>) s)"

definition verify_composed_security :: "('s, 'rt) unified_env \<Rightarrow> unified_authentication \<Rightarrow>
    api_key_config option \<Rightarrow> 'rt option \<Rightarrow> string \<Rightarrow> 's \<Rightarrow>
    (handler_rejection, unified_security_outcome) result \<times> 's" where
  "verify_composed_security env authentication api rt path s =
     verify_factors env api rt path (all_of authentication) outcome_default s"

text \<open>The legacy part: Basic or bearer by the scheme of the Authorization header.\<close>

definition verify_authorization :: "('s, 'rt) unified_env \<Rightarrow> unified_path_auth \<Rightarrow>
    basic_auth_config option \<Rightarrow> 'rt option \<Rightarrow> string \<Rightarrow> 's \<Rightarrow>
    (handler_rejection, unified_security_outcome) result \<times> 's" where
  "verify_authorization env rule basic rt path s =
     (case request_header (ue_head env s) ''authorization'' of
        None \<Rightarrow> (Err (unauthorized ''Authorization header is required''), s)
      | Some authorization \<Rightarrow>
          (case split_once CHR '' '' authorization of
             None \<Rightarrow> (Err (unauthorized ''invalid Authorization header''), s)
           | Some (scheme, _) \<Rightarrow>
               if eq_ignore_ascii_case scheme ''basic'' then
                 (if \<not> up_basic rule
                  then (Err (unauthorized ''Basic authentication is not allowed for this path''), s)
                  else case basic of
                    None \<Rightarrow> (Err (rejection_new 500 ''ERR10001'' ''basic-auth.yml is not active''), s)
                  | Some c \<Rightarrow>
                      (case verify_basic_auth (ue_base64_utf8 env) (ue_head env s) c path of
                         Inl e \<Rightarrow> (Err e, s)
                       | Inr _ \<Rightarrow> (Ok outcome_default, s)))
               else if eq_ignore_ascii_case scheme ''bearer'' then
                 (case dispatch_bearer_token env rule rt path (trim (drop 7 authorization)) s of
                    (Inl e, s') \<Rightarrow> (Err e, s')
                  | (Inr p, s') \<Rightarrow> (Ok \<lparr>uo_principal = p, uo_hmac_profile = None\<rparr>, s'))
               else (Err (unauthorized ''Authorization scheme is not allowed for this path''), s)))"

definition verify_unified_security :: "('s, 'rt) unified_env \<Rightarrow> unified_security_config \<Rightarrow>
    basic_auth_config option \<Rightarrow> api_key_config option \<Rightarrow> 'rt option \<Rightarrow> string \<Rightarrow> string \<Rightarrow> 's \<Rightarrow>
    (handler_rejection, unified_security_outcome) result \<times> 's" where
  "verify_unified_security env config basic api rt path request_method s =
     (if \<not> us_enabled config \<or> is_anonymous config path then (Ok outcome_default, s)
      else case best_auth_rule config path request_method of
        None \<Rightarrow> (Err (rejection_new 403 ''ERR10078'' ''request path is not configured for unified security''), s)
      | Some rule \<Rightarrow>
          (case up_authentication rule of
             Some authentication \<Rightarrow> verify_composed_security env authentication api rt path s
           | None \<Rightarrow>
               if up_basic rule \<or> up_jwt rule \<or> up_sjwt rule \<or> up_swt rule
               then verify_authorization env rule basic rt path s
               else if up_apikey rule then
                 (case api of
                    None \<Rightarrow> (Err (rejection_new 500 ''ERR10001'' ''apikey.yml is not active''), s)
                  | Some c \<Rightarrow>
                      (case verify_required_api_key (ue_hash_ops env) (ue_head env s) c path of
                         Inl e \<Rightarrow> (Err e, s)
                       | Inr _ \<Rightarrow> (Ok outcome_default, s)))
               else (Ok outcome_default, s)))"

section \<open>Validation at start-up\<close>

text \<open>Configuration errors carry their message; \<open>method_ok\<close> is \<open>http::Method::from_bytes\<close>.\<close>

record hmac_route =
  hr_prefix :: string
  hr_methods :: "string list"
  hr_profile :: string

record hmac_validation =
  hv_standalone_routes :: "hmac_route list"
  hv_contains_profile :: "string \<Rightarrow> bool"
  hv_standalone_policy_overlaps :: "string \<Rightarrow> string list \<Rightarrow> (string, bool) result"

fun normalize_into :: "(string \<Rightarrow> bool) \<Rightarrow> string list \<Rightarrow> string list \<Rightarrow> (string, string list) result" where
  "normalize_into method_ok [] acc = Ok acc"
| "normalize_into method_ok (raw # rest) acc =
     (let m = to_ascii_uppercase (trim raw) in
      if m = [] \<or> \<not> method_ok m
      then Err (''invalid HTTP method `'' @ m @ ''` in unified security policy'')
      else if m \<in> set acc
      then Err (''duplicate HTTP method `'' @ m @ ''` in unified security policy'')
      else normalize_into method_ok rest (m # acc))"

definition normalize_methods :: "(string \<Rightarrow> bool) \<Rightarrow> string list \<Rightarrow> (string, string list) result" where
  "normalize_methods method_ok methods = normalize_into method_ok methods []"

definition methods_overlap :: "(string \<Rightarrow> bool) \<Rightarrow> string list \<Rightarrow> string list \<Rightarrow> (string, bool) result" where
  "methods_overlap method_ok left right =
     rtry (normalize_methods method_ok left) (\<lambda>l.
     rtry (normalize_methods method_ok right) (\<lambda>r.
     Ok (l = [] \<or> r = [] \<or> list_ex (\<lambda>m. m \<in> set r) l)))"

definition methods_cover :: "(string \<Rightarrow> bool) \<Rightarrow> string list \<Rightarrow> string list \<Rightarrow> (string, bool) result" where
  "methods_cover method_ok hmac non_hmac =
     rtry (normalize_methods method_ok hmac) (\<lambda>h.
     rtry (normalize_methods method_ok non_hmac) (\<lambda>n.
     Ok (if h = [] then True else if n = [] then False else list_all (\<lambda>m. m \<in> set h) n)))"

definition rule_uses_legacy_fields :: "unified_path_auth \<Rightarrow> bool" where
  "rule_uses_legacy_fields rule \<longleftrightarrow>
     up_basic rule \<or> up_jwt rule \<or> up_sjwt rule \<or> up_swt rule \<or> up_apikey rule
     \<or> up_jwk_service_ids rule \<noteq> [] \<or> up_sjwk_service_ids rule \<noteq> [] \<or> up_swt_service_ids rule \<noteq> []"

definition validate_factor :: "hmac_validation option \<Rightarrow> string \<Rightarrow> unified_auth_factor \<Rightarrow> (string, unit) result" where
  "validate_factor hmac pfx f =
     (case uf_factor_type f of
        Hmac \<Rightarrow>
          if uf_profile f = []
          then Err (''unified security rule `'' @ pfx @ ''` has an HMAC factor without a profile'')
          else (case hmac of
             None \<Rightarrow> Ok ()
           | Some r \<Rightarrow>
               if \<not> hv_contains_profile r (uf_profile f)
               then Err (''unified security rule `'' @ pfx @ ''` references unknown HMAC profile `''
                      @ uf_profile f @ ''`'')
               else Ok ())
      | Jwt \<Rightarrow>
          if uf_profile f \<noteq> []
          then Err (''unified security JWT factor on `'' @ pfx @ ''` must not declare profile'')
          else Ok ()
      | ApiKey \<Rightarrow>
          if uf_profile f \<noteq> [] \<or> uf_jwk_service_ids f \<noteq> []
          then Err (''unified security API-key factor on `'' @ pfx @ ''` contains unsupported fields'')
          else Ok ())"

definition hmac_factor_count :: "unified_authentication \<Rightarrow> nat" where
  "hmac_factor_count a = length (filter (\<lambda>f. uf_factor_type f = Hmac) (all_of a))"

definition validate_rule :: "(string \<Rightarrow> bool) \<Rightarrow> unified_security_config \<Rightarrow> hmac_validation option \<Rightarrow>
    unified_path_auth \<Rightarrow> (string, unit) result" where
  "validate_rule method_ok config hmac rule =
     rtry (normalize_methods method_ok (up_methods rule)) (\<lambda>_.
     case up_authentication rule of
       None \<Rightarrow> Ok ()
     | Some a \<Rightarrow>
         if rule_uses_legacy_fields rule
         then Err (''unified security rule `'' @ up_prefix rule
                @ ''` mixes legacy authentication fields with authentication.allOf'')
         else if up_prefix rule = []
         then Err ''composed unified security rule prefix must not be empty''
         else if all_of a = []
         then Err (''unified security rule `'' @ up_prefix rule @ ''` authentication.allOf must not be empty'')
         else if hmac_factor_count a \<noteq> 1 \<or> length (all_of a) - hmac_factor_count a > 1
         then Err (''unified security rule `'' @ up_prefix rule
                @ ''` requires exactly one HMAC factor and at most one JWT or API-key factor'')
         else
           rtry (try_each (validate_factor hmac (up_prefix rule)) (all_of a)) (\<lambda>_.
           rtry (case hmac of
                   None \<Rightarrow> Ok False
                 | Some r \<Rightarrow> hv_standalone_policy_overlaps r (up_prefix rule) (up_methods rule)) (\<lambda>overlaps.
           if overlaps
           then Err (''standalone and unified-security HMAC policies overlap at prefix `'' @ up_prefix rule @ ''`'')
           else if list_ex (\<lambda>anonymous. starts_with anonymous (up_prefix rule)
                     \<or> starts_with (up_prefix rule) anonymous) (us_anonymous_prefixes config)
           then Err (''HMAC-protected unified security rule `'' @ up_prefix rule @ ''` overlaps anonymousPrefixes'')
           else Ok ())))"

definition validate_hmac_fallthrough_between :: "(string \<Rightarrow> bool) \<Rightarrow> string \<Rightarrow> string list \<Rightarrow> string \<Rightarrow>
    string list \<Rightarrow> (string, unit) result" where
  "validate_hmac_fallthrough_between method_ok hmac_prefix hmac_methods non_hmac_prefix non_hmac_methods =
     (if hmac_prefix = non_hmac_prefix
         \<or> \<not> (starts_with hmac_prefix non_hmac_prefix \<or> starts_with non_hmac_prefix hmac_prefix)
      then Ok ()
      else if length non_hmac_prefix > length hmac_prefix
      then rtry (methods_overlap method_ok hmac_methods non_hmac_methods) (\<lambda>overlap.
             if overlap
             then Err (''more-specific non-HMAC rule `'' @ non_hmac_prefix @ ''` shadows HMAC rule `''
                    @ hmac_prefix @ ''`'')
             else Ok ())
      else rtry (methods_cover method_ok hmac_methods non_hmac_methods) (\<lambda>cover.
             if \<not> cover
             then Err (''non-HMAC ancestor `'' @ non_hmac_prefix
                    @ ''` permits methods that fall through around HMAC rule `'' @ hmac_prefix @ ''`'')
             else Ok ()))"

definition validate_hmac_fallthrough :: "(string \<Rightarrow> bool) \<Rightarrow> unified_path_auth \<Rightarrow> unified_path_auth \<Rightarrow>
    (string, unit) result" where
  "validate_hmac_fallthrough method_ok left right =
     (if rule_requires_hmac left = rule_requires_hmac right \<or> up_prefix left = up_prefix right
         \<or> \<not> (starts_with (up_prefix left) (up_prefix right) \<or> starts_with (up_prefix right) (up_prefix left))
      then Ok ()
      else case (if rule_requires_hmac left then (left, right) else (right, left)) of
        (hmac, non_hmac) \<Rightarrow>
          validate_hmac_fallthrough_between method_ok (up_prefix hmac) (up_methods hmac)
            (up_prefix non_hmac) (up_methods non_hmac))"

definition validate_pair :: "(string \<Rightarrow> bool) \<Rightarrow> unified_path_auth \<Rightarrow> unified_path_auth \<Rightarrow>
    (string, unit) result" where
  "validate_pair method_ok left right =
     rtry (if up_prefix left = up_prefix right
           then methods_overlap method_ok (up_methods left) (up_methods right) else Ok False) (\<lambda>duplicate.
     if duplicate
     then Err (''duplicate unified security rules for prefix `'' @ up_prefix left @ ''` have overlapping methods'')
     else validate_hmac_fallthrough method_ok left right)"

fun validate_pairs :: "(string \<Rightarrow> bool) \<Rightarrow> unified_path_auth list \<Rightarrow> (string, unit) result" where
  "validate_pairs method_ok [] = Ok ()"
| "validate_pairs method_ok (left # rest) =
     rtry (try_each (validate_pair method_ok left) rest) (\<lambda>_. validate_pairs method_ok rest)"

definition validate_standalone :: "(string \<Rightarrow> bool) \<Rightarrow> hmac_route \<Rightarrow> unified_path_auth \<Rightarrow>
    (string, unit) result" where
  "validate_standalone method_ok standalone unified =
     (if rule_requires_hmac unified then Ok ()
      else
        rtry (if hr_prefix standalone = up_prefix unified
              then methods_overlap method_ok (hr_methods standalone) (up_methods unified)
              else Ok False) (\<lambda>overlap.
        if overlap
        then Err (''standalone HMAC and non-HMAC unified-security policies overlap at prefix `''
               @ hr_prefix standalone @ ''`'')
        else validate_hmac_fallthrough_between method_ok (hr_prefix standalone) (hr_methods standalone)
               (up_prefix unified) (up_methods unified)))"

definition validate_unified_security_config :: "(string \<Rightarrow> bool) \<Rightarrow> unified_security_config \<Rightarrow>
    hmac_validation option \<Rightarrow> (string, unit) result" where
  "validate_unified_security_config method_ok config hmac =
     (let standalone_routes = (case hmac of None \<Rightarrow> [] | Some r \<Rightarrow> hv_standalone_routes r) in
      if \<not> requires_hmac config \<and> standalone_routes = [] then Ok ()
      else
        rtry (try_each (validate_rule method_ok config hmac) (us_path_prefix_auths config)) (\<lambda>_.
        rtry (validate_pairs method_ok (us_path_prefix_auths config)) (\<lambda>_.
        try_each (\<lambda>standalone. try_each (validate_standalone method_ok standalone)
          (us_path_prefix_auths config)) standalone_routes)))"

section \<open>What validation establishes\<close>

lemma normalize_into_set:
  "normalize_into ok ms acc = Ok r \<Longrightarrow> set r = set acc \<union> (\<lambda>m. to_ascii_uppercase (trim m)) ` set ms"
  by (induction ok ms acc rule: normalize_into.induct) (auto simp: Let_def split: if_splits)

lemma normalize_methods_set:
  "normalize_methods ok ms = Ok r \<Longrightarrow> set r = (\<lambda>m. to_ascii_uppercase (trim m)) ` set ms"
  unfolding normalize_methods_def by (drule normalize_into_set) simp

lemma to_ascii_uppercase_idem [simp]: "to_ascii_uppercase (to_ascii_uppercase s) = to_ascii_uppercase s"
  by (metis to_ascii_lowercase_upper to_ascii_uppercase_lower)

lemma method_matches_iff:
  "method_matches m rule \<longleftrightarrow>
     up_methods rule = [] \<or> (\<exists>e \<in> set (up_methods rule). to_ascii_uppercase e = to_ascii_uppercase m)"
  by (simp add: method_matches_def eq_ignore_ascii_case_upper_iff list_ex_iff)

lemma method_matches_normalized:
  assumes "method_matches m rule" and "up_methods rule \<noteq> []"
    and "normalize_methods ok (up_methods rule) = Ok r"
  shows "trim (to_ascii_uppercase m) \<in> set r"
proof -
  obtain e where "e \<in> set (up_methods rule)" "to_ascii_uppercase e = to_ascii_uppercase m"
    using assms(1,2) by (auto simp: method_matches_iff)
  then have "to_ascii_uppercase (trim e) = trim (to_ascii_uppercase m)" by (simp flip: trim_upper)
  with \<open>e \<in> _\<close> show ?thesis using normalize_methods_set [OF assms(3)] by force
qed

lemma methods_overlap_both:
  assumes "method_matches m a" and "method_matches m b"
    and "methods_overlap ok (up_methods a) (up_methods b) = Ok overlap"
  shows overlap
proof -
  obtain l r where n: "normalize_methods ok (up_methods a) = Ok l" "normalize_methods ok (up_methods b) = Ok r"
    and o: "overlap = (l = [] \<or> r = [] \<or> list_ex (\<lambda>m. m \<in> set r) l)"
    using assms(3) by (auto simp: methods_overlap_def rtry_eq_Ok_iff)
  show ?thesis
  proof (cases "up_methods a = [] \<or> up_methods b = []")
    case True
    then show ?thesis using normalize_methods_set [OF n(1)] normalize_methods_set [OF n(2)] by (auto simp: o)
  next
    case False
    then show ?thesis
      using method_matches_normalized [OF assms(1) _ n(1)] method_matches_normalized [OF assms(2) _ n(2)]
      by (auto simp: o list_ex_iff)
  qed
qed

lemma validate_pairs_in:
  "validate_pairs ok rs = Ok () \<Longrightarrow> a \<in> set rs \<Longrightarrow> b \<in> set rs \<Longrightarrow> a \<noteq> b \<Longrightarrow>
     validate_pair ok a b = Ok () \<or> validate_pair ok b a = Ok ()"
  by (induction rs) (auto simp: rtry_eq_Ok_iff try_each_Ok_iff)

lemma validate_unified_Ok:
  assumes "validate_unified_security_config ok config hmac = Ok ()" and "requires_hmac config"
  shows "(\<forall>rule \<in> set (us_path_prefix_auths config). validate_rule ok config hmac rule = Ok ())
     \<and> validate_pairs ok (us_path_prefix_auths config) = Ok ()"
  using assms
  by (auto simp: validate_unified_security_config_def Let_def rtry_eq_Ok_iff try_each_Ok_iff)

lemma requires_hmac_rule:
  "h \<in> set (us_path_prefix_auths config) \<Longrightarrow> rule_requires_hmac h \<Longrightarrow> requires_hmac config"
  by (auto simp: requires_hmac_def list_ex_iff)

text \<open>What the pairwise checks say of an HMAC rule \<open>h\<close> and a non-HMAC rule \<open>r\<close>.\<close>

lemma validate_pair_Ok:
  "validate_pair ok a b = Ok () \<Longrightarrow>
     (up_prefix a = up_prefix b \<longrightarrow> methods_overlap ok (up_methods a) (up_methods b) = Ok False)
     \<and> validate_hmac_fallthrough ok a b = Ok ()"
  by (auto simp: validate_pair_def rtry_eq_Ok_iff split: if_splits)

lemma validate_hmac_fallthrough_Ok:
  assumes "validate_hmac_fallthrough ok a b = Ok ()" and "a = h \<and> b = r \<or> a = r \<and> b = h"
    and "rule_requires_hmac h" and "\<not> rule_requires_hmac r"
  shows "validate_hmac_fallthrough_between ok (up_prefix h) (up_methods h) (up_prefix r) (up_methods r) = Ok ()"
proof (cases "up_prefix h = up_prefix r
    \<or> \<not> (starts_with (up_prefix h) (up_prefix r) \<or> starts_with (up_prefix r) (up_prefix h))")
  case True
  then show ?thesis by (simp add: validate_hmac_fallthrough_between_def)
next
  case False
  from assms(2) show ?thesis
  proof
    assume "a = h \<and> b = r"
    with False assms show ?thesis by (simp add: validate_hmac_fallthrough_def)
  next
    assume "a = r \<and> b = h"
    with False assms show ?thesis by (simp add: validate_hmac_fallthrough_def disj_commute eq_commute)
  qed
qed

lemma validated_pair:
  assumes "validate_unified_security_config ok config hmac = Ok ()"
    and "h \<in> set (us_path_prefix_auths config)" and "rule_requires_hmac h"
    and "r \<in> set (us_path_prefix_auths config)" and "\<not> rule_requires_hmac r"
  shows "(up_prefix h = up_prefix r \<longrightarrow>
       methods_overlap ok (up_methods h) (up_methods r) = Ok False
       \<or> methods_overlap ok (up_methods r) (up_methods h) = Ok False)
     \<and> validate_hmac_fallthrough_between ok (up_prefix h) (up_methods h) (up_prefix r) (up_methods r) = Ok ()"
proof -
  have "h \<noteq> r" using assms(3,5) by blast
  have "validate_pairs ok (us_path_prefix_auths config) = Ok ()"
    using validate_unified_Ok [OF assms(1) requires_hmac_rule [OF assms(2,3)]] by blast
  from validate_pairs_in [OF this assms(2,4) \<open>h \<noteq> r\<close>] show ?thesis
  proof
    assume "validate_pair ok h r = Ok ()"
    from validate_pair_Ok [OF this] show ?thesis
      using validate_hmac_fallthrough_Ok [of ok h r h r] assms(3,5) by simp
  next
    assume "validate_pair ok r h = Ok ()"
    from validate_pair_Ok [OF this] show ?thesis
      using validate_hmac_fallthrough_Ok [of ok r h h r] assms(3,5) by simp
  qed
qed

text \<open>A request that an HMAC rule covers is never handed to a rule without HMAC.\<close>

lemma hmac_not_shadowed:
  assumes valid: "validate_unified_security_config ok config hmac = Ok ()"
    and h: "h \<in> set (us_path_prefix_auths config)" "rule_requires_hmac h"
    and match: "starts_with path (up_prefix h)" "method_matches m h"
  shows "\<exists>r. best_auth_rule config path m = Some r \<and> rule_requires_hmac r"
proof -
  obtain r where r: "best_auth_rule config path m = Some r"
    using auth_rules.select_complete [OF h(1) match] by blast
  have sound: "r \<in> set (us_path_prefix_auths config)" "starts_with path (up_prefix r)" "method_matches m r"
    using auth_rules.select_sound [OF r] by blast+
  have ext: "prefix (up_prefix h) (up_prefix r)"
    using auth_rules.select_extends [OF r h(1) match] .
  have "rule_requires_hmac r"
  proof (rule ccontr)
    assume nh: "\<not> rule_requires_hmac r"
    note pair = validated_pair [OF valid h sound(1) nh]
    show False
    proof (cases "up_prefix h = up_prefix r")
      case True
      with pair show False using methods_overlap_both [OF match(2) sound(3)]
          methods_overlap_both [OF sound(3) match(2)] by blast
    next
      case False
      with ext have "length (up_prefix h) < length (up_prefix r)"
        by (metis prefix_length_le le_neq_implies_less prefix_order.antisym prefix_length_prefix sound(2) match(1) order_refl)
      with pair False ext have "methods_overlap ok (up_methods h) (up_methods r) = Ok False"
        by (auto simp: validate_hmac_fallthrough_between_def rtry_eq_Ok_iff split: if_splits)
      with methods_overlap_both [OF match(2) sound(3)] show False by blast
    qed
  qed
  with r show ?thesis by blast
qed

lemma hmac_not_anonymous:
  assumes "validate_unified_security_config ok config hmac = Ok ()"
    and "h \<in> set (us_path_prefix_auths config)" and "rule_requires_hmac h"
    and "starts_with path (up_prefix h)"
  shows "\<not> is_anonymous config path"
proof
  assume "is_anonymous config path"
  then obtain a where a: "a \<in> set (us_anonymous_prefixes config)" "starts_with path a"
    by (auto simp: is_anonymous_def list_ex_iff)
  with assms(4) have "prefix a (up_prefix h) \<or> prefix (up_prefix h) a"
    by (blast dest: prefix_same_cases)
  moreover have "validate_rule ok config hmac h = Ok ()"
    using validate_unified_Ok [OF assms(1) requires_hmac_rule [OF assms(2,3)]] assms(2) by blast
  ultimately show False
    using a(1) assms(3)
    by (auto simp: validate_rule_def rtry_eq_Ok_iff rule_requires_hmac_def list_ex_iff
        split: option.splits if_splits)
qed

text \<open>A composed policy reports the profile of its last HMAC factor.\<close>

lemma verify_factors_hmac:
  "verify_factors env api rt path fs out s = (Ok out', s') \<Longrightarrow>
     uo_hmac_profile out' =
       (case rev (filter (\<lambda>f. uf_factor_type f = Hmac) fs) of
          [] \<Rightarrow> uo_hmac_profile out
        | f # _ \<Rightarrow> Some (uf_profile f))"
proof (induction fs arbitrary: out s)
  case (Cons f fs)
  show ?case
  proof (cases "uf_factor_type f")
    case Hmac
    with Cons.prems Cons.IH [of "out\<lparr>uo_hmac_profile := Some (uf_profile f)\<rparr>" s] show ?thesis
      by (simp split: list.splits)
  next
    case Jwt
    with Cons.prems obtain r p s1 where
      "verify_factors env api rt path fs (out\<lparr>uo_principal := Some p\<rparr>) s1 = (Ok out', s')"
      by (auto split: option.splits prod.splits sum.splits)
    from Cons.IH [OF this] Jwt show ?thesis by (simp split: list.splits)
  next
    case ApiKey
    with Cons.prems have "verify_factors env api rt path fs out s = (Ok out', s')"
      by (auto split: option.splits sum.splits)
    from Cons.IH [OF this] ApiKey show ?thesis by simp
  qed
qed simp

lemma validated_hmac_factor:
  assumes "validate_rule ok config hmac rule = Ok ()" and "up_authentication rule = Some a"
  obtains f where "filter (\<lambda>f. uf_factor_type f = Hmac) (all_of a) = [f]" "uf_profile f \<noteq> []"
proof -
  have one: "hmac_factor_count a = 1" and each: "\<forall>f \<in> set (all_of a). validate_factor hmac (up_prefix rule) f = Ok ()"
    using assms by (auto simp: validate_rule_def rtry_eq_Ok_iff try_each_Ok_iff split: if_splits)
  from one obtain f where f: "filter (\<lambda>f. uf_factor_type f = Hmac) (all_of a) = [f]"
    by (auto simp: hmac_factor_count_def length_Suc_conv)
  then have "f \<in> set (filter (\<lambda>f. uf_factor_type f = Hmac) (all_of a))" by simp
  then have "f \<in> set (all_of a)" "uf_factor_type f = Hmac" by simp_all
  with each have "uf_profile f \<noteq> []" by (auto simp: validate_factor_def split: if_splits)
  with f show ?thesis by (rule that)
qed

lemma find_filter: "find P xs = (case filter P xs of [] \<Rightarrow> None | x # _ \<Rightarrow> Some x)"
  by (induction xs) auto

section \<open>Properties\<close>

text \<open>C19: HMAC protection cannot be bypassed.  Under a configuration that passed start-up
  validation, a request on a path and with a method that some HMAC rule covers is never
  treated as anonymous and never handed to a rule without HMAC: if it is let through to body
  verification at all, the outcome demands verification with a configured, non-empty HMAC
  profile, the one announced for the path and method.\<close>

theorem hmac_rule_always_demanded:
  assumes valid: "validate_unified_security_config ok config hmac = Ok ()" and "us_enabled config"
    and h: "h \<in> set (us_path_prefix_auths config)" "rule_requires_hmac h"
    and match: "starts_with path (up_prefix h)" "method_matches m h"
    and verified: "verify_unified_security env config basic api rt path m s = (Ok outcome, s')"
  shows "\<exists>p. uo_hmac_profile outcome = Some p \<and> p \<noteq> [] \<and> hmac_profile_for config path m = Some p"
proof -
  obtain r where r: "best_auth_rule config path m = Some r" "rule_requires_hmac r"
    using hmac_not_shadowed [OF valid h match] by blast
  then obtain a where a: "up_authentication r = Some a"
    by (auto simp: rule_requires_hmac_def split: option.splits)
  have "r \<in> set (us_path_prefix_auths config)" using auth_rules.select_sound [OF r(1)] by blast
  then have "validate_rule ok config hmac r = Ok ()"
    using validate_unified_Ok [OF valid requires_hmac_rule [OF h]] by blast
  then obtain f where f: "filter (\<lambda>f. uf_factor_type f = Hmac) (all_of a) = [f]" "uf_profile f \<noteq> []"
    using a by (rule validated_hmac_factor)
  have "verify_factors env api rt path (all_of a) outcome_default s = (Ok outcome, s')"
    using verified assms(2) hmac_not_anonymous [OF valid h match(1)] r(1) a
    by (simp add: verify_unified_security_def verify_composed_security_def)
  from verify_factors_hmac [OF this] f have "uo_hmac_profile outcome = Some (uf_profile f)" by simp
  moreover have "hmac_profile_for config path m = Some (uf_profile f)"
    using r(1) a f(1) by (simp add: hmac_profile_for_def find_filter)
  ultimately show ?thesis using f(2) by simp
qed

definition example_hook :: unified_path_auth where
  "example_hook = unified_path_auth_default\<lparr>up_prefix := ''/hook'', up_methods := [''POST''],
     up_authentication := Some \<lparr>all_of =
       [\<lparr>uf_factor_type = Hmac, uf_profile = ''github'', uf_jwk_service_ids = []\<rparr>]\<rparr>\<rparr>"

definition example_unified :: unified_security_config where
  "example_unified = \<lparr>us_enabled = True, us_anonymous_prefixes = [''/public''], us_path_prefix_auths =
     [unified_path_auth_default\<lparr>up_prefix := ''/'', up_methods := [''POST''], up_jwt := True\<rparr>, example_hook]\<rparr>"

definition example_env :: "(request_head, unit) unified_env" where
  "example_env = \<lparr>ue_head = (\<lambda>s. s), ue_verify_jwt = (\<lambda>_ _ _ s. (Ok None, s)),
     ue_hash_ops = \<lparr>ho_hex_decode = Some, ho_pbkdf2 = (\<lambda>_ _ _ _. [])\<rparr>, ue_base64_utf8 = Some,
     ue_url_safe_no_pad = Some, ue_url_safe = Some, ue_json = (\<lambda>_. None)\<rparr>"

definition example_head :: request_head where
  "example_head = \<lparr>rh_headers = (\<lambda>_. []), rh_method = ''POST''\<rparr>"

lemma example_unified_facts:
  "validate_unified_security_config (\<lambda>_. True) example_unified None = Ok ()"
  "us_enabled example_unified" "rule_requires_hmac example_hook"
  "starts_with ''/hook/1'' (up_prefix example_hook)" "method_matches ''post'' example_hook"
  "fst (verify_unified_security example_env example_unified None None None ''/hook/1'' ''post'' example_head)
     = Ok \<lparr>uo_principal = None, uo_hmac_profile = Some ''github''\<rparr>"
  by code_simp+

theorem hmac_rule_always_demanded_witness:
  "hmac_profile_for example_unified ''/hook/1'' ''post'' = Some ''github''"
proof -
  have "example_hook \<in> set (us_path_prefix_auths example_unified)" by (simp add: example_unified_def)
  moreover obtain s' where "verify_unified_security example_env example_unified None None None
      ''/hook/1'' ''post'' example_head = (Ok \<lparr>uo_principal = None, uo_hmac_profile = Some ''github''\<rparr>, s')"
    using example_unified_facts(6) by (metis prod.collapse)
  ultimately show ?thesis
    using hmac_rule_always_demanded [OF example_unified_facts(1,2) _ example_unified_facts(3-5)] by force
qed

text \<open>C12: No fall-through around an HMAC rule.  Under a validated configuration whose HMAC rule
  lists its methods without surrounding white space, a request on a path below the rule's
  prefix is never served by a rule without HMAC whose prefix is a proper ancestor of that
  prefix, whatever its method.\<close>

theorem hmac_no_fallthrough_to_ancestor:
  assumes valid: "validate_unified_security_config ok config hmac = Ok ()"
    and h: "h \<in> set (us_path_prefix_auths config)" "rule_requires_hmac h"
    and path: "starts_with path (up_prefix h)"
    and trimmed: "\<forall>e \<in> set (up_methods h). trim e = e" and token: "trim m = m"
    and r: "best_auth_rule config path m = Some r" "\<not> rule_requires_hmac r"
  shows "\<not> strict_prefix (up_prefix r) (up_prefix h)"
proof
  assume anc: "strict_prefix (up_prefix r) (up_prefix h)"
  have sound: "r \<in> set (us_path_prefix_auths config)" "method_matches m r"
    using auth_rules.select_sound [OF r(1)] by blast+
  have "\<not> method_matches m h"
    using auth_rules.select_extends [OF r(1) h(1) path] anc by (auto simp: strict_prefix_def)
  then have unmatched: "up_methods h \<noteq> []" "\<forall>e \<in> set (up_methods h). to_ascii_uppercase e \<noteq> to_ascii_uppercase m"
    by (auto simp: method_matches_iff)
  have "methods_cover ok (up_methods h) (up_methods r) = Ok True"
    using validated_pair [OF valid h sound(1) r(2)] anc prefix_length_less [OF anc]
    by (auto simp: validate_hmac_fallthrough_between_def rtry_eq_Ok_iff strict_prefix_def split: if_splits)
  then obtain l n where norm: "normalize_methods ok (up_methods h) = Ok l"
      "normalize_methods ok (up_methods r) = Ok n" and cover: "l = [] \<or> n \<noteq> [] \<and> set n \<subseteq> set l"
    by (auto simp: methods_cover_def rtry_eq_Ok_iff list_all_iff split: if_splits)
  have l: "set l = to_ascii_uppercase ` set (up_methods h)"
    using normalize_methods_set [OF norm(1)] trimmed by simp
  with unmatched(1) cover have n: "n \<noteq> []" "set n \<subseteq> set l" by auto
  have "up_methods r \<noteq> []" using normalize_methods_set [OF norm(2)] n(1) by auto
  from method_matches_normalized [OF sound(2) this norm(2)] n(2)
  have "trim (to_ascii_uppercase m) \<in> set l" by blast
  then have "to_ascii_uppercase m \<in> to_ascii_uppercase ` set (up_methods h)" using l token by (simp add: trim_upper)
  with unmatched(2) show False by auto
qed

theorem hmac_no_fallthrough_to_ancestor_witness:
  "\<not> strict_prefix (up_prefix (unified_path_auth_default\<lparr>up_prefix := ''/hook'', up_methods := [''GET''], up_jwt := True\<rparr>))
     (up_prefix example_hook)"
proof -
  let ?r = "unified_path_auth_default\<lparr>up_prefix := ''/hook'', up_methods := [''GET''], up_jwt := True\<rparr>"
  let ?c = "\<lparr>us_enabled = True, us_anonymous_prefixes = [], us_path_prefix_auths = [?r, example_hook]\<rparr>"
  have "validate_unified_security_config (\<lambda>_. True) ?c None = Ok ()" by code_simp
  moreover have "best_auth_rule ?c ''/hook/1'' ''GET'' = Some ?r" by code_simp
  moreover have "\<not> rule_requires_hmac ?r" by code_simp
  moreover have "\<forall>e \<in> set (up_methods example_hook). trim e = e" by code_simp
  moreover have "trim ''GET'' = ''GET''" by code_simp
  ultimately show ?thesis
    using hmac_no_fallthrough_to_ancestor [of "\<lambda>_. True" ?c None example_hook "''/hook/1''" "''GET''" ?r]
      example_unified_facts(3,4) by simp
qed


end
