(* ===== verification/Llm_Error.thy ===== *)
theory Llm_Error
  imports Rust_Strings
begin

text \<open>
  The errors of the LLM path: \<open>crates/model-provider/src/inference/error.rs\<close> (the provider
  errors, with the evidence whether the provider accepted the request and whether a retry is
  safe) and \<open>crates/llm-gateway/src/error.rs\<close> (the gateway errors and their public status).
  The date parser of chrono is an argument: it gives the instant in nanoseconds since the epoch.
\<close>

section \<open>Provider errors\<close>

datatype inference_error_category =
  InvalidRequestCategory | Authentication | PermissionDenied | RateLimited | TimeoutBeforeAcceptance
  | TimeoutAfterPossibleAcceptance | ProviderOverload | Network | SecurityInvariant | Protocol
  | Cancelled | UnsupportedFeature

datatype retry_disposition = NeverRetry | SafeRetry | ConditionalRetry

datatype acceptance_evidence = NotAccepted | PossiblyAccepted | Accepted

record inference_error =
  ie_category :: inference_error_category
  ie_provider_status :: "nat option"
  ie_retry :: retry_disposition
  ie_acceptance :: acceptance_evidence
  ie_retry_after_ms :: "nat option"
  ie_detail :: string

definition invalid_request :: "string \<Rightarrow> inference_error" where
  "invalid_request detail =
     \<lparr>ie_category = InvalidRequestCategory, ie_provider_status = None, ie_retry = NeverRetry,
      ie_acceptance = NotAccepted, ie_retry_after_ms = None, ie_detail = detail\<rparr>"

definition model_not_found :: "nat \<Rightarrow> string \<Rightarrow> inference_error" where
  "model_not_found status detail =
     \<lparr>ie_category = InvalidRequestCategory, ie_provider_status = Some status, ie_retry = SafeRetry,
      ie_acceptance = NotAccepted, ie_retry_after_ms = None, ie_detail = detail\<rparr>"

definition unsupported :: "string \<Rightarrow> inference_error" where
  "unsupported detail =
     \<lparr>ie_category = UnsupportedFeature, ie_provider_status = None, ie_retry = NeverRetry,
      ie_acceptance = NotAccepted, ie_retry_after_ms = None, ie_detail = detail\<rparr>"

definition cancelled :: inference_error where
  "cancelled =
     \<lparr>ie_category = Cancelled, ie_provider_status = None, ie_retry = NeverRetry,
      ie_acceptance = PossiblyAccepted, ie_retry_after_ms = None,
      ie_detail = ''provider request cancelled''\<rparr>"

definition timeout_before_acceptance :: inference_error where
  "timeout_before_acceptance =
     \<lparr>ie_category = TimeoutBeforeAcceptance, ie_provider_status = None, ie_retry = SafeRetry,
      ie_acceptance = NotAccepted, ie_retry_after_ms = None,
      ie_detail = ''provider timed out before acceptance''\<rparr>"

definition timeout_after_possible_acceptance :: inference_error where
  "timeout_after_possible_acceptance =
     \<lparr>ie_category = TimeoutAfterPossibleAcceptance, ie_provider_status = None, ie_retry = ConditionalRetry,
      ie_acceptance = PossiblyAccepted, ie_retry_after_ms = None,
      ie_detail = ''provider timed out after possible acceptance''\<rparr>"

definition network :: "string \<Rightarrow> inference_error" where
  "network detail =
     \<lparr>ie_category = Network, ie_provider_status = None, ie_retry = ConditionalRetry,
      ie_acceptance = PossiblyAccepted, ie_retry_after_ms = None, ie_detail = detail\<rparr>"

definition security_invariant :: "string \<Rightarrow> inference_error" where
  "security_invariant detail =
     \<lparr>ie_category = SecurityInvariant, ie_provider_status = None, ie_retry = NeverRetry,
      ie_acceptance = NotAccepted, ie_retry_after_ms = None, ie_detail = detail\<rparr>"

definition provider_protocol :: "nat option \<Rightarrow> string \<Rightarrow> inference_error" where
  "provider_protocol status detail =
     \<lparr>ie_category = Protocol, ie_provider_status = status, ie_retry = NeverRetry,
      ie_acceptance = PossiblyAccepted, ie_retry_after_ms = None, ie_detail = detail\<rparr>"

definition protocol :: "string \<Rightarrow> inference_error" where
  "protocol detail = provider_protocol None detail"

definition parse_retry_after :: "(string \<Rightarrow> int option) \<Rightarrow> int \<Rightarrow> string \<Rightarrow> nat option" where
  "parse_retry_after parse_from_rfc2822 now value =
     (case parse_uint u64_max (trim value) of
        Some seconds \<Rightarrow> checked_mul seconds 1000
      | None \<Rightarrow>
          (case parse_from_rfc2822 (trim value) of
             None \<Rightarrow> None
           | Some target \<Rightarrow>
               (let ms = nat (max 0 (target - now)) div 1000000
                in if ms \<le> u64_max then Some ms else None)))"

definition status_class :: "nat \<Rightarrow> inference_error_category \<times> retry_disposition \<times> acceptance_evidence" where
  "status_class status =
     (if status \<in> {400, 404, 409, 422} then (InvalidRequestCategory, NeverRetry, NotAccepted)
      else if status = 401 then (Authentication, NeverRetry, NotAccepted)
      else if status = 403 then (PermissionDenied, NeverRetry, NotAccepted)
      else if status = 429 then (RateLimited, SafeRetry, NotAccepted)
      else if 500 \<le> status \<and> status \<le> 599 then (ProviderOverload, ConditionalRetry, PossiblyAccepted)
      else (Protocol, NeverRetry, PossiblyAccepted))"

definition from_status :: "(string \<Rightarrow> int option) \<Rightarrow> int \<Rightarrow> nat \<Rightarrow> string option \<Rightarrow> string \<Rightarrow>
    inference_error" where
  "from_status parse_from_rfc2822 now status retry_after detail =
     (case status_class status of (category, retry, acceptance) \<Rightarrow>
        \<lparr>ie_category = category, ie_provider_status = Some status, ie_retry = retry,
         ie_acceptance = acceptance,
         ie_retry_after_ms =
           (case retry_after of None \<Rightarrow> None | Some v \<Rightarrow> parse_retry_after parse_from_rfc2822 now v),
         ie_detail = detail\<rparr>)"

definition retryable :: "inference_error \<Rightarrow> bool" where
  "retryable e \<longleftrightarrow> ie_retry e = SafeRetry"

text \<open>The errors that the constructors of \<open>InferenceError\<close> build.\<close>

inductive constructed_error :: "inference_error \<Rightarrow> bool" where
  "constructed_error (invalid_request d)"
| "constructed_error (model_not_found s d)"
| "constructed_error (unsupported d)"
| "constructed_error cancelled"
| "constructed_error timeout_before_acceptance"
| "constructed_error timeout_after_possible_acceptance"
| "constructed_error (network d)"
| "constructed_error (security_invariant d)"
| "constructed_error (provider_protocol ps d)"
| "constructed_error (protocol d)"
| "constructed_error (from_status pd now s ra d)"

lemmas inference_error_defs = invalid_request_def model_not_found_def unsupported_def cancelled_def
  timeout_before_acceptance_def timeout_after_possible_acceptance_def network_def
  security_invariant_def provider_protocol_def protocol_def

lemma from_status_retryable_iff: "retryable (from_status pd now s ra d) \<longleftrightarrow> s = 429"
  by (auto simp: retryable_def from_status_def status_class_def)

lemma from_status_acceptance:
  "ie_acceptance (from_status pd now s ra d) =
     (if s \<in> {400, 401, 403, 404, 409, 422, 429} then NotAccepted else PossiblyAccepted)"
  by (simp add: from_status_def status_class_def)

text \<open>An error that may be retried on another deployment carries the evidence that the
  provider did not accept the request: no retry can do the work twice.\<close>

theorem retryable_never_accepted:
  assumes "constructed_error e" and "retryable e"
  shows "ie_acceptance e = NotAccepted"
  using assms
  by cases (auto simp: from_status_retryable_iff from_status_acceptance,
            simp_all add: retryable_def inference_error_defs)

theorem retryable_never_accepted_witness:
  "retryable (from_status (\<lambda>_. None) 0 429 (Some ''3'') ''limited'')
   \<and> ie_acceptance (from_status (\<lambda>_. None) 0 429 (Some ''3'') ''limited'') = NotAccepted
   \<and> ie_retry_after_ms (from_status (\<lambda>_. None) 0 429 (Some ''3'') ''limited'') = Some 3000"
proof (intro conjI)
  show r: "retryable (from_status (\<lambda>_. None) 0 429 (Some ''3'') ''limited'')"
    by (simp add: from_status_retryable_iff)
  show "ie_acceptance (from_status (\<lambda>_. None) 0 429 (Some ''3'') ''limited'') = NotAccepted"
    by (rule retryable_never_accepted [OF _ r]) (rule constructed_error.intros)
  show "ie_retry_after_ms (from_status (\<lambda>_. None) 0 429 (Some ''3'') ''limited'') = Some 3000"
    by code_simp
qed

section \<open>Gateway errors\<close>

datatype reasoning_seal_error =
  SealDisabled | SealTooLarge | SealTooManyItems | SealInvalid | SealRequired | SealTampered | SealStale
  | SealRouteUnavailable | SealKeyUnavailable | SealKeyConfigInvalid

definition seal_code :: "reasoning_seal_error \<Rightarrow> string" where
  "seal_code e =
     (case e of
        SealDisabled \<Rightarrow> ''reasoning_state_disabled''
      | SealTooLarge \<Rightarrow> ''reasoning_state_too_large''
      | SealTooManyItems \<Rightarrow> ''reasoning_state_too_many_items''
      | SealInvalid \<Rightarrow> ''reasoning_state_invalid''
      | SealRequired \<Rightarrow> ''reasoning_state_required''
      | SealTampered \<Rightarrow> ''reasoning_state_tampered''
      | SealStale \<Rightarrow> ''reasoning_state_stale''
      | SealRouteUnavailable \<Rightarrow> ''reasoning_route_unavailable''
      | SealKeyUnavailable \<Rightarrow> ''reasoning_key_unavailable''
      | SealKeyConfigInvalid \<Rightarrow> ''reasoning_key_config_invalid'')"

datatype llm_gateway_error =
  ConfigError string | RouteNotFound | AliasNotFound | UnsupportedCapability string | NoReadyDeployment
  | Invariant string | Forbidden | InvalidRequest string | MethodNotAllowed | UnsupportedMediaType
  | PayloadTooLarge | Capacity | Budget | AuditUnavailable | ProviderUnavailable
  | Provider inference_error | ReasoningState reasoning_seal_error

definition provider_public_mapping :: "inference_error_category \<Rightarrow> nat \<times> string" where
  "provider_public_mapping category =
     (case category of
        InvalidRequestCategory \<Rightarrow> (400, ''provider_error'')
      | UnsupportedFeature \<Rightarrow> (400, ''provider_error'')
      | Authentication \<Rightarrow> (502, ''provider_error'')
      | PermissionDenied \<Rightarrow> (502, ''provider_error'')
      | RateLimited \<Rightarrow> (429, ''rate_limit_exceeded'')
      | TimeoutBeforeAcceptance \<Rightarrow> (504, ''provider_error'')
      | TimeoutAfterPossibleAcceptance \<Rightarrow> (504, ''provider_error'')
      | _ \<Rightarrow> (502, ''provider_error''))"

definition seal_public_status :: "reasoning_seal_error \<Rightarrow> nat" where
  "seal_public_status e =
     (case e of
        SealTooLarge \<Rightarrow> 413
      | SealRouteUnavailable \<Rightarrow> 409
      | SealKeyUnavailable \<Rightarrow> 503 | SealKeyConfigInvalid \<Rightarrow> 503 | SealDisabled \<Rightarrow> 503
      | _ \<Rightarrow> 400)"

definition public_mapping :: "llm_gateway_error \<Rightarrow> nat \<times> string" where
  "public_mapping e =
     (case e of
        InvalidRequest _ \<Rightarrow> (400, ''invalid_request'')
      | MethodNotAllowed \<Rightarrow> (405, ''method_not_allowed'')
      | UnsupportedMediaType \<Rightarrow> (415, ''unsupported_media_type'')
      | PayloadTooLarge \<Rightarrow> (413, ''payload_too_large'')
      | Forbidden \<Rightarrow> (403, ''permission_denied'')
      | RouteNotFound \<Rightarrow> (404, ''route_not_found'')
      | AliasNotFound \<Rightarrow> (404, ''model_not_found'')
      | UnsupportedCapability _ \<Rightarrow> (400, ''unsupported_feature'')
      | NoReadyDeployment \<Rightarrow> (503, ''model_unavailable'')
      | Invariant _ \<Rightarrow> (500, ''internal_error'')
      | Capacity \<Rightarrow> (429, ''capacity_exhausted'')
      | Budget \<Rightarrow> (429, ''budget_exhausted'')
      | Provider err \<Rightarrow> provider_public_mapping (ie_category err)
      | ReasoningState err \<Rightarrow> (seal_public_status err, seal_code err)
      | ConfigError _ \<Rightarrow> (503, ''service_unavailable'')
      | AuditUnavailable \<Rightarrow> (503, ''service_unavailable'')
      | ProviderUnavailable \<Rightarrow> (503, ''service_unavailable''))"

definition public_status :: "llm_gateway_error \<Rightarrow> nat" where
  "public_status e = fst (public_mapping e)"

definition public_code :: "llm_gateway_error \<Rightarrow> string" where
  "public_code e = snd (public_mapping e)"

lemma public_status_error_range: "400 \<le> public_status e \<and> public_status e \<le> 599"
  by (cases e)
    (simp_all add: public_status_def public_mapping_def provider_public_mapping_def seal_public_status_def
      split: inference_error_category.split reasoning_seal_error.split)

end
