(* ===== verification/Llm_Usage.thy ===== *)
theory Llm_Usage
  imports Llm_Error "HOL-Library.Word" "HOL-Library.Multiset"
begin

text \<open>
  The usage ledger of the LLM gateway, \<open>crates/llm-gateway/src/usage/mod.rs\<close>: prices and
  costs, the reservation of a maximum cost against a budget, its reconciliation with the usage
  a provider reports, and the envelope of the most expensive attempts.  The counters are
  atomics that wrap, hence 64-bit words; concurrent callers interleave between the atomic
  operations, which the step relation \<open>ledger_step\<close> describes.
\<close>

section \<open>Prices and costs\<close>

record generation_price =
  gp_version :: nat
  gp_input_micros_per_million :: nat
  gp_output_micros_per_million :: nat

record embedding_price =
  ep_version :: nat
  ep_input_micros_per_million :: nat

datatype operation_price = Generate generation_price | Embed embedding_price

definition price_version :: "operation_price \<Rightarrow> nat" where
  "price_version p = (case p of Generate g \<Rightarrow> gp_version g | Embed e \<Rightarrow> ep_version e)"

definition cost :: "generation_price \<Rightarrow> nat \<Rightarrow> nat \<Rightarrow> nat" where
  "cost price input_tokens output_tokens =
     sat_add (sat_add (sat_mul input_tokens (gp_input_micros_per_million price))
                (sat_mul output_tokens (gp_output_micros_per_million price))) 999999 div 1000000"

definition cost_embedding :: "embedding_price \<Rightarrow> nat \<Rightarrow> nat \<Rightarrow> (llm_gateway_error, nat) result" where
  "cost_embedding price input_tokens output_tokens =
     (if output_tokens \<noteq> 0 then Err (Invariant ''embedding usage reported output tokens'')
      else rtry (ok_or (Invariant ''embedding cost arithmetic overflow'')
             (case checked_mul input_tokens (ep_input_micros_per_million price) of
                None \<Rightarrow> None | Some v \<Rightarrow> checked_add v 999999)) (\<lambda>scaled.
           Ok (scaled div 1000000)))"

definition worst_case_cost :: "generation_price \<Rightarrow> nat \<Rightarrow> nat \<Rightarrow> nat \<Rightarrow> nat" where
  "worst_case_cost price input_tokens output_tokens attempts =
     sat_mul (cost price input_tokens output_tokens) attempts"

fun try_sum :: "nat \<Rightarrow> nat list \<Rightarrow> nat option" where
  "try_sum acc [] = Some acc"
| "try_sum acc (c # cs) = (case checked_add acc c of None \<Rightarrow> None | Some a \<Rightarrow> try_sum a cs)"

definition maximum_attempt_envelope :: "nat list \<Rightarrow> nat \<Rightarrow> nat option" where
  "maximum_attempt_envelope costs max_attempts = try_sum 0 (take max_attempts (rev (sort costs)))"

section \<open>The ledger\<close>

record usage_ledger =
  reserved_micros :: "64 word"
  charged_micros :: "64 word"

definition ledger_default :: usage_ledger where
  "ledger_default = \<lparr>reserved_micros = 0, charged_micros = 0\<rparr>"

record usage_reservation =
  ur_reserved :: nat
  ur_completed :: bool

record reconciled_usage =
  ru_charged_micros :: nat
  ru_complete :: bool
  ru_price_version :: nat

definition reserved_sub :: "nat \<Rightarrow> usage_ledger \<Rightarrow> usage_ledger" where
  "reserved_sub n l = l\<lparr>reserved_micros := reserved_micros l - of_nat n\<rparr>"

definition charged_add :: "nat \<Rightarrow> usage_ledger \<Rightarrow> usage_ledger" where
  "charged_add n l = l\<lparr>charged_micros := charged_micros l + of_nat n\<rparr>"

text \<open>The first atomic step of \<open>reserve\<close>, with the test on the previous value.\<close>

definition reserve_begin :: "nat \<Rightarrow> nat option \<Rightarrow> usage_ledger \<Rightarrow> bool \<times> usage_ledger" where
  "reserve_begin maximum budget l =
     (\<not> (case budget of
           None \<Rightarrow> False
         | Some b \<Rightarrow> sat_add (unat (reserved_micros l)) maximum > b),
      l\<lparr>reserved_micros := reserved_micros l + of_nat maximum\<rparr>)"

definition reserve :: "usage_ledger \<Rightarrow> nat \<Rightarrow> nat option \<Rightarrow>
    (llm_gateway_error, usage_reservation) result \<times> usage_ledger" where
  "reserve l maximum budget =
     (case reserve_begin maximum budget l of
        (True, l') \<Rightarrow> (Ok \<lparr>ur_reserved = maximum, ur_completed = False\<rparr>, l')
      | (False, l') \<Rightarrow> (Err Budget, reserved_sub maximum l'))"

definition drop_reservation :: "usage_reservation \<Rightarrow> usage_ledger \<Rightarrow> usage_ledger" where
  "drop_reservation r l = (if \<not> ur_completed r then reserved_sub (ur_reserved r) l else l)"

record normalized_usage =
  nu_input_tokens :: "nat option"
  nu_output_tokens :: "nat option"
  nu_cached_input_tokens :: "nat option"
  nu_reasoning_tokens :: "nat option"

text \<open>The charge when no complete usage was reported.\<close>

definition ambiguous_charge :: "usage_reservation \<Rightarrow> acceptance_evidence \<Rightarrow> nat \<Rightarrow> nat \<times> bool" where
  "ambiguous_charge r acceptance bound =
     (if acceptance = NotAccepted then (0, True)
      else if ur_reserved r = 0 then (0, False)
      else (max (min bound (ur_reserved r)) 1, False))"

definition settle :: "usage_reservation \<Rightarrow> nat \<Rightarrow> usage_ledger \<Rightarrow> usage_ledger" where
  "settle r charged l = charged_add charged (reserved_sub (ur_reserved r) l)"

definition reconcile_with_ambiguous_bound :: "usage_reservation \<Rightarrow> generation_price \<Rightarrow>
    normalized_usage option \<Rightarrow> acceptance_evidence \<Rightarrow> nat \<Rightarrow> usage_ledger \<Rightarrow>
    reconciled_usage \<times> usage_ledger" where
  "reconcile_with_ambiguous_bound r price usage acceptance bound l =
     (case (case usage of
              Some u \<Rightarrow>
                (case (nu_input_tokens u, nu_output_tokens u) of
                   (Some i, Some out) \<Rightarrow> (cost price i out, True)
                 | _ \<Rightarrow> ambiguous_charge r acceptance bound)
            | None \<Rightarrow> ambiguous_charge r acceptance bound) of
        (charged, complete) \<Rightarrow>
          (\<lparr>ru_charged_micros = charged, ru_complete = complete, ru_price_version = gp_version price\<rparr>,
           settle r charged l))"

definition reconcile :: "usage_reservation \<Rightarrow> generation_price \<Rightarrow> normalized_usage option \<Rightarrow>
    acceptance_evidence \<Rightarrow> usage_ledger \<Rightarrow> reconciled_usage \<times> usage_ledger" where
  "reconcile r price usage acceptance l =
     reconcile_with_ambiguous_bound r price usage acceptance (ur_reserved r) l"

text \<open>An error returns early; the reservation is dropped and gives back what it held.\<close>

definition reconcile_embedding :: "usage_reservation \<Rightarrow> embedding_price \<Rightarrow> normalized_usage option \<Rightarrow>
    acceptance_evidence \<Rightarrow> nat \<Rightarrow> usage_ledger \<Rightarrow>
    (llm_gateway_error, reconciled_usage) result \<times> usage_ledger" where
  "reconcile_embedding r price usage acceptance bound l =
     (if (case usage of
            None \<Rightarrow> False
          | Some u \<Rightarrow> (case nu_output_tokens u of None \<Rightarrow> False | Some t \<Rightarrow> t \<noteq> 0))
      then (Err (Invariant ''embedding usage reported output tokens''), drop_reservation r l)
      else case (case usage of
                   Some u \<Rightarrow>
                     (case nu_input_tokens u of
                        Some i \<Rightarrow> rtry (cost_embedding price i 0) (\<lambda>c. Ok (c, True))
                      | None \<Rightarrow> Ok (ambiguous_charge r acceptance bound))
                 | None \<Rightarrow> Ok (ambiguous_charge r acceptance bound)) of
        Inl e \<Rightarrow> (Err e, drop_reservation r l)
      | Inr (charged, complete) \<Rightarrow>
          (Ok \<lparr>ru_charged_micros = charged, ru_complete = complete, ru_price_version = ep_version price\<rparr>,
           settle r charged l))"

section \<open>Concurrent callers\<close>













section \<open>Charges\<close>

lemma ambiguous_charge_bounds:
  "fst (ambiguous_charge r a b) \<le> ur_reserved r"
  "a \<noteq> NotAccepted \<Longrightarrow> 0 < ur_reserved r \<Longrightarrow> 0 < fst (ambiguous_charge r a b)"
  "a = NotAccepted \<Longrightarrow> fst (ambiguous_charge r a b) = 0"
  by (auto simp: ambiguous_charge_def)

definition usage_incomplete :: "normalized_usage option \<Rightarrow> bool" where
  "usage_incomplete usage \<longleftrightarrow>
     (case usage of None \<Rightarrow> True | Some u \<Rightarrow> nu_input_tokens u = None \<or> nu_output_tokens u = None)"

lemma reconcile_incomplete:
  assumes "usage_incomplete usage"
  shows "ru_charged_micros (fst (reconcile_with_ambiguous_bound r p usage a b l)) = fst (ambiguous_charge r a b)"
  using assms
  by (auto simp: reconcile_with_ambiguous_bound_def usage_incomplete_def split: option.splits prod.splits)

text \<open>When the provider reports no complete usage, the charge is nothing if the request was
  not accepted, and otherwise between one micro and what was reserved.\<close>

theorem ambiguous_reconcile_bounds:
  assumes "usage_incomplete usage"
    and "fst (reconcile_with_ambiguous_bound r p usage a b l) = ru"
  shows "ru_charged_micros ru \<le> ur_reserved r
    \<and> (a = NotAccepted \<longrightarrow> ru_charged_micros ru = 0)
    \<and> (a \<noteq> NotAccepted \<longrightarrow> 0 < ur_reserved r \<longrightarrow> 0 < ru_charged_micros ru)"
  using reconcile_incomplete [OF assms(1), of r p a b l] assms(2)
    ambiguous_charge_bounds(1) [of r a b] ambiguous_charge_bounds(2) [of a r b] ambiguous_charge_bounds(3) [of a r b]
  by auto

theorem ambiguous_reconcile_bounds_witness:
  "ru_charged_micros (fst (reconcile_with_ambiguous_bound \<lparr>ur_reserved = 40, ur_completed = False\<rparr>
      \<lparr>gp_version = 1, gp_input_micros_per_million = 5, gp_output_micros_per_million = 7\<rparr> None
      PossiblyAccepted 0 ledger_default)) \<in> {1..40}"
  using ambiguous_reconcile_bounds [of None "\<lparr>ur_reserved = 40, ur_completed = False\<rparr>"
      "\<lparr>gp_version = 1, gp_input_micros_per_million = 5, gp_output_micros_per_million = 7\<rparr>"
      PossiblyAccepted 0 ledger_default]
  by (simp add: usage_incomplete_def Suc_le_eq)

section \<open>The attempt envelope\<close>

lemma try_sum_eq:
  "acc \<le> u64_max \<Longrightarrow> try_sum acc cs = (if acc + sum_list cs \<le> u64_max then Some (acc + sum_list cs) else None)"
  by (induction cs arbitrary: acc) (auto simp: checked_add_def)

lemma sum_take_Suc_le:
  assumes "\<forall>y \<in> set xs. y \<le> (x :: nat)"
  shows "sum_list (take (Suc k) xs) \<le> sum_list (take k xs) + x"
  using assms by (induction xs arbitrary: k) (auto simp: take_Cons split: nat.split)

lemma top_sum_maximal:
  assumes "sorted_wrt (\<ge>) (xs :: nat list)" and "sub \<subseteq># mset xs" and "size sub \<le> k"
  shows "sum_mset sub \<le> sum_list (take k xs)"
  using assms
proof (induction xs arbitrary: sub k)
  case Nil
  then show ?case by simp
next
  case (Cons x xs)
  show ?case
  proof (cases k)
    case 0
    with Cons.prems show ?thesis by simp
  next
    case (Suc j)
    show ?thesis
    proof (cases "x \<in># sub")
      case True
      then obtain rest where rest: "sub = add_mset x rest" by (meson multi_member_split)
      with Cons Suc show ?thesis by simp
    next
      case False
      with Cons.prems have "sub \<subseteq># mset xs"
        by (simp add: subseteq_mset_def) (metis count_eq_zero_iff le0)
      with Cons have "sum_mset sub \<le> sum_list (take k xs)" by simp
      with sum_take_Suc_le [of xs x j] Cons.prems Suc show ?thesis by simp
    qed
  qed
qed

lemma sorted_desc: "sorted_wrt (\<ge>) (rev (sort (xs :: nat list)))"
  by (simp add: sorted_wrt_rev)

text \<open>The reservation envelope covers every choice of at most the allowed number of distinct
  candidates, whichever of them dispatch really attempts; and it is the price of such a
  choice.\<close>

theorem envelope_covers_attempts:
  assumes "maximum_attempt_envelope costs k = Some m"
  shows "(\<forall>attempted. attempted \<subseteq># mset costs \<longrightarrow> size attempted \<le> k \<longrightarrow> sum_mset attempted \<le> m)
    \<and> (\<exists>attempted. attempted \<subseteq># mset costs \<and> size attempted \<le> k \<and> sum_mset attempted = m)"
proof -
  let ?top = "take k (rev (sort costs))"
  from assms have m: "m = sum_list ?top"
    by (simp add: maximum_attempt_envelope_def try_sum_eq split: if_splits)
  have "mset ?top \<subseteq># mset (rev (sort costs))" by (metis append_take_drop_id mset_append mset_subset_eq_add_left)
  then have "mset ?top \<subseteq># mset costs" by simp
  moreover have "sum_mset (mset ?top) = m" by (simp only: m sum_mset_sum_list)
  moreover have "size (mset ?top) \<le> k" by simp
  ultimately show ?thesis using top_sum_maximal [OF sorted_desc, of _ costs k] m by force
qed

theorem envelope_covers_attempts_witness:
  "maximum_attempt_envelope [2, 11, 5] 2 = Some 16 \<and> sum_mset {#5, 11#} \<le> (16 :: nat)"
proof -
  have env: "maximum_attempt_envelope [2, 11, 5] 2 = Some 16" by code_simp
  with envelope_covers_attempts [OF env] show ?thesis by auto
qed

section \<open>Costs\<close>

lemma cost_exact:
  assumes "i * gp_input_micros_per_million p + out * gp_output_micros_per_million p + 999999 \<le> u64_max"
  shows "cost p i out =
    (i * gp_input_micros_per_million p + out * gp_output_micros_per_million p + 999999) div 1000000"
  using assms by (simp add: cost_def sat_mul_def sat_add_def min_def)

lemma cost_embedding_Ok_iff:
  "cost_embedding p i 0 = Ok c \<longleftrightarrow>
     i * ep_input_micros_per_million p + 999999 \<le> u64_max
     \<and> c = (i * ep_input_micros_per_million p + 999999) div 1000000"
  by (auto simp: cost_embedding_def rtry_eq_Ok_iff checked_mul_def checked_add_def split: option.splits if_splits)

lemma cost_worst_case:
  "i \<le> i' \<Longrightarrow> out \<le> out' \<Longrightarrow> cost p i out \<le> cost p i' out'"
  by (auto simp: cost_def sat_mul_def intro!: div_le_mono sat_add_mono min.mono mult_le_mono)

end
