(* ===== verification/Llm_Routing.thy ===== *)
theory Llm_Routing
  imports Llm_Error "HOL-Library.Word"
begin

text \<open>
  The passive circuit breaker of the LLM gateway, \<open>crates/llm-gateway/src/routing/mod.rs\<close>.
  Instants and durations are nanoseconds.  Each operation on the circuit is one step; a run is
  a sequence of operations by any number of callers.  \<open>acquire\<close> and \<open>acquire_owned\<close> differ only
  in how the permit refers to the circuit, hence one definition.
\<close>

section \<open>The circuit\<close>

record passive_circuit =
  pc_threshold :: nat
  pc_cooldown :: nat
  pc_epoch :: nat
  pc_failures :: "32 word"
  pc_open_until_ms :: nat
  pc_probe_active :: bool

record circuit_permit =
  cp_half_open :: bool

definition circuit_new :: "nat \<Rightarrow> nat \<Rightarrow> nat \<Rightarrow> passive_circuit" where
  "circuit_new threshold cooldown now =
     \<lparr>pc_threshold = max threshold 1, pc_cooldown = cooldown, pc_epoch = now, pc_failures = 0,
      pc_open_until_ms = 0, pc_probe_active = False\<rparr>"

definition as_millis :: "nat \<Rightarrow> nat" where
  "as_millis d = d div 1000000"

definition from_millis :: "nat \<Rightarrow> nat" where
  "from_millis ms = ms * 1000000"

definition elapsed_ms :: "nat \<Rightarrow> nat \<Rightarrow> nat" where
  "elapsed_ms epoch now = min (as_millis (now - epoch)) u64_max"

definition acquire :: "nat \<Rightarrow> passive_circuit \<Rightarrow>
    (llm_gateway_error, circuit_permit) result \<times> passive_circuit" where
  "acquire now c =
     (let until = pc_open_until_ms c
      in if until = 0 then (Ok \<lparr>cp_half_open = False\<rparr>, c)
         else if elapsed_ms (pc_epoch c) now < until then (Err ProviderUnavailable, c)
         else if \<not> pc_probe_active c then (Ok \<lparr>cp_half_open = True\<rparr>, c\<lparr>pc_probe_active := True\<rparr>)
         else (Err ProviderUnavailable, c))"

definition circuit_failure :: "inference_error \<Rightarrow> bool" where
  "circuit_failure e \<longleftrightarrow>
     ie_category e \<in> {RateLimited, ProviderOverload, Network, TimeoutBeforeAcceptance,
       TimeoutAfterPossibleAcceptance}"

definition success :: "passive_circuit \<Rightarrow> passive_circuit" where
  "success c = c\<lparr>pc_failures := 0, pc_open_until_ms := 0, pc_probe_active := False\<rparr>"

definition failure :: "inference_error \<Rightarrow> nat \<Rightarrow> passive_circuit \<Rightarrow> passive_circuit" where
  "failure e now c =
     (if \<not> circuit_failure e then c
      else let c = c\<lparr>pc_failures := pc_failures c + 1\<rparr>
           in if pc_threshold c \<le> unat (pc_failures c) \<or> pc_open_until_ms c \<noteq> 0
              then let retry_after =
                         max (case ie_retry_after_ms e of
                                Some ms \<Rightarrow> from_millis ms
                              | None \<Rightarrow> pc_cooldown c) (pc_cooldown c);
                       until = max (sat_add (elapsed_ms (pc_epoch c) now)
                                 (min (as_millis retry_after) u64_max)) 1
                   in c\<lparr>pc_open_until_ms := until, pc_probe_active := False\<rparr>
              else c)"

definition permit_drop :: "circuit_permit \<Rightarrow> passive_circuit \<Rightarrow> passive_circuit" where
  "permit_drop p c = (if cp_half_open p then c\<lparr>pc_probe_active := False\<rparr> else c)"

definition permit_success :: "circuit_permit \<Rightarrow> passive_circuit \<Rightarrow> passive_circuit" where
  "permit_success p c = permit_drop p (success c)"

definition permit_failure :: "circuit_permit \<Rightarrow> inference_error \<Rightarrow> nat \<Rightarrow> passive_circuit \<Rightarrow> passive_circuit" where
  "permit_failure p e now c = permit_drop p (failure e now c)"

section \<open>Runs\<close>

datatype circuit_event =
  Acquire nat
| Succeed circuit_permit
| Fail circuit_permit inference_error nat
| DropPermit circuit_permit

definition event_step :: "circuit_event \<Rightarrow> passive_circuit \<Rightarrow> passive_circuit" where
  "event_step ev c =
     (case ev of
        Acquire now \<Rightarrow> snd (acquire now c)
      | Succeed p \<Rightarrow> permit_success p c
      | Fail p e now \<Rightarrow> permit_failure p e now c
      | DropPermit p \<Rightarrow> permit_drop p c)"

definition run_events :: "circuit_event list \<Rightarrow> passive_circuit \<Rightarrow> passive_circuit" where
  "run_events evs c = fold event_step evs c"

text \<open>The events of a run without a success, in which no failure is timed before \<open>t\<close>.\<close>

fun outage_event :: "nat \<Rightarrow> circuit_event \<Rightarrow> bool" where
  "outage_event t (Acquire now) \<longleftrightarrow> True"
| "outage_event t (Succeed p) \<longleftrightarrow> False"
| "outage_event t (Fail p e now) \<longleftrightarrow> t \<le> now"
| "outage_event t (DropPermit p) \<longleftrightarrow> True"

fun permits_granted :: "nat list \<Rightarrow> passive_circuit \<Rightarrow> circuit_permit list" where
  "permits_granted [] c = []"
| "permits_granted (now # ts) c =
     (case acquire now c of
        (Inr p, c') \<Rightarrow> p # permits_granted ts c'
      | (Inl _, c') \<Rightarrow> permits_granted ts c')"

lemma elapsed_ms_mono: "s \<le> t \<Longrightarrow> elapsed_ms epoch s \<le> elapsed_ms epoch t"
  by (auto simp: elapsed_ms_def as_millis_def intro!: min.mono div_le_mono diff_le_mono)

text \<open>The instant in milliseconds before which an outage seen at \<open>t\<close> lets nothing through.\<close>

definition reopen_ms :: "passive_circuit \<Rightarrow> nat \<Rightarrow> nat" where
  "reopen_ms c t = max (sat_add (elapsed_ms (pc_epoch c) t) (min (as_millis (pc_cooldown c)) u64_max)) 1"

lemma reopen_ms_mono: "s \<le> t \<Longrightarrow> reopen_ms c s \<le> reopen_ms c t"
  unfolding reopen_ms_def by (intro max.mono sat_add_mono elapsed_ms_mono) simp_all

lemma failure_cases:
  "pc_open_until_ms (failure e now c) = pc_open_until_ms c \<or> reopen_ms c now \<le> pc_open_until_ms (failure e now c)"
proof (cases "pc_open_until_ms (failure e now c) = pc_open_until_ms c")
  case False
  then have "pc_open_until_ms (failure e now c) =
      max (sat_add (elapsed_ms (pc_epoch c) now) (min (as_millis
        (max (case ie_retry_after_ms e of Some ms \<Rightarrow> from_millis ms | None \<Rightarrow> pc_cooldown c) (pc_cooldown c)))
        u64_max)) 1"
    by (cases "ie_retry_after_ms e") (auto simp: failure_def Let_def split: if_splits)
  moreover have "as_millis (pc_cooldown c) \<le> as_millis (max x (pc_cooldown c))" for x
    by (simp add: as_millis_def div_le_mono)
  ultimately have "reopen_ms c now \<le> pc_open_until_ms (failure e now c)"
    unfolding reopen_ms_def by (simp only:) (intro max.mono sat_add_mono min.mono order_refl)
  then show ?thesis ..
qed simp

lemma failure_config [simp]:
  "pc_epoch (failure e now c) = pc_epoch c" "pc_cooldown (failure e now c) = pc_cooldown c"
  by (simp_all add: failure_def Let_def)

lemma permit_drop_until [simp]:
  "pc_open_until_ms (permit_drop p c) = pc_open_until_ms c"
  "pc_epoch (permit_drop p c) = pc_epoch c" "pc_cooldown (permit_drop p c) = pc_cooldown c"
  by (simp_all add: permit_drop_def)

lemma acquire_until [simp]:
  "pc_open_until_ms (snd (acquire now c)) = pc_open_until_ms c"
  "pc_epoch (snd (acquire now c)) = pc_epoch c" "pc_cooldown (snd (acquire now c)) = pc_cooldown c"
  by (simp_all add: acquire_def Let_def)

definition outage_since :: "nat \<Rightarrow> passive_circuit \<Rightarrow> passive_circuit \<Rightarrow> bool" where
  "outage_since t c0 c \<longleftrightarrow>
     reopen_ms c0 t \<le> pc_open_until_ms c \<and> pc_epoch c = pc_epoch c0 \<and> pc_cooldown c = pc_cooldown c0"

lemma reopen_ms_cong:
  "pc_epoch c = pc_epoch c0 \<Longrightarrow> pc_cooldown c = pc_cooldown c0 \<Longrightarrow> reopen_ms c t = reopen_ms c0 t"
  by (simp add: reopen_ms_def)

lemma outage_event_step:
  assumes "outage_event t ev" and "outage_since t c0 c"
  shows "outage_since t c0 (event_step ev c)"
proof (cases ev)
  case (Fail p e now)
  with assms have now: "t \<le> now" by simp
  have "reopen_ms c0 t \<le> pc_open_until_ms (failure e now c)"
    using failure_cases [of e now c] reopen_ms_mono [OF now, of c0] reopen_ms_cong [of c c0 now] assms(2)
    by (auto simp: outage_since_def)
  with assms(2) Fail show ?thesis by (simp add: event_step_def permit_failure_def outage_since_def)
qed (use assms in \<open>simp_all add: event_step_def outage_since_def\<close>)

lemma outage_run:
  assumes "\<forall>ev \<in> set evs. outage_event t ev" and "outage_since t c0 c"
  shows "outage_since t c0 (run_events evs c)"
  using assms by (induction evs arbitrary: c) (simp_all add: run_events_def outage_event_step)

lemma outage_refuses:
  assumes "outage_since t c0 c" and "elapsed_ms (pc_epoch c0) now < reopen_ms c0 t"
  shows "acquire now c = (Err ProviderUnavailable, c)"
proof -
  have "reopen_ms c0 t > 0" by (simp add: reopen_ms_def)
  with assms show ?thesis by (auto simp: acquire_def Let_def outage_since_def)
qed

lemma failure_opens:
  assumes "pc_open_until_ms c = 0" and "pc_open_until_ms (failure e t c) \<noteq> 0"
  shows "outage_since t c (failure e t c)"
  using failure_cases [of e t c] assms by (simp add: outage_since_def)

text \<open>Once a failure at \<open>t\<close> opens the circuit, every acquire whose clock is less than the
  cooldown after \<open>t\<close> is refused, whatever sequence of acquires, dropped permits and further
  failures comes between, until a success is reported.\<close>

theorem open_circuit_refuses_until_cooldown:
  assumes "pc_open_until_ms c = 0" and "pc_open_until_ms (failure e t c) \<noteq> 0"
    and "\<forall>ev \<in> set evs. outage_event t ev"
    and "elapsed_ms (pc_epoch c) now < elapsed_ms (pc_epoch c) t + as_millis (pc_cooldown c)"
    and "elapsed_ms (pc_epoch c) t + as_millis (pc_cooldown c) \<le> u64_max"
  shows "fst (acquire now (run_events evs (permit_failure p e t c))) = Err ProviderUnavailable"
proof -
  have "outage_since t c (permit_failure p e t c)"
    using failure_opens [OF assms(1,2)] by (simp add: permit_failure_def outage_since_def)
  then have "outage_since t c (run_events evs (permit_failure p e t c))"
    by (rule outage_run [OF assms(3)])
  moreover have "elapsed_ms (pc_epoch c) now < reopen_ms c t"
    using assms(4,5) by (simp add: reopen_ms_def sat_add_def)
  ultimately show ?thesis by (simp add: outage_refuses)
qed

definition example_failure :: inference_error where
  "example_failure = from_status (\<lambda>_. None) 0 503 None ''overloaded''"

theorem open_circuit_refuses_until_cooldown_witness:
  "fst (acquire 5999000000 (run_events [Acquire 2000000000, Fail \<lparr>cp_half_open = False\<rparr> example_failure 3000000000]
     (permit_failure \<lparr>cp_half_open = False\<rparr> example_failure 1000000000 (circuit_new 1 5000000000 0))))
   = Err ProviderUnavailable"
  by (rule open_circuit_refuses_until_cooldown) code_simp+

section \<open>One probe at a time\<close>

lemma acquire_open_probing:
  "pc_open_until_ms c \<noteq> 0 \<Longrightarrow> pc_probe_active c \<Longrightarrow> acquire now c = (Err ProviderUnavailable, c)"
  by (simp add: acquire_def Let_def)

lemma permits_granted_probing:
  "pc_open_until_ms c \<noteq> 0 \<Longrightarrow> pc_probe_active c \<Longrightarrow> permits_granted ts c = []"
  by (induction ts) (simp_all add: acquire_open_probing)

lemma permits_granted_probe:
  assumes "pc_open_until_ms c \<noteq> 0" and "\<not> pc_probe_active c"
  shows "permits_granted ts c =
    (if \<exists>now \<in> set ts. pc_open_until_ms c \<le> elapsed_ms (pc_epoch c) now
     then [\<lparr>cp_half_open = True\<rparr>] else [])"
  using assms
proof (induction ts)
  case (Cons now ts)
  show ?case
  proof (cases "elapsed_ms (pc_epoch c) now < pc_open_until_ms c")
    case True
    with Cons show ?thesis by (auto simp: acquire_def Let_def)
  next
    case False
    with Cons.prems have "acquire now c = (Ok \<lparr>cp_half_open = True\<rparr>, c\<lparr>pc_probe_active := True\<rparr>)"
      by (simp add: acquire_def Let_def)
    with False Cons.prems show ?thesis by (auto simp: permits_granted_probing)
  qed
qed simp

text \<open>C18: Of any sequence of acquires on an open circuit, at whatever times, at most one gets
  through: the first after the reopening time, as the half-open probe.\<close>

theorem open_circuit_admits_one_probe:
  assumes "pc_open_until_ms c \<noteq> 0"
  shows "permits_granted ts c =
    (if \<not> pc_probe_active c \<and> (\<exists>now \<in> set ts. pc_open_until_ms c \<le> elapsed_ms (pc_epoch c) now)
     then [\<lparr>cp_half_open = True\<rparr>] else [])"
  using permits_granted_probe [OF assms] permits_granted_probing [OF assms]
  by (cases "pc_probe_active c") simp_all

theorem open_circuit_admits_one_probe_witness:
  "permits_granted [2000000000, 6000000000, 6000000000]
     (failure example_failure 1000000000 (circuit_new 1 5000000000 0)) = [\<lparr>cp_half_open = True\<rparr>]"
proof -
  let ?c = "failure example_failure 1000000000 (circuit_new 1 5000000000 0)"
  have "pc_open_until_ms ?c \<noteq> 0" by code_simp
  moreover have "\<not> pc_probe_active ?c \<and>
      pc_open_until_ms ?c \<le> elapsed_ms (pc_epoch ?c) 6000000000" by code_simp
  ultimately show ?thesis
    using open_circuit_admits_one_probe [of ?c "[2000000000, 6000000000, 6000000000]"] by simp
qed

end
