(* ===== verification/Path_Template.thy ===== *)
theory Path_Template
  imports Gateway_Config "HOL-Library.Multiset"
begin

text \<open>
  Path templates and route tables of the serverless gateway,
  \<open>crates/serverless-core/src/plan.rs\<close> (lines 155 to 422 and 760 to 833): parsing, matching with
  and without captures, the precedence order, route selection, what is known at start-up of the
  paths a configured route admits, and the search for a path that some templates admit and
  others do not.  \<open>http::Method::from_bytes\<close> is an argument.
\<close>

section \<open>Templates\<close>

datatype segment = Literal string | Parameter string | Wildcard

record template =
  tm_text :: string
  tm_segments :: "segment list"

datatype handler_id =
  Metrics | Limit | Traceability | Correlation | RequestCors | ResponseCors | RequestHeader
  | ResponseHeader | RequestTransformer | ResponseTransformer | AuditHandler | Token | Router
  | Specification | Security | Jwt | Swt | BasicHandler | ApiKeyHandler | Sanitizer | Validator
  | Proxy | Health | Info | GetLogger | SetLogger | Cache

datatype init_error =
  Malformed string | UnknownClass string | UnknownAlias string | Cycle string | Deferred handler_id
  | Unimplemented handler_id | DuplicateRoute string | MissingTerminal | InvalidTerminal
  | IdentityOrdering | FactoryContract handler_id

definition split_slash :: "string \<Rightarrow> string list" where
  "split_slash s = split_chars ''/'' s"

fun join_slash :: "string list \<Rightarrow> string" where
  "join_slash [] = []"
| "join_slash [p] = p"
| "join_slash (p # q # ps) = p @ CHR ''/'' # join_slash (q # ps)"

definition has_any :: "char list \<Rightarrow> string \<Rightarrow> bool" where
  "has_any cs s = list_ex (\<lambda>c. c \<in> set cs) s"

definition strip_slash :: "string \<Rightarrow> string option" where
  "strip_slash s = (case s of [] \<Rightarrow> None | c # cs \<Rightarrow> if c = CHR ''/'' then Some cs else None)"

text \<open>The name between the braces of \<open>{name}\<close>.\<close>

definition braced :: "string \<Rightarrow> string option" where
  "braced s =
     (case s of
        [] \<Rightarrow> None
      | c # cs \<Rightarrow> if c = CHR ''{'' \<and> cs \<noteq> [] \<and> last cs = CHR ''}'' then Some (butlast cs) else None)"

definition parse_segment :: "string \<Rightarrow> bool \<Rightarrow> string list \<Rightarrow> (init_error, segment) result" where
  "parse_segment part is_last names =
     (if part = ''*'' \<and> is_last then Ok Wildcard
      else case braced part of
        Some name \<Rightarrow>
          if name = [] \<or> has_any ''{}*'' name \<or> name \<in> set names then Err (Malformed ''parameter'')
          else Ok (Parameter name)
      | None \<Rightarrow>
          if has_any ''{}*'' part then Err (Malformed ''template'') else Ok (Literal part))"

definition segment_names :: "segment \<Rightarrow> string list" where
  "segment_names s = (case s of Parameter n \<Rightarrow> [n] | _ \<Rightarrow> [])"

fun parse_segments :: "string list \<Rightarrow> string list \<Rightarrow> (init_error, segment list) result" where
  "parse_segments [] names = Ok []"
| "parse_segments (part # parts) names =
     rtry (parse_segment part (parts = []) names) (\<lambda>s.
     rtry (parse_segments parts (segment_names s @ names)) (\<lambda>ss. Ok (s # ss)))"

definition parse_template :: "string \<Rightarrow> (init_error, template) result" where
  "parse_template path =
     (case strip_slash path of
        None \<Rightarrow> Err (Malformed ''path'')
      | Some rest \<Rightarrow>
          if has_any ''?#@'' path then Err (Malformed ''path'')
          else rtry (parse_segments (split_slash rest) []) (\<lambda>ss.
               Ok \<lparr>tm_text = path, tm_segments = ss\<rparr>))"

definition shape_text :: "segment \<Rightarrow> string" where
  "shape_text s = (case s of Literal l \<Rightarrow> l | Parameter _ \<Rightarrow> ''{}'' | Wildcard \<Rightarrow> ''*'')"

definition shape :: "template \<Rightarrow> string" where
  "shape t = join_slash (map shape_text (tm_segments t))"

fun captures_from :: "segment list \<Rightarrow> string list \<Rightarrow> (string, string) btree \<Rightarrow>
    (string, string) btree option" where
  "captures_from [] parts caps = (if parts = [] then Some caps else None)"
| "captures_from (Wildcard # ss) parts caps =
     (if parts = [] then None else Some (bt_insert ''*'' (join_slash parts) caps))"
| "captures_from (Literal l # ss) parts caps =
     (case parts of
        [] \<Rightarrow> None
      | p # ps \<Rightarrow> if p = l then captures_from ss ps caps else None)"
| "captures_from (Parameter n # ss) parts caps =
     (case parts of
        [] \<Rightarrow> None
      | p # ps \<Rightarrow> if p \<noteq> [] then captures_from ss ps (bt_insert n p caps) else None)"

definition captures :: "template \<Rightarrow> string \<Rightarrow> (string, string) btree option" where
  "captures t path =
     (case strip_slash path of
        None \<Rightarrow> None
      | Some rest \<Rightarrow> captures_from (tm_segments t) (split_slash rest) [])"

fun matches_from :: "segment list \<Rightarrow> string list \<Rightarrow> bool" where
  "matches_from [] parts \<longleftrightarrow> parts = []"
| "matches_from (s # ss) [] \<longleftrightarrow> False"
| "matches_from (s # ss) (part # parts) \<longleftrightarrow>
     (case s of
        Wildcard \<Rightarrow> True
      | Literal l \<Rightarrow> part = l \<and> matches_from ss parts
      | Parameter _ \<Rightarrow> part \<noteq> [] \<and> matches_from ss parts)"

definition matches_template_without_captures :: "template \<Rightarrow> string \<Rightarrow> bool" where
  "matches_template_without_captures t path =
     (case strip_slash path of
        None \<Rightarrow> False
      | Some rest \<Rightarrow> matches_from (tm_segments t) (split_slash rest))"

definition segment_rank :: "segment \<Rightarrow> nat" where
  "segment_rank s = (case s of Literal _ \<Rightarrow> 3 | Parameter _ \<Rightarrow> 2 | Wildcard \<Rightarrow> 1)"

definition precedence :: "template \<Rightarrow> nat list" where
  "precedence t = map segment_rank (tm_segments t)"

definition alpha_or_dash :: "char \<Rightarrow> bool" where
  "alpha_or_dash c =
     (let n = (of_char c :: nat)
      in (65 \<le> n \<and> n \<le> 90) \<or> (97 \<le> n \<and> n \<le> 122) \<or> c = CHR ''-'')"

definition parse_method :: "(string \<Rightarrow> string option) \<Rightarrow> string \<Rightarrow> (init_error, string) result" where
  "parse_method from_bytes s =
     (if s = [] \<or> \<not> list_all alpha_or_dash s then Err (Malformed ''method'')
      else ok_or (Malformed ''method'') (from_bytes (to_ascii_uppercase s)))"

section \<open>Route tables\<close>

record 'v route =
  rt_template :: template
  rt_method :: string
  rt_value :: 'v

definition same_route :: "string \<Rightarrow> template \<Rightarrow> 'v route \<Rightarrow> bool" where
  "same_route m t r \<longleftrightarrow> rt_method r = m \<and> shape (rt_template r) = shape t"

text \<open>The sort is stable and by descending precedence.\<close>

definition sort_routes :: "'v route list \<Rightarrow> 'v route list" where
  "sort_routes routes = rev (sort_key (\<lambda>r. precedence (rt_template r)) (rev routes))"

definition insert_route :: "(string \<Rightarrow> string option) \<Rightarrow> 'v route list \<Rightarrow> string \<Rightarrow> string \<Rightarrow> 'v \<Rightarrow>
    (init_error, 'v route list) result" where
  "insert_route from_bytes routes path verb value =
     rtry (parse_template path) (\<lambda>t.
     rtry (parse_method from_bytes verb) (\<lambda>m.
       if list_ex (same_route m t) routes then Err (DuplicateRoute (path @ ''@'' @ m))
       else Ok (sort_routes (routes @ [\<lparr>rt_template = t, rt_method = m, rt_value = value\<rparr>]))))"

fun first_match :: "'v route list \<Rightarrow> string \<Rightarrow> ('v route \<times> (string, string) btree) option" where
  "first_match [] path = None"
| "first_match (r # rs) path =
     (case captures (rt_template r) path of
        Some c \<Rightarrow> Some (r, c)
      | None \<Rightarrow> first_match rs path)"

definition select_route :: "'v route list \<Rightarrow> string \<Rightarrow> string \<Rightarrow>
    ('v route \<times> (string, string) btree) option" where
  "select_route routes meth path =
     first_match (filter (\<lambda>r. eq_ignore_ascii_case (rt_method r) meth) routes) path"

section \<open>Backend targets\<close>

datatype target = Function string | HttpService string

definition target_alias :: "target \<Rightarrow> string" where
  "target_alias t = (case t of Function s \<Rightarrow> s | HttpService s \<Rightarrow> s)"

definition matching_template :: "target route list \<Rightarrow> string \<Rightarrow> string \<Rightarrow> string option" where
  "matching_template routes meth path =
     map_option (\<lambda>r. tm_text (rt_template r))
       (find (\<lambda>r. matches_template_without_captures (rt_template r) path)
         (filter (\<lambda>r. eq_ignore_ascii_case (rt_method r) meth) routes))"

fun compile_targets :: "(string \<Rightarrow> string option) \<Rightarrow> (string \<times> target) list \<Rightarrow> target route list \<Rightarrow>
    (init_error, target route list) result" where
  "compile_targets from_bytes [] routes = Ok routes"
| "compile_targets from_bytes ((mapping, target) # rest) routes =
     (case split_once CHR ''@'' mapping of
        None \<Rightarrow> Err (Malformed ''target mapping'')
      | Some (path, verb) \<Rightarrow>
          if target_alias target = [] then Err (Malformed ''target alias'')
          else rtry (insert_route from_bytes routes path verb target) (\<lambda>routes.
               compile_targets from_bytes rest routes))"

definition target_routes_compile :: "(string \<Rightarrow> string option) \<Rightarrow> (string \<times> target) list \<Rightarrow>
    (init_error, target route list) result" where
  "target_routes_compile from_bytes mappings = compile_targets from_bytes mappings []"

section \<open>What a configured route admits\<close>

record operation_selection =
  os_template :: "template option"
  os_method :: "string option"

definition selection_default :: operation_selection where
  "selection_default = \<lparr>os_template = None, os_method = None\<rparr>"

definition from_configured_route :: "(string \<Rightarrow> string option) \<Rightarrow> string \<Rightarrow> string \<Rightarrow> operation_selection" where
  "from_configured_route from_bytes path verb =
     (case (parse_template path, parse_method from_bytes verb) of
        (Inr t, Inr m) \<Rightarrow> \<lparr>os_template = Some t, os_method = Some m\<rparr>
      | _ \<Rightarrow> selection_default)"

definition known_template :: "operation_selection \<Rightarrow> template option" where
  "known_template sel = (if os_method sel \<noteq> None then os_template sel else None)"

definition is_subset_of_prefix :: "operation_selection \<Rightarrow> string \<Rightarrow> bool" where
  "is_subset_of_prefix sel pfx =
     (case known_template sel of
        None \<Rightarrow> False
      | Some t \<Rightarrow>
          starts_with (takeWhile (\<lambda>c. c \<noteq> CHR ''{'' \<and> c \<noteq> CHR ''*'') (tm_text t)) pfx)"

fun may_match_from :: "segment list \<Rightarrow> string list \<Rightarrow> bool" where
  "may_match_from [] parts \<longleftrightarrow> parts = []"
| "may_match_from (s # ss) [] \<longleftrightarrow> True"
| "may_match_from (s # ss) (part # parts) \<longleftrightarrow>
     (case s of
        Wildcard \<Rightarrow> True
      | Literal l \<Rightarrow>
          if parts = [] then starts_with l part
          else l = part \<and> may_match_from ss parts
      | Parameter _ \<Rightarrow>
          if parts = [] then True
          else part \<noteq> [] \<and> may_match_from ss parts)"

definition may_match_prefix :: "operation_selection \<Rightarrow> string \<Rightarrow> bool" where
  "may_match_prefix sel pfx =
     (case known_template sel of
        None \<Rightarrow> True
      | Some t \<Rightarrow>
          (case strip_slash pfx of
             None \<Rightarrow> True
           | Some rest \<Rightarrow> may_match_from (tm_segments t) (split_slash rest)))"

section \<open>Slash-separated paths\<close>

lemma split_slash_not_Nil [simp]: "split_slash s \<noteq> []"
  by (simp add: split_slash_def)

lemma split_slash_free: "p \<in> set (split_slash s) \<Longrightarrow> CHR ''/'' \<notin> set p"
  using split_chars_free by (fastforce simp: split_slash_def)

lemma split_slash_simps [simp]:
  "split_slash [] = [[]]"
  "split_slash (c # s) =
     (if c = CHR ''/'' then [] # split_slash s
      else case split_slash s of [] \<Rightarrow> [[c]] | p # ps \<Rightarrow> (c # p) # ps)"
  by (simp_all add: split_slash_def)

lemma join_slash_Cons: "ps \<noteq> [] \<Longrightarrow> join_slash (p # ps) = p @ CHR ''/'' # join_slash ps"
  by (cases ps) simp_all

lemma join_split_slash: "join_slash (split_slash s) = s"
proof (induction s)
  case (Cons c s)
  then show ?case
    by (cases "split_slash s"; cases "tl (split_slash s)") (auto simp: join_slash_Cons split: list.splits)
qed simp

lemma split_slash_free_append:
  "CHR ''/'' \<notin> set p \<Longrightarrow> split_slash (p @ CHR ''/'' # s) = p # split_slash s"
  by (induction p) auto

lemma split_slash_single: "CHR ''/'' \<notin> set p \<Longrightarrow> split_slash p = [p]"
  by (induction p) auto

lemma split_join_slash:
  "ps \<noteq> [] \<Longrightarrow> \<forall>p \<in> set ps. CHR ''/'' \<notin> set p \<Longrightarrow> split_slash (join_slash ps) = ps"
proof (induction ps rule: join_slash.induct)
  case (3 p q ps)
  then show ?case by (simp add: split_slash_free_append del: split_slash_simps)
qed (simp_all add: split_slash_single del: split_slash_simps)

lemma strip_slash_Some [simp]: "strip_slash s = Some r \<longleftrightarrow> s = CHR ''/'' # r"
  by (auto simp: strip_slash_def split: list.splits)

section \<open>Matching\<close>

lemma matches_from_Wildcard [simp]: "matches_from (Wildcard # ss) parts \<longleftrightarrow> parts \<noteq> []"
  by (cases parts) simp_all

lemma captures_from_matches: "captures_from ss parts caps \<noteq> None \<longleftrightarrow> matches_from ss parts"
  by (induction ss parts caps rule: captures_from.induct) (simp_all split: list.split)

text \<open>The matcher that allocates no captures, which the metrics policy uses, accepts exactly
  the paths for which route selection finds captures.\<close>

theorem matcher_equals_captures:
  "matches_template_without_captures t path \<longleftrightarrow> captures t path \<noteq> None"
  by (cases "strip_slash path")
    (simp_all only: matches_template_without_captures_def captures_def option.case
      captures_from_matches, simp_all)

text \<open>The text a segment was parsed from, and the templates parsing produces.\<close>

definition segment_text :: "segment \<Rightarrow> string" where
  "segment_text s = (case s of Literal l \<Rightarrow> l | Parameter n \<Rightarrow> ''{'' @ n @ ''}'' | Wildcard \<Rightarrow> ''*'')"

lemma segment_text_simps [simp]:
  "segment_text (Literal l) = l" "segment_text (Parameter n) = CHR ''{'' # n @ ''}''"
  "segment_text Wildcard = ''*''"
  by (simp_all add: segment_text_def)

fun wf_segments :: "segment list \<Rightarrow> bool" where
  "wf_segments [] \<longleftrightarrow> True"
| "wf_segments (Wildcard # ss) \<longleftrightarrow> ss = []"
| "wf_segments (Literal l # ss) \<longleftrightarrow> \<not> has_any ''{}*'' l \<and> CHR ''/'' \<notin> set l \<and> wf_segments ss"
| "wf_segments (Parameter n # ss) \<longleftrightarrow> n \<noteq> [] \<and> wf_segments ss"

lemma braced_Some: "braced s = Some n \<Longrightarrow> s = ''{'' @ n @ ''}''"
  by (auto simp: braced_def split: list.splits if_splits) (metis append_butlast_last_id)

lemma parse_segment_Ok:
  assumes "parse_segment part is_last names = Ok s"
  shows "segment_text s = part"
    and "s = Wildcard \<Longrightarrow> is_last"
    and "s = Literal l \<Longrightarrow> \<not> has_any ''{}*'' l"
    and "s = Parameter n \<Longrightarrow> n \<noteq> [] \<and> n \<notin> set names"
  using assms
  by (auto simp: parse_segment_def segment_text_def dest: braced_Some split: if_splits option.splits)

lemma parse_segments_Ok:
  assumes "parse_segments parts names = Ok ss" and "\<forall>p \<in> set parts. CHR ''/'' \<notin> set p"
  shows "map segment_text ss = parts \<and> wf_segments ss"
  using assms
proof (induction parts arbitrary: names ss)
  case (Cons part parts)
  then obtain s rest where s: "parse_segment part (parts = []) names = Ok s"
    and rest: "parse_segments parts (segment_names s @ names) = Ok rest" and ss: "ss = s # rest"
    by (auto simp: rtry_eq_Ok_iff)
  have IH: "map segment_text rest = parts \<and> wf_segments rest"
    using Cons.IH [OF rest] Cons.prems by simp
  note seg = parse_segment_Ok [OF s]
  show ?case
  proof (cases s)
    case (Literal l)
    with seg(1) Cons.prems have "CHR ''/'' \<notin> set l" by (simp add: segment_text_def)
    with Literal seg IH ss show ?thesis by simp
  next
    case (Parameter n)
    with seg IH ss show ?thesis by simp
  next
    case Wildcard
    with seg IH ss rest show ?thesis by simp
  qed
qed simp

lemma parse_template_Ok:
  assumes "parse_template path = Ok t"
  shows "tm_text t = path" and "path = CHR ''/'' # join_slash (map segment_text (tm_segments t))"
    and "wf_segments (tm_segments t)" and "tm_segments t \<noteq> []"
proof -
  from assms obtain rest ss where r: "path = CHR ''/'' # rest"
    and ss: "parse_segments (split_slash rest) [] = Ok ss" and t: "t = \<lparr>tm_text = path, tm_segments = ss\<rparr>"
    by (auto simp: parse_template_def rtry_eq_Ok_iff split: option.splits if_splits)
  have ok: "map segment_text ss = split_slash rest \<and> wf_segments ss"
    using parse_segments_Ok [OF ss] split_slash_free by blast
  from t show "tm_text t = path" by simp
  from ok t r show "path = CHR ''/'' # join_slash (map segment_text (tm_segments t))"
    by (simp add: join_split_slash del: split_slash_simps)
  from ok t show "wf_segments (tm_segments t)" by simp
  from ok split_slash_not_Nil [of rest] have "ss \<noteq> []" by (metis list.map_disc_iff)
  with t show "tm_segments t \<noteq> []" by simp
qed

section \<open>Selection\<close>

definition routes_ok :: "'v route list \<Rightarrow> bool" where
  "routes_ok routes \<longleftrightarrow>
     sorted_wrt (\<lambda>a b. precedence (rt_template b) \<le> precedence (rt_template a)) routes
     \<and> distinct (map (\<lambda>r. (rt_method r, shape (rt_template r))) routes)
     \<and> (\<forall>r \<in> set routes. wf_segments (tm_segments (rt_template r))
          \<and> to_ascii_uppercase (rt_method r) = rt_method r)"

text \<open>What \<open>http::Method::from_bytes\<close> documents: the method's text is the bytes it was read from.\<close>

definition keeps_bytes :: "(string \<Rightarrow> string option) \<Rightarrow> bool" where
  "keeps_bytes from_bytes \<longleftrightarrow> (\<forall>s m. from_bytes s = Some m \<longrightarrow> m = s)"

lemma to_ascii_uppercase_twice: "to_ascii_uppercase (to_ascii_uppercase s) = to_ascii_uppercase s"
  by (metis to_ascii_uppercase_lower to_ascii_lowercase_upper)

lemma parse_method_upper:
  "keeps_bytes fb \<Longrightarrow> parse_method fb s = Ok m \<Longrightarrow> to_ascii_uppercase m = m"
  by (auto simp: parse_method_def keeps_bytes_def split: if_splits) (metis to_ascii_uppercase_twice)

lemma sort_routes_mset: "mset (sort_routes routes) = mset routes"
  by (simp add: sort_routes_def)

lemma sort_routes_set [simp]: "set (sort_routes routes) = set routes"
  using sort_routes_mset mset_eq_setD by blast

lemma sort_routes_sorted:
  "sorted_wrt (\<lambda>a b. precedence (rt_template b) \<le> precedence (rt_template a)) (sort_routes routes)"
  using sorted_sort_key [of "\<lambda>r. precedence (rt_template r)" "rev routes"]
  by (simp add: sort_routes_def sorted_wrt_rev sorted_wrt_map)

lemma insert_route_ok:
  assumes ins: "insert_route fb routes path verb v = Ok routes'" and "routes_ok routes" and "keeps_bytes fb"
  shows "routes_ok routes'"
proof -
  from ins obtain t m where t: "parse_template path = Ok t" and m: "parse_method fb verb = Ok m"
    and new: "\<not> list_ex (same_route m t) routes"
    and r': "routes' = sort_routes (routes @ [\<lparr>rt_template = t, rt_method = m, rt_value = v\<rparr>])"
    by (auto simp: insert_route_def rtry_eq_Ok_iff split: if_splits)
  let ?k = "\<lambda>r. (rt_method r, shape (rt_template r))"
  have "distinct (map ?k (routes @ [\<lparr>rt_template = t, rt_method = m, rt_value = v\<rparr>]))"
    using assms(2) new by (auto simp: routes_ok_def list_ex_iff same_route_def)
  then have "distinct (map ?k routes')"
    using r' sort_routes_mset by (metis mset_map mset_eq_imp_distinct_iff)
  then show ?thesis
    using assms(2) r' sort_routes_sorted parse_template_Ok(3) [OF t] parse_method_upper [OF assms(3) m]
    by (auto simp: routes_ok_def)
qed

lemma compile_targets_ok:
  "compile_targets fb ms routes = Ok routes' \<Longrightarrow> routes_ok routes \<Longrightarrow> keeps_bytes fb \<Longrightarrow> routes_ok routes'"
proof (induction ms arbitrary: routes)
  case (Cons e ms)
  obtain mapping tgt where e: "e = (mapping, tgt)" by (cases e)
  from Cons.prems(1) obtain path verb mid where ins: "insert_route fb routes path verb tgt = Ok mid"
    and rest: "compile_targets fb ms mid = Ok routes'"
    by (auto simp: e rtry_eq_Ok_iff split: option.splits if_splits)
  show ?case
    by (rule Cons.IH [OF rest insert_route_ok [OF ins Cons.prems(2,3)] Cons.prems(3)])
qed simp

lemma segment_rank_simps [simp]:
  "segment_rank (Literal l) = 3" "segment_rank (Parameter n) = 2" "segment_rank Wildcard = 1"
  by (simp_all add: segment_rank_def)

lemma shape_text_simps [simp]:
  "shape_text (Literal l) = l" "shape_text (Parameter n) = ''{}''" "shape_text Wildcard = ''*''"
  by (simp_all add: shape_text_def)

lemma equal_rank_equal_shape:
  assumes "map segment_rank ss = map segment_rank ss'" and "wf_segments ss" and "wf_segments ss'"
    and "matches_from ss parts" and "matches_from ss' parts"
  shows "map shape_text ss = map shape_text ss'"
  using assms
proof (induction ss arbitrary: ss' parts)
  case (Cons s ss)
  then obtain s' rest where ss': "ss' = s' # rest" by (cases ss') auto
  from Cons.prems obtain p ps where parts: "parts = p # ps" by (cases parts) auto
  show ?case
    using Cons.prems Cons.IH [of rest ps] ss' parts by (cases s; cases s') auto
qed simp

lemma captures_matches: "captures t path \<noteq> None \<longleftrightarrow>
    (\<exists>rest. path = CHR ''/'' # rest \<and> matches_from (tm_segments t) (split_slash rest))"
  using captures_from_matches [of "tm_segments t" _ "[]"]
  by (cases "strip_slash path") (auto simp: captures_def strip_slash_def split: list.splits if_splits)

lemma same_precedence_same_shape:
  assumes "precedence t = precedence t'" and "wf_segments (tm_segments t)" and "wf_segments (tm_segments t')"
    and "captures t path \<noteq> None" and "captures t' path \<noteq> None"
  shows "shape t = shape t'"
proof -
  from assms(4,5) obtain rest where "matches_from (tm_segments t) (split_slash rest)"
    and "matches_from (tm_segments t') (split_slash rest)"
    unfolding captures_matches by auto
  with assms(1-3) show ?thesis
    using equal_rank_equal_shape [of "tm_segments t" "tm_segments t'"] by (simp add: precedence_def shape_def)
qed

lemma first_match_SomeD:
  "first_match rs path = Some (r, c) \<Longrightarrow>
     \<exists>pre post. rs = pre @ r # post \<and> captures (rt_template r) path = Some c
       \<and> (\<forall>q \<in> set pre. captures (rt_template q) path = None)"
proof (induction rs)
  case (Cons q rs)
  show ?case
  proof (cases "captures (rt_template q) path")
    case None
    with Cons obtain pre post where "rs = pre @ r # post \<and> captures (rt_template r) path = Some c
       \<and> (\<forall>q \<in> set pre. captures (rt_template q) path = None)" by auto
    with None show ?thesis by (intro exI [of _ "q # pre"] exI [of _ post]) simp
  next
    case (Some x)
    with Cons.prems show ?thesis by (intro exI [of _ "[]"] exI [of _ rs]) simp
  qed
qed simp

lemma first_match_SomeI:
  "captures (rt_template r) path = Some c \<Longrightarrow> \<forall>q \<in> set pre. captures (rt_template q) path = None \<Longrightarrow>
     first_match (pre @ r # post) path = Some (r, c)"
  by (induction pre) simp_all

definition serves :: "'v route \<Rightarrow> string \<Rightarrow> string \<Rightarrow> bool" where
  "serves r meth path \<longleftrightarrow>
     eq_ignore_ascii_case (rt_method r) meth \<and> captures (rt_template r) path \<noteq> None"

lemma serving_routes_comparable:
  assumes ok: "routes_ok routes" and mem: "r \<in> set routes" "q \<in> set routes" and ne: "q \<noteq> r"
    and sv: "serves r meth path" "serves q meth path"
  shows "precedence (rt_template q) \<noteq> precedence (rt_template r)"
proof
  assume prec: "precedence (rt_template q) = precedence (rt_template r)"
  with ok mem sv have "shape (rt_template q) = shape (rt_template r)"
    by (intro same_precedence_same_shape) (auto simp: routes_ok_def serves_def)
  moreover have "rt_method q = rt_method r"
    using ok mem sv by (auto simp: routes_ok_def serves_def eq_ignore_ascii_case_upper_iff)
  ultimately show False
    using ok mem ne by (auto simp: routes_ok_def distinct_map inj_on_def)
qed

lemma select_route_exact:
  assumes ok: "routes_ok routes"
  shows "select_route routes meth path = Some (r, c) \<longleftrightarrow>
    r \<in> set routes \<and> serves r meth path \<and> captures (rt_template r) path = Some c
    \<and> (\<forall>q \<in> set routes. serves q meth path \<longrightarrow> q \<noteq> r \<longrightarrow>
         precedence (rt_template q) < precedence (rt_template r))"
    (is "?sel \<longleftrightarrow> ?best")
proof
  let ?rs = "filter (\<lambda>r. eq_ignore_ascii_case (rt_method r) meth) routes"
  assume ?sel
  then obtain pre post where rs: "?rs = pre @ r # post" and c: "captures (rt_template r) path = Some c"
    and pre: "\<forall>q \<in> set pre. captures (rt_template q) path = None"
    by (auto simp: select_route_def dest!: first_match_SomeD)
  have "r \<in> set ?rs" using rs by simp
  then have r: "r \<in> set routes" "serves r meth path" using c by (auto simp: serves_def)
  have "sorted_wrt (\<lambda>a b. precedence (rt_template b) \<le> precedence (rt_template a)) ?rs"
    using ok by (simp add: routes_ok_def sorted_wrt_filter)
  then have le: "\<forall>q \<in> set post. precedence (rt_template q) \<le> precedence (rt_template r)"
    by (simp add: rs sorted_wrt_append)
  have "precedence (rt_template q) < precedence (rt_template r)"
    if q: "q \<in> set routes" "serves q meth path" "q \<noteq> r" for q
  proof -
    from q have "q \<in> set ?rs" by (simp add: serves_def)
    with rs q pre have "q \<in> set post" by (auto simp: serves_def)
    with le serving_routes_comparable [OF ok r(1) q(1,3) r(2) q(2)] show ?thesis by (simp add: order.strict_iff_order)
  qed
  with r c show ?best by blast
next
  let ?rs = "filter (\<lambda>r. eq_ignore_ascii_case (rt_method r) meth) routes"
  assume best: ?best
  then have "r \<in> set ?rs" by (simp add: serves_def)
  then obtain pre post where rs: "?rs = pre @ r # post" by (meson split_list)
  have "sorted_wrt (\<lambda>a b. precedence (rt_template b) \<le> precedence (rt_template a)) ?rs"
    using ok by (simp add: routes_ok_def sorted_wrt_filter)
  then have ge: "\<forall>q \<in> set pre. precedence (rt_template r) \<le> precedence (rt_template q)"
    by (simp add: rs sorted_wrt_append)
  have "distinct ?rs" using ok by (auto simp: routes_ok_def distinct_map)
  then have "captures (rt_template q) path = None" if "q \<in> set pre" for q
  proof -
    from that have "q \<in> set ?rs" by (simp add: rs)
    then have q: "q \<in> set routes" "eq_ignore_ascii_case (rt_method q) meth" by auto
    have "q \<noteq> r" using \<open>distinct ?rs\<close> rs that by auto
    moreover have "\<not> precedence (rt_template q) < precedence (rt_template r)" using ge that by (simp add: leD)
    ultimately show ?thesis using best q by (auto simp: serves_def)
  qed
  with rs best show ?sel by (simp add: select_route_def first_match_SomeI)
qed

text \<open>C17: In a table compiled from configured mappings, a request is resolved to the one most
  specific route that serves its method and path: every other route that serves it has strictly
  lower precedence, so the order of the configuration does not matter.\<close>

theorem resolve_most_specific:
  assumes "target_routes_compile from_bytes mappings = Ok routes" and "keeps_bytes from_bytes"
  shows "select_route routes meth path = Some (r, c) \<longleftrightarrow>
    r \<in> set routes \<and> serves r meth path \<and> captures (rt_template r) path = Some c
    \<and> (\<forall>q \<in> set routes. serves q meth path \<longrightarrow> q \<noteq> r \<longrightarrow>
         precedence (rt_template q) < precedence (rt_template r))"
proof -
  have "routes_ok routes"
    using assms compile_targets_ok [of from_bytes mappings "[]" routes]
    by (simp add: target_routes_compile_def routes_ok_def)
  then show ?thesis by (rule select_route_exact)
qed

definition example_mappings :: "(string \<times> target) list" where
  "example_mappings =
     [(''/pets/{id}@get'', Function ''pet''), (''/pets/*@get'', Function ''any''),
      (''/pets/mine@GET'', HttpService ''mine'')]"

theorem resolve_most_specific_witness:
  "\<exists>routes r c. target_routes_compile Some example_mappings = Ok routes
     \<and> select_route routes ''GET'' ''/pets/mine'' = Some (r, c) \<and> rt_value r = HttpService ''mine''
     \<and> r \<in> set routes \<and> serves r ''GET'' ''/pets/mine''"
proof -
  obtain routes where routes: "target_routes_compile Some example_mappings = Ok routes"
    and sel: "case select_route routes ''GET'' ''/pets/mine'' of
      None \<Rightarrow> False | Some (r, c) \<Rightarrow> rt_value r = HttpService ''mine''"
  proof -
    have "case target_routes_compile Some example_mappings of
        Inl _ \<Rightarrow> False
      | Inr routes \<Rightarrow> (case select_route routes ''GET'' ''/pets/mine'' of
          None \<Rightarrow> False | Some (r, c) \<Rightarrow> rt_value r = HttpService ''mine'')"
      by code_simp
    then show ?thesis using that by (cases "target_routes_compile Some example_mappings") auto
  qed
  from sel obtain r c where rc: "select_route routes ''GET'' ''/pets/mine'' = Some (r, c)"
    and "rt_value r = HttpService ''mine''"
    by (auto split: option.splits)
  moreover have "keeps_bytes Some" by (simp add: keeps_bytes_def)
  ultimately show ?thesis
    using routes resolve_most_specific [OF routes, of "''GET''" "''/pets/mine''" r c] by blast
qed

end
