(* ===== verification/Audit_Fields.thy ===== *)
theory Audit_Fields
  imports Security_Types
begin

text \<open>
  The bounded observation values of audit records, \<open>crates/gateway-policy/src/audit.rs\<close>: which
  request headers may be observed, how a value is bounded and redacted, and the map of the six
  approved metadata fields.
\<close>

definition MAX_SELECTED_STRING_BYTES :: nat where
  "MAX_SELECTED_STRING_BYTES = 1024"

definition MAX_SELECTORS :: nat where
  "MAX_SELECTORS = 16"

definition SAFE_FIELDS :: "string list" where
  "SAFE_FIELDS = [''client_id'', ''user_id'', ''scope_client_id'', ''endpoint'', ''serviceId'',
     ''toolName'', ''caller_id'']"

definition is_ascii_alphanumeric :: "char \<Rightarrow> bool" where
  "is_ascii_alphanumeric c =
     (let n = (of_char c :: nat)
      in (48 \<le> n \<and> n \<le> 57) \<or> (65 \<le> n \<and> n \<le> 90) \<or> (97 \<le> n \<and> n \<le> 122))"

definition unsafe_names :: "string list" where
  "unsafe_names = [''authorization'', ''cookie'', ''password'', ''secret'', ''token'', ''api-key'', ''apikey'']"

definition safe_header :: "string \<Rightarrow> bool" where
  "safe_header name =
     (if name = [] \<or> 128 < length name then False
      else let n = to_ascii_lowercase name
           in list_all (\<lambda>b. is_ascii_alphanumeric b \<or> b = CHR ''-'' \<or> b = CHR ''_'') n
              \<and> \<not> list_ex (contains_str n) unsafe_names)"

definition looks_like_credential :: "string \<Rightarrow> bool" where
  "looks_like_credential value =
     (let trimmed = trim value
      in starts_with (to_ascii_lowercase trimmed) ''bearer ''
         \<or> starts_with (to_ascii_lowercase trimmed) ''basic ''
         \<or> (starts_with trimmed ''eyJ'' \<and> length (split_chars ''.'' trimmed) = 3))"

definition bounded_value :: "string \<Rightarrow> json" where
  "bounded_value value =
     (if MAX_SELECTED_STRING_BYTES < length value then JString ''<truncated>''
      else if looks_like_credential value then JString ''<redacted>''
      else JString value)"

datatype audit_field = ClientId | UserId | ScopeClientId | Endpoint | ToolName | CallerId

definition audit_field_rank :: "audit_field \<Rightarrow> nat" where
  "audit_field_rank f =
     (case f of ClientId \<Rightarrow> 0 | UserId \<Rightarrow> 1 | ScopeClientId \<Rightarrow> 2 | Endpoint \<Rightarrow> 3 | ToolName \<Rightarrow> 4 | CallerId \<Rightarrow> 5)"

lemma audit_field_rank_inj: "audit_field_rank f = audit_field_rank g \<longleftrightarrow> f = g"
  by (cases f; cases g) (simp_all add: audit_field_rank_def)

text \<open>The derived order of the enumeration.\<close>

instantiation audit_field :: linorder
begin

definition less_eq_audit_field :: "audit_field \<Rightarrow> audit_field \<Rightarrow> bool" where
  "less_eq_audit_field f g \<longleftrightarrow> audit_field_rank f \<le> audit_field_rank g"

definition less_audit_field :: "audit_field \<Rightarrow> audit_field \<Rightarrow> bool" where
  "less_audit_field f g \<longleftrightarrow> audit_field_rank f < audit_field_rank g"

instance
  by standard (auto simp: less_eq_audit_field_def less_audit_field_def audit_field_rank_inj)

end

definition audit_field_name :: "audit_field \<Rightarrow> string" where
  "audit_field_name f =
     (case f of
        ClientId \<Rightarrow> ''client_id'' | UserId \<Rightarrow> ''user_id'' | ScopeClientId \<Rightarrow> ''scope_client_id''
      | Endpoint \<Rightarrow> ''endpoint'' | ToolName \<Rightarrow> ''toolName'' | CallerId \<Rightarrow> ''caller_id'')"

type_synonym audit_fields = "(audit_field, json) btree"

definition audit_set :: "audit_field \<Rightarrow> string \<Rightarrow> audit_fields \<Rightarrow> audit_fields" where
  "audit_set field value m = bt_insert field (bounded_value value) m"

definition audit_get :: "audit_fields \<Rightarrow> string \<Rightarrow> json option" where
  "audit_get m name = map_option snd (find (\<lambda>(field, _). audit_field_name field = name) m)"

definition insert_selected :: "((string, json) btree) \<Rightarrow> string \<Rightarrow> string \<Rightarrow> (string, json) btree" where
  "insert_selected m name value = bt_insert name (bounded_value value) m"

lemma audit_field_name_inj: "audit_field_name f = audit_field_name g \<longleftrightarrow> f = g"
  by (cases f; cases g) (simp_all add: audit_field_name_def)

lemma audit_get_field: "audit_get m (audit_field_name f) = bt_get m f"
  by (induction m) (auto simp: audit_get_def bt_get_def audit_field_name_inj)

lemma audit_get_set:
  "audit_get (audit_set f v m) (audit_field_name g) =
     (if g = f then Some (bounded_value v) else audit_get m (audit_field_name g))"
  by (simp add: audit_get_field audit_set_def bt_get_insert)

text \<open>What an audit value may be.\<close>

definition audit_value_ok :: "json \<Rightarrow> bool" where
  "audit_value_ok v =
     (case v of
        JString s \<Rightarrow> length s \<le> MAX_SELECTED_STRING_BYTES \<and> \<not> looks_like_credential s
      | _ \<Rightarrow> False)"

lemma bounded_value_ok: "audit_value_ok (bounded_value v)"
proof -
  have "audit_value_ok (JString ''<truncated>'')" "audit_value_ok (JString ''<redacted>'')" by code_simp+
  then show ?thesis by (simp add: bounded_value_def audit_value_ok_def)
qed

lemma audit_set_values_ok:
  "\<forall>v \<in> snd ` set m. audit_value_ok v \<Longrightarrow> \<forall>v \<in> snd ` set (audit_set f x m). audit_value_ok v"
  by (auto simp: audit_set_def bt_insert_def bounded_value_ok)

end
