(* ===== verification/Exchange.thy ===== *)
theory Exchange
  imports Path_Template Audit_Fields "HOL-Library.Product_Lexorder"
begin

text \<open>
  One invocation of the serverless gateway: \<open>crates/serverless-core/src/types.rs\<close>, \<open>status.rs\<close>,
  \<open>request_state.rs\<close> and \<open>validator_media.rs\<close>.  The header map of the http crate, the validity of
  a status code and the rendering of JSON are the operations of \<open>http_ops\<close>; the header maps
  themselves are of the type variable \<open>'h\<close>, the completion hooks of \<open>'c\<close>.
\<close>

section \<open>Status errors\<close>

record status_error =
  se_status_code :: nat
  se_code :: string
  se_message :: string
  se_description :: string
  se_severity :: string
  se_metadata :: "(string \<times> json) list option"

record 'h gateway_response =
  gr_status :: nat
  gr_headers :: 'h
  gr_body :: "string option"
  gr_body_is_binary :: bool

record 'h http_ops =
  ho_json_string :: "string \<Rightarrow> string"
  ho_json_text :: "json \<Rightarrow> string"
  ho_empty :: 'h
  ho_insert :: "'h \<Rightarrow> string \<Rightarrow> string \<Rightarrow> 'h"
  ho_entries :: "'h \<Rightarrow> (string \<times> hval) list"
  ho_append :: "'h \<Rightarrow> string \<times> hval \<Rightarrow> 'h"
  ho_status_ok :: "nat \<Rightarrow> bool"

definition status_new :: "nat \<Rightarrow> string \<Rightarrow> string \<Rightarrow> string \<Rightarrow> status_error" where
  "status_new status_code code message description =
     \<lparr>se_status_code = status_code, se_code = code, se_message = message,
      se_description = description, se_severity = ''ERROR'', se_metadata = None\<rparr>"

definition specification_path_too_large :: status_error where
  "specification_path_too_large =
     status_new 414 ''ERR14029'' ''SPECIFICATION_PATH_TOO_LARGE''
       ''Request path exceeds the supported Specification size.''"

definition handler_failure :: status_error where
  "handler_failure =
     status_new 500 ''ERR14004'' ''MIDDLEWARE_UNHANDLED_EXCEPTION''
       ''Middleware thread unhandled runtime exception.''"

definition timeout :: status_error where
  "timeout =
     status_new 504 ''ERR14017'' ''BACKEND_TIMEOUT''
       ''Backend did not respond within the request deadline.''"

definition missing_identity :: status_error where
  "missing_identity =
     status_new 401 ''ERR10002'' ''MISSING_AUTH_TOKEN''
       ''No Authorization header or the token is not bearer type''"

definition missing_target :: status_error where
  "missing_target =
     status_new 400 ''ERR10086'' ''FAILED_TO_INVOKE_LAMBDA''
       ''Failed to invoke lambda function null.''"

fun metadata_members :: "'h http_ops \<Rightarrow> (string \<times> json) list \<Rightarrow> string" where
  "metadata_members ops [] = []"
| "metadata_members ops [(k, v)] = ho_json_string ops k @ '':'' @ ho_json_text ops v"
| "metadata_members ops ((k, v) # kv # kvs) =
     ho_json_string ops k @ '':'' @ ho_json_text ops v @ '','' @ metadata_members ops (kv # kvs)"

definition quoted_member :: "string \<Rightarrow> string \<Rightarrow> string" where
  "quoted_member name value = [CHR 0x22] @ name @ [CHR 0x22] @ '':'' @ [CHR 0x22] @ value @ [CHR 0x22]"

definition status_to_bytes :: "'h http_ops \<Rightarrow> status_error \<Rightarrow> string" where
  "status_to_bytes ops e =
     ''{'' @ [CHR 0x22] @ ''statusCode'' @ [CHR 0x22] @ '':'' @ show_nat (se_status_code e)
     @ '','' @ quoted_member ''code'' (se_code e) @ '','' @ quoted_member ''message'' (se_message e)
     @ '','' @ quoted_member ''description'' (se_description e)
     @ (case se_metadata e of
          None \<Rightarrow> []
        | Some m \<Rightarrow> '','' @ [CHR 0x22] @ ''metadata'' @ [CHR 0x22] @ '':{'' @ metadata_members ops m @ ''}'')
     @ '','' @ quoted_member ''severity'' (se_severity e) @ ''}''"

definition status_response :: "'h http_ops \<Rightarrow> status_error \<Rightarrow> 'h gateway_response" where
  "status_response ops e =
     \<lparr>gr_status = (if ho_status_ok ops (se_status_code e) then se_status_code e else 500),
      gr_headers = ho_insert ops (ho_empty ops) ''content-type'' ''application/json'',
      gr_body = Some (status_to_bytes ops e), gr_body_is_binary = False\<rparr>"

section \<open>Request state\<close>

datatype request_state = Ready | Failed status_error

definition request_record :: "status_error \<Rightarrow> request_state \<Rightarrow> request_state" where
  "request_record status st =
     (if st = Ready \<and> starts_with (se_severity status) ''ERR'' then Failed status else st)"

definition request_failure :: "request_state \<Rightarrow> status_error option" where
  "request_failure st = (case st of Ready \<Rightarrow> None | Failed status \<Rightarrow> Some status)"

definition native_flags :: "request_state \<Rightarrow> nat" where
  "native_flags st = 2 + (if request_failure st \<noteq> None then 8 else 0)"

definition routing_rejection :: "request_state \<Rightarrow> status_error option" where
  "routing_rejection st =
     map_option (\<lambda>_. status_new 400 ''ERR10087'' ''EXCHANGE_HAS_FAILED_STATE''
       (''Exchange has failed state '' @ show_nat (native_flags st) @ ''.'')) (request_failure st)"

lemma request_record_first:
  "st \<noteq> Ready \<Longrightarrow> request_record status st = st"
  by (simp add: request_record_def)

section \<open>Validator media\<close>

datatype policy_failure = HandlerFailure

datatype validator_media_proof = MediaUnknown | MediaKnown "hval option"

definition exact_content_type :: "validator_media_proof \<Rightarrow> (policy_failure, hval option) result" where
  "exact_content_type p =
     (case p of MediaUnknown \<Rightarrow> Err HandlerFailure | MediaKnown v \<Rightarrow> Ok v)"

definition from_validated_ingress :: "hval option \<Rightarrow> validator_media_proof" where
  "from_validated_ingress v = MediaKnown v"

definition validates_json :: "validator_media_proof \<Rightarrow> (policy_failure, bool) result" where
  "validates_json p =
     (case p of
        MediaUnknown \<Rightarrow> Err HandlerFailure
      | MediaKnown v \<Rightarrow>
          Ok (case v of None \<Rightarrow> True | Some x \<Rightarrow> starts_with (hv_bytes x) ''application/json''))"

definition record_insert :: "string \<Rightarrow> hval \<Rightarrow> validator_media_proof \<Rightarrow> validator_media_proof" where
  "record_insert name value p =
     (if eq_ignore_ascii_case name ''content-type''
      then case p of MediaKnown _ \<Rightarrow> MediaKnown (Some value) | MediaUnknown \<Rightarrow> MediaUnknown
      else p)"

definition record_remove :: "string \<Rightarrow> validator_media_proof \<Rightarrow> validator_media_proof" where
  "record_remove name p =
     (if eq_ignore_ascii_case name ''content-type''
      then case p of MediaKnown _ \<Rightarrow> MediaKnown None | MediaUnknown \<Rightarrow> MediaUnknown
      else p)"

definition map_media_value :: "(hval \<Rightarrow> (policy_failure, hval) result) \<Rightarrow> validator_media_proof \<Rightarrow>
    (policy_failure, unit) result \<times> validator_media_proof" where
  "map_media_value transform p =
     (case p of
        MediaKnown (Some v) \<Rightarrow>
          (case transform v of Inl e \<Rightarrow> (Err e, p) | Inr v' \<Rightarrow> (Ok (), MediaKnown (Some v')))
      | _ \<Rightarrow> (Ok (), p))"

section \<open>Completion callbacks\<close>

record 'c completion_callbacks =
  cc_next_id :: nat
  cc_finished :: bool
  cc_callbacks :: "(nat \<times> 'c) list"
  cc_slots :: "(nat \<times> nat) list"
  cc_prepared :: "(nat \<times> nat) list"
  cc_active :: "(nat \<times> nat) option"

definition completion_default :: "'c completion_callbacks" where
  "completion_default =
     \<lparr>cc_next_id = 0, cc_finished = False, cc_callbacks = [], cc_slots = [], cc_prepared = [],
      cc_active = None\<rparr>"

text \<open>\<open>IdOverflow\<close> is the panic of \<open>expect\<close> when the identifiers of a \<open>u64\<close> are used up.\<close>

datatype completion_error = AlreadyFinalized | IdOverflow

definition completion_add :: "'c \<Rightarrow> 'c completion_callbacks \<Rightarrow>
    (completion_error, nat) result \<times> 'c completion_callbacks" where
  "completion_add callback cc =
     (if cc_finished cc then (Err AlreadyFinalized, cc)
      else case checked_add (cc_next_id cc) 1 of
        None \<Rightarrow> (Err IdOverflow, cc)
      | Some next \<Rightarrow>
          (Ok (cc_next_id cc),
           cc\<lparr>cc_next_id := next, cc_callbacks := cc_callbacks cc @ [(cc_next_id cc, callback)]\<rparr>))"

definition completion_prepare :: "nat \<Rightarrow> 'c \<Rightarrow> 'c completion_callbacks \<Rightarrow> 'c completion_callbacks" where
  "completion_prepare slot callback cc =
     (case completion_add callback cc of
        (Inr cid, cc') \<Rightarrow>
          cc'\<lparr>cc_slots := cc_slots cc' @ [(cid, slot)], cc_prepared := cc_prepared cc' @ [(slot, cid)]\<rparr>
      | (Inl _, cc') \<Rightarrow> cc')"

definition enter_policy :: "nat \<Rightarrow> 'c completion_callbacks \<Rightarrow> 'c completion_callbacks" where
  "enter_policy slot cc = cc\<lparr>cc_active := Some (slot, cc_next_id cc)\<rparr>"

definition leave_policy :: "'c completion_callbacks \<Rightarrow> 'c completion_callbacks" where
  "leave_policy cc =
     (case cc_active cc of
        None \<Rightarrow> cc
      | Some (slot, first) \<Rightarrow>
          cc\<lparr>cc_active := None,
             cc_slots := cc_slots cc @ map (\<lambda>(cid, _). (cid, slot))
               (filter (\<lambda>(cid, _). first \<le> cid) (cc_callbacks cc))\<rparr>)"

definition replace_callback :: "nat \<Rightarrow> 'c \<Rightarrow> (nat \<times> 'c) list \<Rightarrow> (nat \<times> 'c) list" where
  "replace_callback cid callback cs =
     (case List.extract (\<lambda>(i, _). i = cid) cs of
        None \<Rightarrow> cs
      | Some (before, _, after) \<Rightarrow> before @ (cid, callback) # after)"

definition capture_prepared :: "'c \<Rightarrow> 'c completion_callbacks \<Rightarrow>
    (completion_error, unit) result \<times> 'c completion_callbacks" where
  "capture_prepared callback cc =
     (if cc_finished cc then (Err AlreadyFinalized, cc)
      else case (case cc_active cc of
                   None \<Rightarrow> None
                 | Some (slot, _) \<Rightarrow> find (\<lambda>(s, _). s = slot) (cc_prepared cc)) of
        Some (_, cid) \<Rightarrow>
          (Ok (), cc\<lparr>cc_callbacks := replace_callback cid callback (cc_callbacks cc)\<rparr>)
      | None \<Rightarrow>
          (case completion_add callback cc of
             (Inr _, cc') \<Rightarrow> (Ok (), cc')
           | (Inl e, cc') \<Rightarrow> (Err e, cc')))"

definition completion_remove :: "nat \<Rightarrow> 'c completion_callbacks \<Rightarrow>
    (completion_error, bool) result \<times> 'c completion_callbacks" where
  "completion_remove cid cc =
     (if cc_finished cc then (Err AlreadyFinalized, cc)
      else let kept = filter (\<lambda>(i, _). i \<noteq> cid) (cc_callbacks cc)
           in (Ok (length kept \<noteq> length (cc_callbacks cc)), cc\<lparr>cc_callbacks := kept\<rparr>))"

definition slot_of :: "(nat \<times> nat) list \<Rightarrow> nat \<Rightarrow> nat" where
  "slot_of slots cid =
     (case find (\<lambda>(i, _). i = cid) slots of None \<Rightarrow> u64_max | Some (_, slot) \<Rightarrow> slot)"

definition completion_finish :: "'c completion_callbacks \<Rightarrow>
    (completion_error, 'c list) result \<times> 'c completion_callbacks" where
  "completion_finish cc =
     (if cc_finished cc then (Err AlreadyFinalized, cc)
      else let cc = (leave_policy cc)\<lparr>cc_finished := True\<rparr>;
               ordered = sort_key (\<lambda>(cid, _). (slot_of (cc_slots cc) cid, cid)) (cc_callbacks cc)
           in (Ok (map snd (rev ordered)), cc\<lparr>cc_callbacks := []\<rparr>))"

section \<open>Invocations and the exchange state\<close>

definition multimap_set :: "string \<Rightarrow> string \<Rightarrow> (string \<times> string) list \<Rightarrow> (string \<times> string) list" where
  "multimap_set key value m = filter (\<lambda>(k, _). k \<noteq> key) m @ [(key, value)]"

record 'a source_metadata =
  sm_source_ip :: "'a option"
  sm_ingress_kind :: string

record route_match =
  rm_template :: string
  rm_target :: "target option"

text \<open>Instants are numbers; a cancellation token is its identity.\<close>

record 'h invocation =
  inv_method :: string
  inv_raw_path :: string
  inv_path :: string
  inv_raw_query :: "string option"
  inv_query :: "(string \<times> string) list"
  inv_headers :: 'h
  inv_body :: "string option"
  inv_body_was_base64 :: bool
  inv_source :: "string source_metadata"
  inv_request_id :: string
  inv_deadline :: nat
  inv_response_deadline :: nat
  inv_cancel :: nat
  inv_path_params :: "(string, string) btree"
  inv_route :: "route_match option"
  inv_original :: json

record verified_principal =
  vp_principal_id :: string
  vp_client_id :: "string option"
  vp_user_id :: "string option"
  vp_claims :: json

definition from_verified :: "string \<Rightarrow> string option \<Rightarrow> string option \<Rightarrow> json \<Rightarrow> verified_principal" where
  "from_verified principal_id client_id user_id claims =
     \<lparr>vp_principal_id = principal_id, vp_client_id = client_id, vp_user_id = user_id, vp_claims = claims\<rparr>"

record audit_info =
  ai_status :: "status_error option"
  ai_fields :: audit_fields

record metrics_record =
  mr_dispatches :: nat
  mr_dispatch_latency :: nat
  mr_finalized :: bool

datatype dialect = OpenApi30 | OpenApi31

record operation_descriptor =
  od_dialect :: dialect
  od_method :: string
  od_path_template :: string
  od_operation_id :: "string option"
  od_security :: "((string, string list) btree) list option"
  od_oauth2_order :: "string list option"
  od_document :: json
  od_path_item :: json
  od_operation :: json

record ('h, 'c) exchange_state =
  es_request_state :: request_state
  es_validator_media :: validator_media_proof
  es_validator_media_pending :: "validator_media_proof option"
  es_validator_media_transaction :: bool
  es_http_route_target :: "target option"
  es_principal :: "verified_principal option"
  es_operation :: "operation_descriptor option"
  es_audit :: audit_info
  es_correlation_id :: "string option"
  es_traceability_id :: "string option"
  es_response_headers :: 'h
  es_metrics :: metrics_record
  es_completion :: "'c completion_callbacks"

definition exchange_default :: "'h http_ops \<Rightarrow> ('h, 'c) exchange_state" where
  "exchange_default ops =
     \<lparr>es_request_state = Ready, es_validator_media = MediaUnknown, es_validator_media_pending = None,
      es_validator_media_transaction = False, es_http_route_target = None, es_principal = None,
      es_operation = None, es_audit = \<lparr>ai_status = None, ai_fields = []\<rparr>, es_correlation_id = None,
      es_traceability_id = None, es_response_headers = ho_empty ops,
      es_metrics = \<lparr>mr_dispatches = 0, mr_dispatch_latency = 0, mr_finalized = False\<rparr>,
      es_completion = completion_default\<rparr>"

definition record_request_status :: "status_error \<Rightarrow> ('h, 'c) exchange_state \<Rightarrow> ('h, 'c) exchange_state" where
  "record_request_status status st = st\<lparr>es_request_state := request_record status (es_request_state st)\<rparr>"

definition exchange_request_failure :: "('h, 'c) exchange_state \<Rightarrow> status_error option" where
  "exchange_request_failure st = request_failure (es_request_state st)"

definition native_request_state :: "('h, 'c) exchange_state \<Rightarrow> nat" where
  "native_request_state st = native_flags (es_request_state st)"

definition failed_request_error :: "('h, 'c) exchange_state \<Rightarrow> status_error option" where
  "failed_request_error st = routing_rejection (es_request_state st)"

definition validator_media_is_json :: "('h, 'c) exchange_state \<Rightarrow> (policy_failure, bool) result" where
  "validator_media_is_json st = validates_json (es_validator_media st)"

definition validator_content_type :: "('h, 'c) exchange_state \<Rightarrow> (policy_failure, hval option) result" where
  "validator_content_type st = exact_content_type (es_validator_media st)"

definition commit_validator_media :: "validator_media_proof \<Rightarrow> ('h, 'c) exchange_state \<Rightarrow>
    ('h, 'c) exchange_state" where
  "commit_validator_media proof_value st =
     (if es_validator_media_transaction st then st\<lparr>es_validator_media_pending := Some proof_value\<rparr>
      else st\<lparr>es_validator_media := proof_value\<rparr>)"

definition begin_validator_media_transaction :: "('h, 'c) exchange_state \<Rightarrow> ('h, 'c) exchange_state" where
  "begin_validator_media_transaction st =
     st\<lparr>es_validator_media_pending := None, es_validator_media_transaction := True\<rparr>"

definition end_validator_media_transaction :: "bool \<Rightarrow> ('h, 'c) exchange_state \<Rightarrow> ('h, 'c) exchange_state" where
  "end_validator_media_transaction succeeded st =
     (let pending = es_validator_media_pending st;
          st = st\<lparr>es_validator_media_pending := None, es_validator_media_transaction := False\<rparr>
      in case pending of
           Some p \<Rightarrow> if succeeded then st\<lparr>es_validator_media := p\<rparr> else st
         | None \<Rightarrow> st)"

definition select_http_target :: "string \<Rightarrow> ('h, 'c) exchange_state \<Rightarrow> ('h, 'c) exchange_state" where
  "select_http_target service st =
     (if es_http_route_target st = None then st\<lparr>es_http_route_target := Some (HttpService service)\<rparr> else st)"

definition has_http_target :: "('h, 'c) exchange_state \<Rightarrow> bool" where
  "has_http_target st \<longleftrightarrow> es_http_route_target st \<noteq> None"

section \<open>Handlers and backends\<close>

text \<open>
  The world an asynchronous call can observe and change: the clock and the cancelled tokens.
  Synchronous code takes no time.  A call returns, panics, or is abandoned because the
  deadline or the cancellation ends the wait for it.
\<close>

record world =
  w_now :: nat
  w_cancelled :: "nat list"
  w_next_token :: nat

datatype 'r call = Returned 'r | Panicked | Abandoned

datatype 'h handler_outcome =
  Continue
| ContinueWithInitialResponse "'h gateway_response"
| Respond "'h gateway_response"
| Reject status_error

datatype operation_authorization_role =
  NoRole | MetadataProducer | MetadataConsumer | JwtScopes bool

record ('h, 'c) request_handler =
  rq_id :: handler_id
  rq_is_disabled_audit :: bool
  rq_role_for_selection :: "operation_selection \<Rightarrow> operation_authorization_role"
  rq_metrics_fallback_routes :: "target route list option"
  rq_prepare_completion :: "'h invocation \<Rightarrow> 'c option"
  rq_on_request :: "'h invocation \<Rightarrow> ('h, 'c) exchange_state \<Rightarrow> world \<Rightarrow>
    (policy_failure + 'h handler_outcome) call \<times> 'h invocation \<times> ('h, 'c) exchange_state \<times> world"

record ('h, 'c) response_handler =
  rs_id :: handler_id
  rs_on_response :: "'h invocation \<Rightarrow> ('h, 'c) exchange_state \<Rightarrow> 'h gateway_response \<Rightarrow> world \<Rightarrow>
    (policy_failure + unit) call \<times> ('h, 'c) exchange_state \<times> 'h gateway_response \<times> world"

type_synonym ('h, 'c) backend = "'h invocation \<Rightarrow> ('h, 'c) exchange_state \<Rightarrow> target \<Rightarrow> world \<Rightarrow>
  (status_error + 'h gateway_response) call \<times> world"

section \<open>Completion\<close>

text \<open>What a policy and the pipeline do with the registrations of an exchange.\<close>

datatype 'c completion_op =
  OpAdd 'c | OpPrepare nat 'c | OpEnter nat | OpLeave | OpCapture 'c | OpRemove nat

definition completion_step :: "'c completion_op \<Rightarrow> 'c completion_callbacks \<Rightarrow> 'c completion_callbacks" where
  "completion_step op cc =
     (case op of
        OpAdd c \<Rightarrow> snd (completion_add c cc)
      | OpPrepare slot c \<Rightarrow> completion_prepare slot c cc
      | OpEnter slot \<Rightarrow> enter_policy slot cc
      | OpLeave \<Rightarrow> leave_policy cc
      | OpCapture c \<Rightarrow> snd (capture_prepared c cc)
      | OpRemove cid \<Rightarrow> snd (completion_remove cid cc))"

definition completion_run :: "'c completion_op list \<Rightarrow> 'c completion_callbacks" where
  "completion_run ops = fold completion_step ops completion_default"

definition completion_ok :: "'c completion_callbacks \<Rightarrow> bool" where
  "completion_ok cc \<longleftrightarrow>
     sorted_wrt (<) (map fst (cc_callbacks cc)) \<and> (\<forall>cid \<in> fst ` set (cc_callbacks cc). cid < cc_next_id cc)"

lemma completion_add_ok: "completion_ok cc \<Longrightarrow> completion_ok (snd (completion_add c cc))"
  by (auto simp: completion_ok_def completion_add_def checked_add_def sorted_wrt_append less_Suc_eq)

lemma replace_callback_ids: "map fst (replace_callback cid c cs) = map fst cs"
  by (auto simp: replace_callback_def split: option.splits dest!: extract_SomeE)

lemma completion_step_ok: "completion_ok cc \<Longrightarrow> completion_ok (completion_step op cc)"
proof (cases op)
  case (OpAdd c)
  then show "completion_ok cc \<Longrightarrow> ?thesis" by (simp add: completion_step_def completion_add_ok)
next
  case (OpPrepare slot c)
  then show "completion_ok cc \<Longrightarrow> ?thesis"
    using completion_add_ok [of cc c]
    by (cases "completion_add c cc")
      (auto simp: completion_step_def completion_prepare_def completion_ok_def split: sum.splits)
next
  case (OpCapture c)
  then show "completion_ok cc \<Longrightarrow> ?thesis"
    using completion_add_ok [of cc c] replace_callback_ids [of _ c "cc_callbacks cc"]
    by (cases "completion_add c cc")
      (auto simp: completion_step_def capture_prepared_def completion_ok_def split: option.splits sum.splits
        simp flip: set_map)
next
  case (OpRemove cid)
  then show "completion_ok cc \<Longrightarrow> ?thesis"
    by (auto simp: completion_step_def completion_remove_def Let_def completion_ok_def sorted_wrt_map
        intro: sorted_wrt_filter)
qed (auto simp: completion_step_def enter_policy_def leave_policy_def completion_ok_def split: option.splits)

lemma completion_run_ok: "completion_ok (completion_run ops)"
proof -
  have step: "completion_ok cc \<Longrightarrow> completion_ok (fold completion_step ops cc)" for cc :: "'a completion_callbacks"
    by (induction ops arbitrary: cc) (simp_all add: completion_step_ok)
  show ?thesis
    unfolding completion_run_def by (rule step) (simp add: completion_ok_def completion_default_def)
qed

lemma completion_step_unfinished [simp]: "cc_finished (completion_step op cc) = cc_finished cc"
  by (auto simp: completion_step_def completion_add_def completion_prepare_def enter_policy_def leave_policy_def
      capture_prepared_def completion_remove_def Let_def split: completion_op.splits option.splits prod.splits)

lemma completion_run_unfinished: "cc_finished (fold completion_step ops cc) = cc_finished cc"
  by (induction ops arbitrary: cc) simp_all

lemma leave_policy_callbacks [simp]: "cc_callbacks (leave_policy cc) = cc_callbacks cc"
  by (auto simp: leave_policy_def split: option.splits)

lemma completion_step_finished:
  "cc_finished cc \<Longrightarrow> cc_callbacks (completion_step op cc) = cc_callbacks cc"
  by (auto simp: completion_step_def completion_add_def completion_prepare_def enter_policy_def
      capture_prepared_def completion_remove_def split: completion_op.splits)

lemma completion_run_finished:
  "cc_finished cc \<Longrightarrow> cc_callbacks (fold completion_step ops cc) = cc_callbacks cc"
  by (induction ops arbitrary: cc) (simp_all add: completion_step_finished)

lemma distinct_map_sort_key: "distinct (map f (sort_key g xs)) \<longleftrightarrow> distinct (map f xs)"
  by (rule mset_eq_imp_distinct_iff) simp

text \<open>C31: Whatever policies register, replace and remove during a request, finishing hands out
  every registration that is left exactly once, in the reverse order of the chain position and
  then of registration; afterwards nothing can be registered or handed out again.\<close>

theorem completion_hands_out_once:
  "\<exists>ordered. fst (completion_finish (completion_run ops)) = Ok (map snd (rev ordered))
     \<and> mset ordered = mset (cc_callbacks (completion_run ops)) \<and> distinct (map fst ordered)
     \<and> sorted (map (\<lambda>(cid, _). (slot_of (cc_slots (leave_policy (completion_run ops))) cid, cid)) ordered)
     \<and> (\<forall>later. let after = fold completion_step later (snd (completion_finish (completion_run ops)))
          in cc_callbacks after = [] \<and> fst (completion_finish after) = Err AlreadyFinalized)"
proof -
  let ?cc = "completion_run ops"
  let ?key = "\<lambda>(cid, _). (slot_of (cc_slots (leave_policy ?cc)) cid, cid)"
  let ?ordered = "sort_key ?key (cc_callbacks ?cc)"
  have fin: "\<not> cc_finished ?cc"
    unfolding completion_run_def completion_run_unfinished by (simp add: completion_default_def)
  have "distinct (map fst (cc_callbacks ?cc))"
    using completion_run_ok [of ops] by (simp add: completion_ok_def strict_sorted_iff)
  then have "distinct (map fst ?ordered)" by (simp add: distinct_map_sort_key)
  moreover have "completion_finish ?cc =
      (Ok (map snd (rev ?ordered)), (leave_policy ?cc)\<lparr>cc_finished := True, cc_callbacks := []\<rparr>)"
    using fin by (simp add: completion_finish_def Let_def)
  moreover have "let after = fold completion_step later ((leave_policy ?cc)\<lparr>cc_finished := True, cc_callbacks := []\<rparr>)
      in cc_callbacks after = [] \<and> fst (completion_finish after) = Err AlreadyFinalized" for later
    by (simp add: Let_def completion_run_finished completion_finish_def completion_run_unfinished)
  ultimately show ?thesis by (intro exI [of _ ?ordered]) simp
qed

end
