(* ===== verification/Path_Language.thy ===== *)
theory Path_Language
  imports Path_Template
begin

text \<open>
  What is known of the paths a template admits, before any request arrives: the prefix tests that
  authorization refinements use, and the worklist search
  \<open>template_language_has_witness\<close> (\<open>crates/serverless-core/src/plan.rs\<close>) that decides whether some
  path is admitted by all of one group of templates and by none of another.
\<close>

section \<open>Prefix tests\<close>

lemma plain_takeWhile:
  assumes "\<not> has_any ''{}*'' l"
  shows "takeWhile (\<lambda>c. c \<noteq> CHR ''{'' \<and> c \<noteq> CHR ''*'') (l @ s)
    = l @ takeWhile (\<lambda>c. c \<noteq> CHR ''{'' \<and> c \<noteq> CHR ''*'') s"
  using assms by (induction l) (auto simp: has_any_def)

lemmas plain_takeWhile_all = plain_takeWhile [where s = "[]", unfolded takeWhile.simps append_Nil2]

lemma literal_prefix_matches:
  assumes "wf_segments ss" and "matches_from ss parts"
  shows "prefix (takeWhile (\<lambda>c. c \<noteq> CHR ''{'' \<and> c \<noteq> CHR ''*'') (join_slash (map segment_text ss)))
    (join_slash parts)"
  using assms
proof (induction ss arbitrary: parts)
  case (Cons s ss)
  then obtain p ps where parts: "parts = p # ps" by (cases parts) auto
  show ?case
  proof (cases s)
    case (Literal l)
    with Cons.prems parts have l: "p = l" "\<not> has_any ''{}*'' l" and m: "matches_from ss ps" and w: "wf_segments ss"
      by simp_all
    show ?thesis
    proof (cases ss)
      case Nil
      with Literal l m parts show ?thesis by (simp add: plain_takeWhile_all)
    next
      case (Cons s2 ss2)
      with m have "ps \<noteq> []" by (cases ps) auto
      with Cons Literal l parts Cons.IH [OF w m] show ?thesis
        by (simp add: join_slash_Cons plain_takeWhile)
    qed
  next
    case (Parameter n)
    then show ?thesis by (cases ss) simp_all
  next
    case Wildcard
    then show ?thesis by (cases ss) simp_all
  qed
qed simp

fun parts_prefix :: "string list \<Rightarrow> string list \<Rightarrow> bool" where
  "parts_prefix [] qs \<longleftrightarrow> True"
| "parts_prefix (p # ps) [] \<longleftrightarrow> False"
| "parts_prefix (p # ps) (q # qs) \<longleftrightarrow> (if ps = [] then prefix p q else p = q \<and> parts_prefix ps qs)"

lemma prefix_slash_free:
  "CHR ''/'' \<notin> set p \<Longrightarrow> prefix p (q @ CHR ''/'' # s) \<Longrightarrow> prefix p q"
proof (induction p arbitrary: q)
  case (Cons c p)
  show ?case
  proof (cases q)
    case Nil
    with Cons.prems show ?thesis by simp
  next
    case (Cons d q')
    with Cons.prems Cons.IH [of q'] show ?thesis by simp
  qed
qed simp

lemma prefix_at_slash:
  assumes "CHR ''/'' \<notin> set p" and "CHR ''/'' \<notin> set q"
  shows "prefix (p @ CHR ''/'' # s) (q @ CHR ''/'' # t) \<longleftrightarrow> p = q \<and> prefix s t"
  using assms
proof (induction p arbitrary: q)
  case Nil
  then show ?case by (cases q) auto
next
  case (Cons c p)
  show ?case
  proof (cases q)
    case (Cons d q')
    with Cons.prems Cons.IH [of q'] show ?thesis by auto
  qed (use Cons.prems in auto)
qed

lemma join_prefix_parts:
  assumes "prefix (join_slash ps) (join_slash qs)" and "qs \<noteq> []"
    and "\<forall>p \<in> set ps. CHR ''/'' \<notin> set p" and "\<forall>q \<in> set qs. CHR ''/'' \<notin> set q"
  shows "parts_prefix ps qs"
  using assms
proof (induction ps arbitrary: qs)
  case (Cons p ps)
  then obtain q qs' where qs: "qs = q # qs'" by (cases qs) auto
  show ?case
  proof (cases "ps = []")
    case True
    with Cons.prems qs have "prefix p q"
      using prefix_slash_free [of p q "join_slash qs'"] by (cases "qs' = []") (simp_all add: join_slash_Cons)
    with True qs show ?thesis by simp
  next
    case False
    have "qs' \<noteq> []"
    proof
      assume "qs' = []"
      with False Cons.prems qs have "CHR ''/'' \<in> set q"
        using set_mono_prefix [of "p @ CHR ''/'' # join_slash ps" q] by (simp add: join_slash_Cons)
      with Cons.prems qs show False by simp
    qed
    with False Cons.prems Cons.IH [of qs'] qs show ?thesis by (simp add: join_slash_Cons prefix_at_slash)
  qed
qed simp

lemma parts_prefix_join: "parts_prefix ps qs \<Longrightarrow> prefix (join_slash ps) (join_slash qs)"
proof (induction ps qs rule: parts_prefix.induct)
  case (3 p ps q qs)
  then show ?case
    by (cases ps; cases qs) (auto simp: join_slash_Cons intro: prefix_append)
qed simp_all

lemma may_match_complete:
  assumes "matches_from ss qs" and "parts_prefix ps qs"
  shows "may_match_from ss ps \<or> ps = []"
  using assms
proof (induction ss ps arbitrary: qs rule: may_match_from.induct)
  case (1 ps)
  then show ?case by (cases ps) auto
next
  case (3 s ss p ps)
  then obtain q qs' where qs: "qs = q # qs'" by (cases qs) auto
  with 3 show ?case by (cases s) (auto split: if_splits)
qed simp

text \<open>A part list that a template admits.\<close>

definition sample :: "segment list \<Rightarrow> string list" where
  "sample ss = map (\<lambda>s. case s of Literal l \<Rightarrow> l | _ \<Rightarrow> ''x'') ss"

lemma sample_matches: "wf_segments ss \<Longrightarrow> matches_from ss (sample ss)"
  by (induction ss rule: wf_segments.induct) (simp_all add: sample_def)

lemma sample_free: "wf_segments ss \<Longrightarrow> \<forall>q \<in> set (sample ss). CHR ''/'' \<notin> set q"
  by (induction ss rule: wf_segments.induct) (simp_all add: sample_def)

lemma may_match_sound:
  assumes "may_match_from ss ps" and "wf_segments ss" and "ps \<noteq> []" and "\<forall>p \<in> set ps. CHR ''/'' \<notin> set p"
  shows "\<exists>qs. matches_from ss qs \<and> parts_prefix ps qs \<and> (\<forall>q \<in> set qs. CHR ''/'' \<notin> set q)"
  using assms
proof (induction ss ps rule: may_match_from.induct)
  case (3 s ss p ps)
  consider (last) "ps = []" "s \<noteq> Wildcard" | (wild) "s = Wildcard" | (more) "ps \<noteq> []" "s \<noteq> Wildcard" by blast
  then show ?case
  proof cases
    case last
    let ?q = "case s of Literal l \<Rightarrow> l | _ \<Rightarrow> p @ ''x''"
    from last 3 have "matches_from (s # ss) (?q # sample ss) \<and> parts_prefix (p # ps) (?q # sample ss)
        \<and> (\<forall>q \<in> set (?q # sample ss). CHR ''/'' \<notin> set q)"
      using sample_matches [of ss] sample_free [of ss] by (cases s) auto
    then show ?thesis by blast
  next
    case wild
    then have "matches_from (s # ss) (p # ps)" by simp
    moreover have "parts_prefix xs xs" for xs by (induction xs) auto
    ultimately show ?thesis using 3 by blast
  next
    case more
    with 3 obtain qs where "matches_from ss qs \<and> parts_prefix ps qs \<and> (\<forall>q \<in> set qs. CHR ''/'' \<notin> set q)"
      by (cases s) auto
    with more 3 have "matches_from (s # ss) (p # qs) \<and> parts_prefix (p # ps) (p # qs)
        \<and> (\<forall>q \<in> set (p # qs). CHR ''/'' \<notin> set q)" by (cases s) auto
    then show ?thesis by blast
  qed
qed simp_all

lemma configured_template:
  assumes "from_configured_route fb path verb = sel" and "known_template sel = Some t"
  shows "parse_template path = Ok t"
  using assms by (auto simp: from_configured_route_def known_template_def selection_default_def
      split: sum.splits if_splits)

lemma literal_text_prefix:
  assumes "parse_template path = Ok t" and "captures t p \<noteq> None"
  shows "prefix (takeWhile (\<lambda>c. c \<noteq> CHR ''{'' \<and> c \<noteq> CHR ''*'') (tm_text t)) p"
proof -
  note t = parse_template_Ok [OF assms(1)]
  from assms(2) obtain r where r: "p = CHR ''/'' # r" "matches_from (tm_segments t) (split_slash r)"
    unfolding captures_matches by blast
  show ?thesis
    using literal_prefix_matches [OF t(3) r(2)] t(1,2) r(1) by (simp add: join_split_slash del: split_slash_simps)
qed

lemma may_match_exact:
  assumes "parse_template path = Ok t"
  shows "may_match_from (tm_segments t) (split_slash rest) \<longleftrightarrow>
    (\<exists>p. captures t p \<noteq> None \<and> starts_with p (CHR ''/'' # rest))"
proof
  note t = parse_template_Ok [OF assms]
  assume may: "may_match_from (tm_segments t) (split_slash rest)"
  obtain qs where qs: "matches_from (tm_segments t) qs" "parts_prefix (split_slash rest) qs"
      "\<forall>q \<in> set qs. CHR ''/'' \<notin> set q"
    using may_match_sound [OF may t(3)] split_slash_free by auto
  from qs(1) t(4) have "qs \<noteq> []" by (cases "tm_segments t") auto
  with qs have "captures t (CHR ''/'' # join_slash qs) \<noteq> None"
    unfolding captures_matches by (simp add: split_join_slash del: split_slash_simps)
  moreover have "starts_with (CHR ''/'' # join_slash qs) (CHR ''/'' # rest)"
    using parts_prefix_join [OF qs(2)] by (simp add: join_split_slash del: split_slash_simps)
  ultimately show "\<exists>p. captures t p \<noteq> None \<and> starts_with p (CHR ''/'' # rest)" by blast
next
  assume "\<exists>p. captures t p \<noteq> None \<and> starts_with p (CHR ''/'' # rest)"
  then obtain r where r: "matches_from (tm_segments t) (split_slash r)" and "prefix rest r"
    unfolding captures_matches by auto
  then have "prefix (join_slash (split_slash rest)) (join_slash (split_slash r))"
    by (simp add: join_split_slash del: split_slash_simps)
  then have "parts_prefix (split_slash rest) (split_slash r)"
    by (rule join_prefix_parts) (auto dest: split_slash_free simp del: split_slash_simps)
  from may_match_complete [OF r this] split_slash_not_Nil
  show "may_match_from (tm_segments t) (split_slash rest)" by blast
qed

text \<open>The start-up tests on a configured route are right: when the route is declared a subset
  of a prefix, every path it admits starts with the prefix; and a prefix is declared unreachable
  exactly when no admitted path starts with it.\<close>

theorem prefix_tests_exact:
  assumes "known_template (from_configured_route from_bytes path verb) = Some t"
    and "pfx = CHR ''/'' # rest"
  shows "(is_subset_of_prefix (from_configured_route from_bytes path verb) pfx \<longrightarrow>
      (\<forall>p. captures t p \<noteq> None \<longrightarrow> starts_with p pfx))
    \<and> (may_match_prefix (from_configured_route from_bytes path verb) pfx \<longleftrightarrow>
      (\<exists>p. captures t p \<noteq> None \<and> starts_with p pfx))"
proof -
  have t: "parse_template path = Ok t" using configured_template [OF refl assms(1)] .
  have "may_match_prefix (from_configured_route from_bytes path verb) pfx \<longleftrightarrow>
      may_match_from (tm_segments t) (split_slash rest)"
    using assms by (simp add: may_match_prefix_def strip_slash_def del: split_slash_simps)
  moreover have "starts_with p pfx"
    if "is_subset_of_prefix (from_configured_route from_bytes path verb) pfx" "captures t p \<noteq> None" for p
    using that literal_text_prefix [OF t that(2)] assms(1) prefix_order.trans
    by (auto simp: is_subset_of_prefix_def)
  ultimately show ?thesis using may_match_exact [OF t] assms(2) by blast
qed

theorem prefix_tests_exact_witness:
  "\<exists>t. known_template (from_configured_route Some ''/pets/{id}'' ''get'') = Some t
     \<and> is_subset_of_prefix (from_configured_route Some ''/pets/{id}'' ''get'') ''/pe''
     \<and> \<not> may_match_prefix (from_configured_route Some ''/pets/{id}'' ''get'') ''/pets/1/a''
     \<and> captures t ''/pets/1'' \<noteq> None
     \<and> (\<forall>p. captures t p \<noteq> None \<longrightarrow> starts_with p ''/pe'' \<and> \<not> starts_with p ''/pets/1/a'')"
proof -
  let ?sel = "from_configured_route Some ''/pets/{id}'' ''get''"
  have facts: "case known_template ?sel of None \<Rightarrow> False | Some t \<Rightarrow> captures t ''/pets/1'' \<noteq> None"
    "is_subset_of_prefix ?sel ''/pe''" "\<not> may_match_prefix ?sel ''/pets/1/a''"
    by code_simp+
  then obtain t where t: "known_template ?sel = Some t" "captures t ''/pets/1'' \<noteq> None"
    by (auto split: option.splits)
  from prefix_tests_exact [OF t(1), of "''/pe''" "''pe''"]
    prefix_tests_exact [OF t(1), of "''/pets/1/a''" "''pets/1/a''"] t facts
  show ?thesis by blast
qed

section \<open>The witness search\<close>

definition template_accepts :: "template \<Rightarrow> nat \<Rightarrow> bool" where
  "template_accepts t depth \<longleftrightarrow>
     depth = length (tm_segments t)
     \<or> (length (tm_segments t) < depth \<and> tm_segments t \<noteq> [] \<and> last (tm_segments t) = Wildcard)"

definition template_consumes :: "template \<Rightarrow> nat \<Rightarrow> string option \<Rightarrow> bool" where
  "template_consumes t depth symbol =
     (if depth < length (tm_segments t)
      then case tm_segments t ! depth of
             Literal l \<Rightarrow> symbol = Some l
           | Parameter _ \<Rightarrow> symbol \<noteq> Some []
           | Wildcard \<Rightarrow> True
      else tm_segments t \<noteq> [] \<and> last (tm_segments t) = Wildcard)"

definition literal_at :: "nat \<Rightarrow> template \<Rightarrow> string list" where
  "literal_at depth t =
     (if depth < length (tm_segments t)
      then case tm_segments t ! depth of Literal l \<Rightarrow> [l] | _ \<Rightarrow> []
      else [])"

text \<open>A state: the depth reached and the indices of the blocked templates still in play.\<close>

type_synonym search_state = "nat \<times> nat list"

definition search_symbols :: "template list \<Rightarrow> template list \<Rightarrow> search_state \<Rightarrow> string option list" where
  "search_symbols required blocked st =
     (case st of (depth, remaining) \<Rightarrow>
        None # map Some (sort (remdups ([] # concat (map (literal_at depth)
          (required @ map ((!) blocked) remaining))))))"

definition search_succ :: "template list \<Rightarrow> template list \<Rightarrow> search_state \<Rightarrow> search_state list" where
  "search_succ required blocked st =
     (case st of (depth, remaining) \<Rightarrow>
        map (\<lambda>symbol. (Suc depth, filter (\<lambda>i. template_consumes (blocked ! i) depth symbol) remaining))
          (filter (\<lambda>symbol. list_all (\<lambda>t. template_consumes t depth symbol) required)
            (search_symbols required blocked st)))"

definition search_accepts :: "template list \<Rightarrow> template list \<Rightarrow> search_state \<Rightarrow> bool" where
  "search_accepts required blocked st \<longleftrightarrow>
     (case st of (depth, remaining) \<Rightarrow>
        0 < depth \<and> list_all (\<lambda>t. template_accepts t depth) required
        \<and> \<not> list_ex (\<lambda>i. template_accepts (blocked ! i) depth) remaining)"

text \<open>
  The loop; the top of the stack is the head of the list.  A state is searched no deeper than
  \<open>limit\<close>, which the depth reaches in steps of one.
\<close>

lemma stack_decreases:
  "\<forall>b \<in># K. b < a \<Longrightarrow> (K + M, add_mset (a :: nat) M) \<in> mult1 less_than"
  "(M, add_mset (a :: nat) M) \<in> mult1 less_than"
  by (auto intro: mult1I [where K = K] mult1I [where K = "{#}"] simp: add.commute)

lemma search_succ_depth: "st' \<in> set (search_succ required blocked st) \<Longrightarrow> fst st' = Suc (fst st)"
  by (auto simp: search_succ_def split: prod.splits)

function search_loop :: "template list \<Rightarrow> template list \<Rightarrow> nat \<Rightarrow> search_state list \<Rightarrow>
    search_state list \<Rightarrow> bool" where
  "search_loop required blocked limit [] visited = False"
| "search_loop required blocked limit (st # work) visited =
     (if st \<in> set visited then search_loop required blocked limit work visited
      else if search_accepts required blocked st then True
      else if limit \<le> fst st then search_loop required blocked limit work (st # visited)
      else search_loop required blocked limit (rev (search_succ required blocked st) @ work) (st # visited))"
  by pat_completeness auto
termination
proof (relation "inv_image (mult1 less_than)
    (\<lambda>(required, blocked, limit, work, visited). mset (map (\<lambda>st. limit - fst st) work))", goal_cases)
  case 1
  show ?case by (intro wf_inv_image wf_mult1) simp
next
  case (4 required blocked limit st work visited)
  then show ?case by (auto intro!: stack_decreases(1) simp: search_succ_depth)
qed (simp_all add: stack_decreases(2))

definition search_limit :: "template list \<Rightarrow> template list \<Rightarrow> nat" where
  "search_limit required blocked =
     Suc (Max (set (0 # map (\<lambda>t. length (tm_segments t)) (required @ blocked))))"

definition template_language_has_witness :: "template list \<Rightarrow> template list \<Rightarrow> bool" where
  "template_language_has_witness required blocked =
     search_loop required blocked (search_limit required blocked) [(0, [0..<length blocked])] []"

subsection \<open>The search explores the reachable states\<close>

inductive search_reach :: "template list \<Rightarrow> template list \<Rightarrow> nat \<Rightarrow> search_state \<Rightarrow> bool"
  for required blocked limit where
  start: "search_reach required blocked limit (0, [0..<length blocked])"
| step: "search_reach required blocked limit st \<Longrightarrow> fst st < limit \<Longrightarrow>
    st' \<in> set (search_succ required blocked st) \<Longrightarrow> search_reach required blocked limit st'"

lemma search_loop_sound:
  "search_loop r b limit work visited \<Longrightarrow> \<forall>st \<in> set work. search_reach r b limit st \<Longrightarrow>
     \<exists>st. search_reach r b limit st \<and> search_accepts r b st"
proof (induction r b limit work visited rule: search_loop.induct)
  case (2 r b limit st work visited)
  consider (hit) "search_accepts r b st" | (skip) "\<not> search_accepts r b st" "st \<in> set visited \<or> limit \<le> fst st"
    | (expand) "\<not> search_accepts r b st" "st \<notin> set visited" "fst st < limit" by fastforce
  then show ?case
  proof cases
    case hit
    with "2.prems" show ?thesis by (intro exI [of _ st]) simp
  next
    case skip
    with 2 show ?thesis by (cases "st \<in> set visited") simp_all
  next
    case expand
    with "2.prems" have "\<forall>st' \<in> set (rev (search_succ r b st) @ work). search_reach r b limit st'"
      by (auto intro: search_reach.step)
    with expand 2 show ?thesis by simp
  qed
qed simp

definition search_closed :: "template list \<Rightarrow> template list \<Rightarrow> nat \<Rightarrow> search_state set \<Rightarrow> search_state set \<Rightarrow> bool" where
  "search_closed r b limit work visited \<longleftrightarrow>
     (\<forall>st \<in> visited. \<not> search_accepts r b st \<and> (fst st < limit \<longrightarrow> set (search_succ r b st) \<subseteq> visited \<union> work))"

lemma search_loop_complete:
  "\<not> search_loop r b limit work visited \<Longrightarrow> search_closed r b limit (set work) (set visited) \<Longrightarrow>
     \<exists>V. set work \<union> set visited \<subseteq> V \<and> search_closed r b limit {} V"
proof (induction r b limit work visited rule: search_loop.induct)
  case (1 r b limit visited)
  then show ?case by auto
next
  case (2 r b limit st work visited)
  consider (seen) "st \<in> set visited" | (deep) "st \<notin> set visited" "limit \<le> fst st"
    | (expand) "st \<notin> set visited" "fst st < limit" by fastforce
  then show ?case
  proof cases
    case seen
    with "2.prems" have "search_closed r b limit (set work) (set visited)"
      by (auto simp: search_closed_def)
    with seen 2 show ?thesis by auto
  next
    case deep
    with "2.prems" have "search_closed r b limit (set work) (set (st # visited))"
      by (auto simp: search_closed_def split: if_splits)
    with deep 2 show ?thesis by (auto split: if_splits)
  next
    case expand
    with "2.prems" have "search_closed r b limit (set (rev (search_succ r b st) @ work)) (set (st # visited))"
      by (auto simp: search_closed_def split: if_splits)
    with expand 2 show ?thesis by (auto split: if_splits)
  qed
qed

lemma has_witness_reach:
  "template_language_has_witness r b \<longleftrightarrow>
     (\<exists>st. search_reach r b (search_limit r b) st \<and> search_accepts r b st)"
    (is "_ \<longleftrightarrow> ?found")
proof
  assume "template_language_has_witness r b"
  then show ?found
    unfolding template_language_has_witness_def
    by (rule search_loop_sound) (auto intro: search_reach.start)
next
  assume found: ?found
  show "template_language_has_witness r b"
  proof (rule ccontr)
    assume "\<not> template_language_has_witness r b"
    then have "\<exists>V. set [(0, [0..<length b])] \<union> set [] \<subseteq> V \<and> search_closed r b (search_limit r b) {} V"
      unfolding template_language_has_witness_def
      by (rule search_loop_complete) (simp add: search_closed_def)
    then obtain V where V: "(0, [0..<length b]) \<in> V" "search_closed r b (search_limit r b) {} V" by auto
    have "st \<in> V" if "search_reach r b (search_limit r b) st" for st
      using that V by (induction rule: search_reach.induct) (auto simp: search_closed_def)
    with found V(2) show False by (auto simp: search_closed_def)
  qed
qed

subsection \<open>States and paths\<close>

lemma template_consumes_Cons:
  "ss \<noteq> [] \<Longrightarrow> template_consumes \<lparr>tm_text = x, tm_segments = s # ss\<rparr> (Suc j) symbol
     = template_consumes \<lparr>tm_text = x, tm_segments = ss\<rparr> j symbol"
  by (simp add: template_consumes_def)

lemma template_accepts_Cons:
  "ss \<noteq> [] \<Longrightarrow> template_accepts \<lparr>tm_text = x, tm_segments = s # ss\<rparr> (Suc n)
     = template_accepts \<lparr>tm_text = x, tm_segments = ss\<rparr> n"
  by (simp add: template_accepts_def)

definition consumes_parts :: "template \<Rightarrow> string list \<Rightarrow> bool" where
  "consumes_parts t qs \<longleftrightarrow> (\<forall>j < length qs. template_consumes t j (Some (qs ! j)))"

lemma matches_single:
  "matches_from [s] qs \<longleftrightarrow>
     template_accepts \<lparr>tm_text = x, tm_segments = [s]\<rparr> (length qs)
     \<and> consumes_parts \<lparr>tm_text = x, tm_segments = [s]\<rparr> qs"
  by (cases s; cases qs)
    (auto simp: template_accepts_def template_consumes_def consumes_parts_def All_less_Suc2)

lemma matches_segments:
  "wf_segments ss \<Longrightarrow> ss \<noteq> [] \<Longrightarrow>
     matches_from ss qs \<longleftrightarrow>
       template_accepts \<lparr>tm_text = x, tm_segments = ss\<rparr> (length qs)
       \<and> consumes_parts \<lparr>tm_text = x, tm_segments = ss\<rparr> qs"
proof (induction ss arbitrary: qs)
  case (Cons s ss)
  show ?case
  proof (cases "ss = []")
    case True
    then show ?thesis by (simp add: matches_single)
  next
    case ss: False
    then have wild: "s \<noteq> Wildcard" and wf: "wf_segments ss" using Cons.prems by (cases s; auto)+
    show ?thesis
    proof (cases qs)
      case Nil
      with ss show ?thesis by (simp add: template_accepts_def)
    next
      case (Cons q qs')
      with Cons.IH [OF wf ss, of qs'] ss wild show ?thesis
        by (cases s) (auto simp: consumes_parts_def template_accepts_Cons template_consumes_Cons
            All_less_Suc2 template_consumes_def [of _ 0])
    qed
  qed
qed simp

lemma matches_iff_consumes:
  assumes "wf_segments (tm_segments t)" and "tm_segments t \<noteq> []"
  shows "matches_from (tm_segments t) qs \<longleftrightarrow> template_accepts t (length qs) \<and> consumes_parts t qs"
  using matches_segments [OF assms, of qs "tm_text t"] by (cases t) simp

text \<open>The state a concrete path leads to.\<close>

definition run_state :: "template list \<Rightarrow> string list \<Rightarrow> search_state" where
  "run_state blocked qs = (length qs, filter (\<lambda>i. consumes_parts (blocked ! i) qs) [0..<length blocked])"

definition symbol_of :: "string list \<Rightarrow> string \<Rightarrow> string option" where
  "symbol_of lits p = (if p = [] \<or> p \<in> set lits then Some p else None)"

definition state_literals :: "template list \<Rightarrow> template list \<Rightarrow> search_state \<Rightarrow> string list" where
  "state_literals required blocked st =
     concat (map (literal_at (fst st)) (required @ map ((!) blocked) (snd st)))"

lemma search_symbols_set:
  "set (search_symbols r b st) = insert None (Some ` insert [] (set (state_literals r b st)))"
  by (cases st) (simp only: search_symbols_def state_literals_def prod.case list.set set_map set_sort
      set_remdups fst_conv snd_conv)

lemma symbol_of_in_symbols: "symbol_of (state_literals r b st) p \<in> set (search_symbols r b st)"
  by (auto simp: search_symbols_set symbol_of_def)

lemma consumes_symbol_of:
  "set (literal_at d t) \<subseteq> set lits \<Longrightarrow>
     template_consumes t d (symbol_of lits p) \<longleftrightarrow> template_consumes t d (Some p)"
  by (cases "d < length (tm_segments t)"; cases "tm_segments t ! d")
    (simp_all add: template_consumes_def literal_at_def symbol_of_def, blast)

lemma consumes_parts_snoc:
  "consumes_parts t (qs @ [p]) \<longleftrightarrow> consumes_parts t qs \<and> template_consumes t (length qs) (Some p)"
  by (auto simp: consumes_parts_def nth_append less_Suc_eq)

lemma search_succ_iff:
  "st' \<in> set (search_succ r b st) \<longleftrightarrow>
     (\<exists>symbol \<in> set (search_symbols r b st). (\<forall>t \<in> set r. template_consumes t (fst st) symbol)
        \<and> st' = (Suc (fst st), filter (\<lambda>i. template_consumes (b ! i) (fst st) symbol) (snd st)))"
  by (cases st) (auto simp: search_succ_def list_all_iff)

lemma succ_run_state:
  assumes "\<forall>t \<in> set r. template_consumes t (length qs) (Some p)"
  shows "run_state b (qs @ [p]) \<in> set (search_succ r b (run_state b qs))"
proof -
  let ?st = "run_state b qs"
  let ?lits = "state_literals r b ?st"
  have depth: "fst ?st = length qs" by (simp add: run_state_def)
  have req: "template_consumes t (length qs) (symbol_of ?lits p) \<longleftrightarrow> template_consumes t (length qs) (Some p)"
    if "t \<in> set r" for t
    by (rule consumes_symbol_of) (use that in \<open>auto simp: state_literals_def depth\<close>)
  have blk: "template_consumes (b ! i) (length qs) (symbol_of ?lits p) \<longleftrightarrow>
      template_consumes (b ! i) (length qs) (Some p)" if "i \<in> set (snd ?st)" for i
    by (rule consumes_symbol_of) (use that in \<open>auto simp: state_literals_def depth\<close>)
  have "filter (\<lambda>i. template_consumes (b ! i) (length qs) (symbol_of ?lits p)) (snd ?st)
      = filter (\<lambda>i. template_consumes (b ! i) (length qs) (Some p)) (snd ?st)"
    by (rule filter_cong) (use blk in auto)
  then have "run_state b (qs @ [p]) =
      (Suc (length qs), filter (\<lambda>i. template_consumes (b ! i) (length qs) (symbol_of ?lits p)) (snd ?st))"
    by (simp add: run_state_def consumes_parts_snoc conj_commute)
  moreover have "\<forall>t \<in> set r. template_consumes t (length qs) (symbol_of ?lits p)"
    using assms req by simp
  ultimately show ?thesis
    unfolding search_succ_iff depth using symbol_of_in_symbols [of r b ?st p] by blast
qed

lemma path_reaches:
  "\<forall>t \<in> set r. consumes_parts t qs \<Longrightarrow> length qs \<le> limit \<Longrightarrow> search_reach r b limit (run_state b qs)"
proof (induction qs rule: rev_induct)
  case Nil
  have "run_state b [] = (0, [0..<length b])" by (simp add: run_state_def consumes_parts_def)
  then show ?case by (simp add: search_reach.start)
next
  case (snoc p qs)
  then have "search_reach r b limit (run_state b qs)" by (simp add: consumes_parts_snoc)
  moreover have "fst (run_state b qs) < limit" using snoc.prems by (simp add: run_state_def)
  moreover have "run_state b (qs @ [p]) \<in> set (search_succ r b (run_state b qs))"
    using snoc.prems by (intro succ_run_state) (simp add: consumes_parts_snoc)
  ultimately show ?case by (rule search_reach.step)
qed

lemma fresh_part: "\<exists>p. p \<noteq> [] \<and> p \<notin> set lits \<and> CHR ''/'' \<notin> set p"
proof -
  let ?p = "replicate (Suc (Max (set (0 # map length lits)))) CHR ''x''"
  have "length q < length ?p" if "q \<in> set lits" for q
    using that by (simp add: le_imp_less_Suc)
  then have "?p \<notin> set lits" by blast
  then show ?thesis by (intro exI [of _ ?p]) auto
qed

lemma symbol_realised:
  assumes "symbol \<in> set (search_symbols r b st)"
    and "\<forall>l \<in> set (state_literals r b st). CHR ''/'' \<notin> set l"
  shows "\<exists>p. symbol_of (state_literals r b st) p = symbol \<and> CHR ''/'' \<notin> set p"
proof (cases symbol rule: option.exhaust)
  case None
  with fresh_part [of "state_literals r b st"] show ?thesis by (auto simp: symbol_of_def)
next
  case (Some l)
  with assms show ?thesis by (intro exI [of _ l]) (auto simp: search_symbols_set symbol_of_def)
qed

definition parsed :: "template \<Rightarrow> bool" where
  "parsed t \<longleftrightarrow> wf_segments (tm_segments t) \<and> tm_segments t \<noteq> []"

lemma wf_segments_nth: "wf_segments ss \<Longrightarrow> i < length ss \<Longrightarrow> ss ! i = Literal l \<Longrightarrow> CHR ''/'' \<notin> set l"
proof (induction ss arbitrary: i rule: wf_segments.induct)
  case (2 ss)
  then show ?case by (cases i) simp_all
qed (auto simp: less_Suc_eq_0_disj)

lemma state_literals_free:
  assumes "\<forall>t \<in> set r \<union> set b. parsed t" and "\<forall>i \<in> set (snd st). i < length b"
  shows "\<forall>l \<in> set (state_literals r b st). CHR ''/'' \<notin> set l"
  using assms wf_segments_nth
  by (fastforce simp: state_literals_def literal_at_def parsed_def split: if_splits segment.splits)

lemma reach_realised:
  assumes "search_reach r b limit st" and ps: "\<forall>t \<in> set r \<union> set b. parsed t"
  shows "\<exists>qs. st = run_state b qs \<and> (\<forall>t \<in> set r. consumes_parts t qs) \<and> (\<forall>q \<in> set qs. CHR ''/'' \<notin> set q)"
  using assms(1)
proof (induction rule: search_reach.induct)
  case start
  show ?case by (intro exI [of _ "[]"]) (simp add: run_state_def consumes_parts_def)
next
  case (step st st')
  then obtain qs where st: "st = run_state b qs" and req: "\<forall>t \<in> set r. consumes_parts t qs"
    and free: "\<forall>q \<in> set qs. CHR ''/'' \<notin> set q" by blast
  from step(3) obtain symbol where sy: "symbol \<in> set (search_symbols r b st)"
    and c: "\<forall>t \<in> set r. template_consumes t (fst st) symbol"
    and st': "st' = (Suc (fst st), filter (\<lambda>i. template_consumes (b ! i) (fst st) symbol) (snd st))"
    unfolding search_succ_iff by blast
  have "\<forall>i \<in> set (snd st). i < length b" by (simp add: st run_state_def)
  from symbol_realised [OF sy state_literals_free [OF ps this]] obtain p
    where p: "symbol_of (state_literals r b st) p = symbol" "CHR ''/'' \<notin> set p" by blast
  have same: "template_consumes t (fst st) symbol \<longleftrightarrow> template_consumes t (length qs) (Some p)"
    if "t \<in> set r \<or> (\<exists>i \<in> set (snd st). t = b ! i)" for t
    unfolding p(1) [symmetric] using that
    by (subst consumes_symbol_of) (auto simp: state_literals_def st run_state_def)
  have "template_consumes (b ! i) (length qs) symbol \<longleftrightarrow> template_consumes (b ! i) (length qs) (Some p)"
    if "i \<in> set [0..<length b]" "consumes_parts (b ! i) qs" for i
    using same [of "b ! i"] that by (auto simp: st run_state_def)
  then have "st' = run_state b (qs @ [p])"
    by (auto simp: st' st run_state_def consumes_parts_snoc intro!: filter_cong)
  with c same req free p(2) show ?case
    by (intro exI [of _ "qs @ [p]"]) (auto simp: consumes_parts_snoc)
qed

lemma search_accepts_run_state:
  assumes "\<forall>t \<in> set r. consumes_parts t qs"
  shows "search_accepts r b (run_state b qs) \<longleftrightarrow>
    qs \<noteq> [] \<and> (\<forall>t \<in> set r. template_accepts t (length qs) \<and> consumes_parts t qs)
    \<and> (\<forall>t \<in> set b. \<not> (template_accepts t (length qs) \<and> consumes_parts t qs))"
proof -
  have "(\<forall>t \<in> set b. P t) \<longleftrightarrow> (\<forall>i < length b. P (b ! i))" for P by (simp add: all_set_conv_all_nth)
  then show ?thesis
    using assms by (auto simp: search_accepts_def run_state_def list_all_iff list_ex_iff)
qed

lemma segments_below_limit: "t \<in> set r \<union> set b \<Longrightarrow> length (tm_segments t) < search_limit r b"
  by (auto simp: search_limit_def less_Suc_eq_le)

lemma accepts_beyond:
  assumes "length (tm_segments t) < n" and "n \<le> length qs"
  shows "template_accepts t (length qs) \<and> consumes_parts t qs \<longleftrightarrow>
    template_accepts t n \<and> consumes_parts t (take n qs)"
proof -
  have "consumes_parts t qs \<longleftrightarrow> consumes_parts t (take n qs)"
    if "tm_segments t \<noteq> []" "last (tm_segments t) = Wildcard"
  proof
    assume short: "consumes_parts t (take n qs)"
    show "consumes_parts t qs"
      unfolding consumes_parts_def
    proof (intro allI impI)
      fix j assume "j < length qs"
      with short assms that show "template_consumes t j (Some (qs ! j))"
        by (cases "j < n") (auto simp: consumes_parts_def template_consumes_def)
    qed
  qed (use assms in \<open>simp add: consumes_parts_def\<close>)
  with assms show ?thesis by (auto simp: template_accepts_def)
qed

text \<open>A path longer than the limit is no more telling than its first parts.\<close>

lemma witness_shortened:
  assumes "qs \<noteq> []" and "\<forall>t \<in> set r. template_accepts t (length qs) \<and> consumes_parts t qs"
    and "\<forall>t \<in> set b. \<not> (template_accepts t (length qs) \<and> consumes_parts t qs)"
  shows "\<exists>ps. ps \<noteq> [] \<and> length ps \<le> search_limit r b
    \<and> (\<forall>t \<in> set r. template_accepts t (length ps) \<and> consumes_parts t ps)
    \<and> (\<forall>t \<in> set b. \<not> (template_accepts t (length ps) \<and> consumes_parts t ps))"
proof (cases "length qs \<le> search_limit r b")
  case True
  with assms show ?thesis by blast
next
  case False
  let ?ps = "take (search_limit r b) qs"
  have len: "length ?ps = search_limit r b" using False by simp
  have same: "template_accepts t (length ?ps) \<and> consumes_parts t ?ps \<longleftrightarrow>
      template_accepts t (length qs) \<and> consumes_parts t qs" if "t \<in> set r \<union> set b" for t
    unfolding len using accepts_beyond [OF segments_below_limit [OF that], of qs] False by simp
  have "?ps \<noteq> []" using assms(1) by (simp add: search_limit_def)
  with same assms(2,3) len show ?thesis by (intro exI [of _ ?ps]) simp
qed

lemma captures_parts:
  assumes "parsed t"
  shows "captures t (CHR ''/'' # rest) \<noteq> None \<longleftrightarrow>
    template_accepts t (length (split_slash rest)) \<and> consumes_parts t (split_slash rest)"
  using assms matches_iff_consumes [of t "split_slash rest"]
  unfolding captures_matches by (simp add: parsed_def del: split_slash_simps)

text \<open>C20: The start-up search decides exactly whether some path is admitted by every required
  template and by none of the blocked ones.\<close>

theorem language_witness_exact:
  assumes "\<forall>t \<in> set required \<union> set blocked. parsed t"
  shows "template_language_has_witness required blocked \<longleftrightarrow>
    (\<exists>rest. (\<forall>t \<in> set required. captures t (CHR ''/'' # rest) \<noteq> None)
       \<and> (\<forall>t \<in> set blocked. captures t (CHR ''/'' # rest) = None))"
    (is "_ \<longleftrightarrow> ?path")
proof
  assume "template_language_has_witness required blocked"
  then obtain st where st: "search_reach required blocked (search_limit required blocked) st"
    and acc: "search_accepts required blocked st" by (auto simp: has_witness_reach)
  from reach_realised [OF st assms] obtain qs where qs: "st = run_state blocked qs"
    "\<forall>t \<in> set required. consumes_parts t qs" "\<forall>q \<in> set qs. CHR ''/'' \<notin> set q" by blast
  note ok = acc [unfolded qs(1) search_accepts_run_state [OF qs(2)]]
  have "split_slash (join_slash qs) = qs" using ok qs(3) by (intro split_join_slash) auto
  with ok assms captures_parts [of _ "join_slash qs"] show ?path
    by (intro exI [of _ "join_slash qs"]) (metis UnI1 UnI2)
next
  assume ?path
  then obtain rest where rest: "\<forall>t \<in> set required. captures t (CHR ''/'' # rest) \<noteq> None"
    "\<forall>t \<in> set blocked. captures t (CHR ''/'' # rest) = None" by blast
  with assms captures_parts [of _ rest]
  have "\<forall>t \<in> set required. template_accepts t (length (split_slash rest)) \<and> consumes_parts t (split_slash rest)"
    "\<forall>t \<in> set blocked. \<not> (template_accepts t (length (split_slash rest)) \<and> consumes_parts t (split_slash rest))"
    by (metis UnI1, metis UnI2)
  from witness_shortened [OF split_slash_not_Nil this] obtain ps where ps: "ps \<noteq> []"
    "length ps \<le> search_limit required blocked"
    "\<forall>t \<in> set required. template_accepts t (length ps) \<and> consumes_parts t ps"
    "\<forall>t \<in> set blocked. \<not> (template_accepts t (length ps) \<and> consumes_parts t ps)" by blast
  then have "search_reach required blocked (search_limit required blocked) (run_state blocked ps)"
    by (intro path_reaches) auto
  moreover have "search_accepts required blocked (run_state blocked ps)"
    using ps by (subst search_accepts_run_state) auto
  ultimately show "template_language_has_witness required blocked"
    unfolding has_witness_reach by blast
qed

definition seg_template :: "segment list \<Rightarrow> template" where
  "seg_template ss = \<lparr>tm_text = CHR ''/'' # join_slash (map segment_text ss), tm_segments = ss\<rparr>"

theorem language_witness_exact_witness:
  "(\<exists>rest. captures (seg_template [Literal ''pets'', Wildcard]) (CHR ''/'' # rest) \<noteq> None
      \<and> captures (seg_template [Literal ''pets'', Parameter ''id'']) (CHR ''/'' # rest) = None)
   \<and> \<not> (\<exists>rest. captures (seg_template [Literal ''pets'', Literal ''x'']) (CHR ''/'' # rest) \<noteq> None
      \<and> captures (seg_template [Literal ''pets'', Parameter ''id'']) (CHR ''/'' # rest) = None)"
proof -
  have "template_language_has_witness [seg_template [Literal ''pets'', Wildcard]]
      [seg_template [Literal ''pets'', Parameter ''id'']]"
    "\<not> template_language_has_witness [seg_template [Literal ''pets'', Literal ''x'']]
      [seg_template [Literal ''pets'', Parameter ''id'']]"
    by code_simp+
  moreover have "parsed (seg_template [Literal ''pets'', Wildcard])"
    "parsed (seg_template [Literal ''pets'', Parameter ''id''])"
    "parsed (seg_template [Literal ''pets'', Literal ''x''])" by code_simp+
  ultimately show ?thesis
    using language_witness_exact [of "[seg_template [Literal ''pets'', Wildcard]]"
        "[seg_template [Literal ''pets'', Parameter ''id'']]"]
      language_witness_exact [of "[seg_template [Literal ''pets'', Literal ''x'']]"
        "[seg_template [Literal ''pets'', Parameter ''id'']]"] by simp
qed

end
