(* ===== verification/Exec_Plan.thy ===== *)
theory Exec_Plan
  imports Exchange Path_Language
begin

text \<open>
  The execution plan of the serverless gateway: \<open>crates/serverless-core/src/compat.rs\<close> (the fixed
  handler classes) and \<open>plan.rs\<close> (the handler registry, the expansion of named chains, the
  compilation of a chain and of the whole plan, and the selection of a chain for an invocation).
  The parser of serde_json and \<open>http::Method::from_bytes\<close> are arguments.
\<close>

section \<open>Handler classes\<close>

datatype disposition = Equivalent | IntentionalChange | DeferredDisposition

datatype phase = RequestPhase | ResponsePhase | DispatchPhase | LocalPhase

record compatibility =
  co_class :: string
  co_alias :: string
  co_id :: handler_id
  co_phase :: phase
  co_disposition :: disposition

definition compat_entry :: "string \<Rightarrow> string \<Rightarrow> handler_id \<Rightarrow> phase \<Rightarrow> disposition \<Rightarrow> compatibility" where
  "compat_entry cls alias hid ph disp =
     \<lparr>co_class = ''com.networknt.aws.lambda.handler.'' @ cls, co_alias = alias, co_id = hid,
      co_phase = ph, co_disposition = disp\<rparr>"

definition COMPATIBILITY :: "compatibility list" where
  "COMPATIBILITY =
     [compat_entry ''middleware.metrics.APMMetricsMiddleware'' ''metrics'' Metrics RequestPhase IntentionalChange,
      compat_entry ''middleware.metrics.InfluxMetricsMiddleware'' ''metrics'' Metrics RequestPhase DeferredDisposition,
      compat_entry ''middleware.limit.LimitMiddleware'' ''limit'' Limit RequestPhase Equivalent,
      compat_entry ''middleware.traceability.TraceabilityMiddleware'' ''traceability'' Traceability RequestPhase Equivalent,
      compat_entry ''middleware.correlation.CorrelationMiddleware'' ''correlation'' Correlation RequestPhase Equivalent,
      compat_entry ''middleware.cors.RequestCorsMiddleware'' ''requestCors'' RequestCors RequestPhase Equivalent,
      compat_entry ''middleware.cors.ResponseCorsMiddleware'' ''responseCors'' ResponseCors ResponsePhase Equivalent,
      compat_entry ''middleware.header.RequestHeaderMiddleware'' ''requestHeader'' RequestHeader RequestPhase Equivalent,
      compat_entry ''middleware.header.ResponseHeaderMiddleware'' ''responseHeader'' ResponseHeader ResponsePhase Equivalent,
      compat_entry ''middleware.transformer.RequestTransformerMiddleware'' ''requestTransformer'' RequestTransformer RequestPhase Equivalent,
      compat_entry ''middleware.transformer.ResponseTransformerMiddleware'' ''responseTransformer'' ResponseTransformer ResponsePhase Equivalent,
      compat_entry ''middleware.audit.AuditMiddleware'' ''audit'' AuditHandler RequestPhase Equivalent,
      compat_entry ''middleware.token.TokenMiddleware'' ''token'' Token RequestPhase Equivalent,
      compat_entry ''middleware.router.LambdaRouterMiddleware'' ''router'' Router RequestPhase Equivalent,
      compat_entry ''middleware.specification.OpenApiMiddleware'' ''specification'' Specification RequestPhase Equivalent,
      compat_entry ''middleware.security.UnifiedSecurityMiddleware'' ''security'' Security RequestPhase Equivalent,
      compat_entry ''middleware.security.JwtVerifyMiddleware'' ''jwt'' Jwt RequestPhase Equivalent,
      compat_entry ''middleware.security.SwtVerifyMiddleware'' ''swt'' Swt RequestPhase DeferredDisposition,
      compat_entry ''middleware.security.BasicAuthMiddleware'' ''basic'' BasicHandler RequestPhase Equivalent,
      compat_entry ''middleware.security.ApiKeyMiddleware'' ''apikey'' ApiKeyHandler RequestPhase Equivalent,
      compat_entry ''middleware.sanitizer.SanitizerMiddleware'' ''sanitizer'' Sanitizer RequestPhase Equivalent,
      compat_entry ''middleware.validator.ValidatorMiddleware'' ''validator'' Validator RequestPhase Equivalent,
      compat_entry ''middleware.proxy.LambdaProxyMiddleware'' ''proxy'' Proxy DispatchPhase Equivalent,
      compat_entry ''health.HealthCheckHandler'' ''health'' Health LocalPhase Equivalent,
      compat_entry ''info.ServerInfoHandler'' ''info'' Info LocalPhase Equivalent,
      compat_entry ''logger.LoggerGetHandler'' ''getLogger'' GetLogger LocalPhase Equivalent,
      compat_entry ''logger.LoggerSetHandler'' ''setLogger'' SetLogger LocalPhase IntentionalChange,
      compat_entry ''cache.CacheExplorerHandler'' ''cache'' Cache LocalPhase DeferredDisposition]"

definition compat_lookup :: "string \<Rightarrow> compatibility option" where
  "compat_lookup cls = find (\<lambda>c. co_class c = cls) COMPATIBILITY"

section \<open>The registry\<close>

record audit_config =
  ac_audit_on_error :: bool
  ac_audit_stack_trace :: bool

record request_capabilities =
  rc_establishes_verified_identity :: bool
  rc_requires_verified_identity :: bool

definition for_limit :: "string \<Rightarrow> string option \<Rightarrow> (init_error, request_capabilities) result" where
  "for_limit key resolver =
     (let key = to_ascii_lowercase key
      in if key \<notin> set [''server'', ''instance'', ''address'', ''client'', ''user'']
            \<and> \<not> starts_with key ''jwt''
         then Err (Malformed ''limit key'')
         else let jwt_resolver =
                    (case resolver of
                       None \<Rightarrow> False
                     | Some r \<Rightarrow> starts_with (to_ascii_lowercase (last (split_chars ''.'' r))) ''jwt'')
              in Ok \<lparr>rc_establishes_verified_identity = False,
                     rc_requires_verified_identity =
                       (key = ''client'' \<or> key = ''user'' \<or> starts_with key ''jwt'' \<or> jwt_resolver)\<rparr>)"

datatype ('h, 'c) binding =
  RequestBinding "('h, 'c) request_handler" request_capabilities
| ResponseBinding "('h, 'c) response_handler"
| DispatchBinding "target route list"
| LocalBinding "('h, 'c) request_handler"

datatype validator_media_role = Unspecified | Preserves | Maintains | Requires

record ('h, 'c) handler_factory =
  hf_validator_media_role :: validator_media_role
  hf_build :: "compatibility \<Rightarrow> string \<Rightarrow> (init_error, ('h, 'c) binding) result"

datatype ('h, 'c) registration = Disabled | Factory "('h, 'c) handler_factory"

type_synonym ('h, 'c) registry = "handler_id \<rightharpoonup> ('h, 'c) registration"

definition registry_disable :: "handler_id \<Rightarrow> ('h, 'c) registry \<Rightarrow> ('h, 'c) registry" where
  "registry_disable hid reg = reg(hid \<mapsto> Disabled)"

definition registry_register :: "handler_id \<Rightarrow> ('h, 'c) handler_factory \<Rightarrow> ('h, 'c) registry \<Rightarrow>
    ('h, 'c) registry" where
  "registry_register hid factory reg = reg(hid \<mapsto> Factory factory)"

definition binding_valid :: "compatibility \<Rightarrow> ('h, 'c) binding \<Rightarrow> bool" where
  "binding_valid c b =
     (case (b, co_phase c) of
        (RequestBinding h caps, RequestPhase) \<Rightarrow>
          rq_id h = co_id c
          \<and> (\<not> rc_establishes_verified_identity caps
              \<or> co_id c \<in> set [Security, Jwt, BasicHandler, ApiKeyHandler])
          \<and> (\<not> rc_requires_verified_identity caps \<or> co_id c = Limit)
      | (ResponseBinding h, ResponsePhase) \<Rightarrow> rs_id h = co_id c
      | (LocalBinding h, LocalPhase) \<Rightarrow> rq_id h = co_id c
      | (DispatchBinding _, DispatchPhase) \<Rightarrow> True
      | _ \<Rightarrow> False)"

definition registry_build :: "('h, 'c) registry \<Rightarrow> compatibility \<Rightarrow> string \<Rightarrow>
    (init_error, (('h, 'c) binding \<times> validator_media_role) option) result" where
  "registry_build reg c alias =
     (case reg (co_id c) of
        Some Disabled \<Rightarrow> Ok None
      | entry \<Rightarrow>
          if co_disposition c = DeferredDisposition then Err (Deferred (co_id c))
          else case entry of
            Some (Factory factory) \<Rightarrow>
              rtry (hf_build factory c alias) (\<lambda>b.
                if \<not> binding_valid c b then Err (FactoryContract (co_id c))
                else if co_id c = AuditHandler
                        \<and> (case b of RequestBinding h _ \<Rightarrow> rq_is_disabled_audit h | _ \<Rightarrow> False)
                then Ok None
                else Ok (Some (b, hf_validator_media_role factory)))
          | _ \<Rightarrow> Err (Unimplemented (co_id c)))"

section \<open>Expanding chains\<close>

type_synonym ('h, 'c) aliases =
  "(string, compatibility \<times> (('h, 'c) binding \<times> validator_media_role) option) btree"

type_synonym ('h, 'c) selected_binding = "handler_id \<times> ('h, 'c) binding \<times> validator_media_role"

lemma chain_names_decrease:
  assumes "bt_get chs name = Some chain" and "name \<notin> set stack"
  shows "card (fst ` set chs - set (name # stack)) < card (fst ` set chs - set stack)"
proof -
  from assms(1) have "name \<in> fst ` set chs" by (auto simp: bt_get_def dest!: map_of_SomeD intro: rev_image_eqI)
  with assms(2) have "fst ` set chs - set (name # stack) \<subset> fst ` set chs - set stack" by auto
  then show ?thesis by (simp add: psubset_card_mono)
qed

text \<open>The names being expanded are the stack; an expansion leaves it as it found it.\<close>

function flatten :: "(string, string list) btree \<Rightarrow> ('h, 'c) aliases \<Rightarrow> string list \<Rightarrow> string list \<Rightarrow>
    (init_error, ('h, 'c) selected_binding list) result" where
  "flatten chs aliases [] stack = Ok []"
| "flatten chs aliases (name # rest) stack =
     (case bt_get chs name of
        Some chain \<Rightarrow>
          if name \<in> set stack then Err (Cycle name)
          else rtry (flatten chs aliases chain (name # stack)) (\<lambda>xs.
               rtry (flatten chs aliases rest stack) (\<lambda>ys. Ok (xs @ ys)))
      | None \<Rightarrow>
          (case bt_get aliases name of
             None \<Rightarrow> Err (UnknownAlias name)
           | Some (c, b) \<Rightarrow>
               rtry (flatten chs aliases rest stack) (\<lambda>ys.
                 Ok (case b of Some (bnd, media) \<Rightarrow> (co_id c, bnd, media) # ys | None \<Rightarrow> ys))))"
  by pat_completeness auto
termination
  by (relation "measures [\<lambda>(chs, aliases, exec, stack). card (fst ` set chs - set stack),
      \<lambda>(chs, aliases, exec, stack). length exec]")
    (auto dest: chain_names_decrease)

section \<open>Compiling a chain\<close>

datatype ('h, 'c) terminal = Dispatch "target route list" | Local "('h, 'c) request_handler"

record ('h, 'c) compiled_chain =
  ch_request :: "(('h, 'c) request_handler \<times> request_capabilities) list"
  ch_terminal :: "('h, 'c) terminal"
  ch_response :: "('h, 'c) response_handler list"
  ch_ids :: "handler_id list"
  ch_media_roles :: "validator_media_role list"

definition keeps_selection :: "handler_id \<Rightarrow> bool" where
  "keeps_selection hid \<longleftrightarrow>
     hid \<in> set [Correlation, Traceability, RequestHeader, RequestCors, Jwt, Security, BasicHandler,
       ApiKeyHandler, Limit, Token, AuditHandler, Metrics, Specification]"

fun chain_roles :: "operation_selection \<Rightarrow> ('h, 'c) selected_binding list \<Rightarrow>
    operation_authorization_role list" where
  "chain_roles sel [] = []"
| "chain_roles sel ((hid, b, media) # bs) =
     (case b of
        RequestBinding h _ \<Rightarrow>
          rq_role_for_selection h sel
            # chain_roles (if keeps_selection hid then sel else selection_default) bs
      | _ \<Rightarrow> NoRole # chain_roles sel bs)"

record ('h, 'c) chain_state =
  cs_pending_operation_check :: bool
  cs_has_operation_metadata :: bool
  cs_request :: "(('h, 'c) request_handler \<times> request_capabilities) list"
  cs_media_roles :: "validator_media_role list"
  cs_response :: "('h, 'c) response_handler list"
  cs_terminal :: "('h, 'c) terminal option"
  cs_identity :: bool
  cs_ids :: "handler_id list"

definition chain_start :: "('h, 'c) chain_state" where
  "chain_start =
     \<lparr>cs_pending_operation_check = False, cs_has_operation_metadata = False, cs_request = [],
      cs_media_roles = [], cs_response = [], cs_terminal = None, cs_identity = False, cs_ids = []\<rparr>"

definition role_step :: "bool \<Rightarrow> handler_id \<Rightarrow> operation_authorization_role \<Rightarrow> ('h, 'c) chain_state \<Rightarrow>
    (init_error, ('h, 'c) chain_state) result" where
  "role_step has_scope_consumer hid role cs =
     (case role of
        MetadataProducer \<Rightarrow>
          if hid \<noteq> Specification then Err (FactoryContract hid)
          else Ok (cs\<lparr>cs_pending_operation_check := has_scope_consumer, cs_has_operation_metadata := True\<rparr>)
      | MetadataConsumer \<Rightarrow>
          if hid \<noteq> Validator then Err (FactoryContract hid)
          else if \<not> cs_has_operation_metadata cs
          then Err (Malformed ''validator requires preceding qualified Specification metadata'')
          else Ok cs
      | JwtScopes guaranteed \<Rightarrow>
          if hid \<notin> set [Jwt, Security] then Err (FactoryContract hid)
          else if guaranteed then Ok (cs\<lparr>cs_pending_operation_check := False\<rparr>)
          else Ok cs
      | NoRole \<Rightarrow> Ok cs)"

definition chain_step :: "bool \<Rightarrow> ('h, 'c) selected_binding \<times> operation_authorization_role \<Rightarrow>
    ('h, 'c) chain_state \<Rightarrow> (init_error, ('h, 'c) chain_state) result" where
  "chain_step has_scope_consumer e cs =
     (case e of ((hid, b, media), role) \<Rightarrow>
        let cs = cs\<lparr>cs_ids := cs_ids cs @ [hid]\<rparr>
        in case b of
             RequestBinding h caps \<Rightarrow>
               if cs_terminal cs \<noteq> None \<or> cs_response cs \<noteq> [] then Err InvalidTerminal
               else if rc_requires_verified_identity caps \<and> \<not> cs_identity cs then Err IdentityOrdering
               else rtry (role_step has_scope_consumer hid role
                      (cs\<lparr>cs_identity := cs_identity cs \<or> rc_establishes_verified_identity caps\<rparr>)) (\<lambda>cs.
                    Ok (cs\<lparr>cs_request := cs_request cs @ [(h, caps)],
                           cs_media_roles := cs_media_roles cs @ [media]\<rparr>))
           | ResponseBinding h \<Rightarrow>
               if cs_terminal cs = None then Err InvalidTerminal
               else Ok (cs\<lparr>cs_response := cs_response cs @ [h]\<rparr>)
           | DispatchBinding routes \<Rightarrow>
               if cs_terminal cs \<noteq> None then Err InvalidTerminal
               else Ok (cs\<lparr>cs_terminal := Some (Dispatch routes)\<rparr>)
           | LocalBinding h \<Rightarrow>
               if cs_terminal cs \<noteq> None then Err InvalidTerminal
               else Ok (cs\<lparr>cs_terminal := Some (Local h)\<rparr>))"

fun chain_steps :: "bool \<Rightarrow> (('h, 'c) selected_binding \<times> operation_authorization_role) list \<Rightarrow>
    ('h, 'c) chain_state \<Rightarrow> (init_error, ('h, 'c) chain_state) result" where
  "chain_steps has_scope_consumer [] cs = Ok cs"
| "chain_steps has_scope_consumer (e # es) cs =
     rtry (chain_step has_scope_consumer e cs) (\<lambda>cs. chain_steps has_scope_consumer es cs)"

fun check_media :: "bool \<Rightarrow> (('h, 'c) request_handler \<times> validator_media_role) list \<Rightarrow>
    (init_error, unit) result" where
  "check_media known [] = Ok ()"
| "check_media known ((h, role) # rest) =
     (case role of
        Unspecified \<Rightarrow> check_media False rest
      | Requires \<Rightarrow>
          if rq_id h \<noteq> Validator then Err (FactoryContract (rq_id h))
          else if \<not> known
          then Err (Malformed ''validator requires qualified current header provenance'')
          else check_media known rest
      | _ \<Rightarrow> check_media known rest)"

definition is_jwt_scopes :: "operation_authorization_role \<Rightarrow> bool" where
  "is_jwt_scopes role = (case role of JwtScopes _ \<Rightarrow> True | _ \<Rightarrow> False)"

definition compile_chain_with_selection :: "('h, 'c) selected_binding list \<Rightarrow> operation_selection \<Rightarrow>
    (init_error, ('h, 'c) compiled_chain) result" where
  "compile_chain_with_selection bindings sel =
     (let roles = chain_roles sel bindings;
          has_scope_consumer = list_ex is_jwt_scopes roles
      in rtry (chain_steps has_scope_consumer (zip bindings roles) chain_start) (\<lambda>cs.
         rtry (ok_or MissingTerminal (cs_terminal cs)) (\<lambda>term.
           if cs_pending_operation_check cs
           then Err (Malformed ''operation metadata requires a later guaranteed JWT scope check'')
           else rtry (check_media True (zip (map fst (cs_request cs)) (cs_media_roles cs))) (\<lambda>_.
                Ok \<lparr>ch_request = cs_request cs, ch_terminal = term, ch_response = cs_response cs,
                    ch_ids = cs_ids cs, ch_media_roles = cs_media_roles cs\<rparr>))))"

definition compile_chain :: "('h, 'c) selected_binding list \<Rightarrow> (init_error, ('h, 'c) compiled_chain) result" where
  "compile_chain bindings = compile_chain_with_selection bindings selection_default"

definition observes_completion :: "('h, 'c) selected_binding \<Rightarrow> bool" where
  "observes_completion e =
     (case e of (hid, b, _) \<Rightarrow>
        hid \<in> set [AuditHandler, Metrics] \<and> (case b of RequestBinding _ _ \<Rightarrow> True | _ \<Rightarrow> False))"

definition compile_selectable_chain_with_selection :: "('h, 'c) selected_binding list \<Rightarrow>
    operation_selection option \<Rightarrow> (init_error, ('h, 'c) compiled_chain) result" where
  "compile_selectable_chain_with_selection bindings selection =
     (let completion_count = length (filter observes_completion bindings)
      in rtry (case selection of
                 Some sel \<Rightarrow> compile_chain_with_selection bindings sel
               | None \<Rightarrow> compile_chain bindings) (\<lambda>chain.
           if 64 < completion_count
           then Err (Malformed ''active audit/metrics occurrence limit (64)'')
           else Ok chain))"

definition compile_selectable_chain :: "('h, 'c) selected_binding list \<Rightarrow>
    (init_error, ('h, 'c) compiled_chain) result" where
  "compile_selectable_chain bindings = compile_selectable_chain_with_selection bindings None"

section \<open>Template limits of the metrics policy\<close>

definition METRICS_TEMPLATE_BYTES :: nat where
  "METRICS_TEMPLATE_BYTES = 1024"

definition metrics_template_error :: init_error where
  "metrics_template_error = Malformed ''metrics trusted route template byte limit (1024)''"

definition same_method_templates :: "string \<Rightarrow> 'v route list \<Rightarrow> template list" where
  "same_method_templates m routes = map rt_template (filter (\<lambda>r. rt_method r = m) routes)"

text \<open>A path is given by its index; \<open>None\<close> is the default chain.\<close>

definition fallback_route_ok :: "'v route list \<Rightarrow> nat option \<Rightarrow> target route list \<Rightarrow> nat \<Rightarrow> bool" where
  "fallback_route_ok paths selected routes index =
     (let r = routes ! index
      in if length (tm_text (rt_template r)) \<le> METRICS_TEMPLATE_BYTES
            \<or> (case selected of None \<Rightarrow> False | Some i \<Rightarrow> rt_method (paths ! i) \<noteq> rt_method r)
         then True
         else let before = same_method_templates (rt_method r) (take index routes)
              in \<not> (case selected of
                     Some i \<Rightarrow> template_language_has_witness [rt_template r, rt_template (paths ! i)]
                                 (before @ same_method_templates (rt_method r) (take i paths))
                   | None \<Rightarrow> template_language_has_witness [rt_template r]
                                 (before @ same_method_templates (rt_method r) paths)))"

definition validate_chain_metrics_templates :: "('h, 'c) compiled_chain \<Rightarrow> 'v route list \<Rightarrow> nat option \<Rightarrow>
    (init_error, unit) result" where
  "validate_chain_metrics_templates chain paths selected =
     (let metrics = filter (\<lambda>h. rq_id h = Metrics) (map fst (ch_request chain))
      in if metrics = [] then Ok ()
         else let dispatch = (case ch_terminal chain of Dispatch routes \<Rightarrow> [routes] | Local _ \<Rightarrow> []);
                  tables = dispatch @ List.map_filter rq_metrics_fallback_routes metrics
              in if list_all (\<lambda>routes. list_all (fallback_route_ok paths selected routes) [0..<length routes]) tables
                 then Ok () else Err metrics_template_error)"

definition validate_path_metrics :: "('h, 'c) compiled_chain route list \<Rightarrow> nat \<Rightarrow> (init_error, unit) result" where
  "validate_path_metrics paths index =
     (let path = paths ! index;
          blocked = same_method_templates (rt_method path) (take index paths)
      in if METRICS_TEMPLATE_BYTES < length (tm_text (rt_template path))
            \<and> Metrics \<in> set (ch_ids (rt_value path))
            \<and> template_language_has_witness [rt_template path] blocked
         then Err metrics_template_error
         else validate_chain_metrics_templates (rt_value path) paths (Some index))"

definition validate_metrics_templates :: "('h, 'c) compiled_chain route list \<Rightarrow>
    ('h, 'c) compiled_chain option \<Rightarrow> (init_error, unit) result" where
  "validate_metrics_templates paths dflt =
     rtry (try_each (validate_path_metrics paths) [0..<length paths]) (\<lambda>_.
       case dflt of
         Some chain \<Rightarrow> validate_chain_metrics_templates chain paths None
       | None \<Rightarrow> Ok ())"

section \<open>Compiling the plan\<close>

definition structured :: "(string \<Rightarrow> json option) \<Rightarrow> json option \<Rightarrow> (init_error, json) result" where
  "structured parse_json value =
     (case value of
        None \<Rightarrow> Ok JNull
      | Some JNull \<Rightarrow> Ok JNull
      | Some (JString s) \<Rightarrow>
          if trim s = [] then Ok JNull else ok_or (Malformed ''structured value'') (parse_json s)
      | Some v \<Rightarrow> Ok v)"

definition json_strings :: "json \<Rightarrow> string list option" where
  "json_strings v =
     (case v of
        JArray xs \<Rightarrow>
          if list_all (\<lambda>x. json_as_str x \<noteq> None) xs then Some (List.map_filter json_as_str xs) else None
      | _ \<Rightarrow> None)"

definition strings :: "(string \<Rightarrow> json option) \<Rightarrow> json option \<Rightarrow> (init_error, string list) result" where
  "strings parse_json value =
     (case value of
        Some (JString s) \<Rightarrow>
          if \<not> starts_with (trim s) ''['' then
            Ok (if trim s = [] then [] else map trim (split_chars '','' s))
          else rtry (structured parse_json value) (\<lambda>v.
                 if v = JNull then Ok [] else ok_or (Malformed ''string list'') (json_strings v))
      | _ \<Rightarrow>
          rtry (structured parse_json value) (\<lambda>v.
            if v = JNull then Ok [] else ok_or (Malformed ''string list'') (json_strings v)))"

definition json_object :: "json \<Rightarrow> (string \<times> json) list option" where
  "json_object v = (case v of JObject kvs \<Rightarrow> Some kvs | _ \<Rightarrow> None)"

definition json_array :: "json \<Rightarrow> json list option" where
  "json_array v = (case v of JArray xs \<Rightarrow> Some xs | _ \<Rightarrow> None)"

definition HANDLER_KEYS :: "string list" where
  "HANDLER_KEYS = [''enabled'', ''handlers'', ''additionalHandlers'', ''chains'', ''additionalChains'',
     ''paths'', ''additionalPaths'', ''defaultHandlers'', ''basePath'']"

definition audit_flag :: "(string \<times> json) list \<Rightarrow> string \<Rightarrow> (init_error, bool) result" where
  "audit_flag values key =
     (case map_of values key of
        None \<Rightarrow> Ok False
      | Some JNull \<Rightarrow> Ok False
      | Some (JBool b) \<Rightarrow> Ok b
      | _ \<Rightarrow> Err (Malformed ''audit flag''))"

definition compile_audit :: "json \<Rightarrow> (init_error, audit_config) result" where
  "compile_audit audit =
     (if audit = JNull then Ok \<lparr>ac_audit_on_error = False, ac_audit_stack_trace = False\<rparr>
      else rtry (ok_or (Malformed ''audit configuration'') (json_object audit)) (\<lambda>values.
        if list_ex (\<lambda>(k, _). starts_with k ''handler.'') values then Err (Malformed ''audit ownership'')
        else rtry (audit_flag values ''auditOnError'') (\<lambda>on_error.
             rtry (audit_flag values ''auditStackTrace'') (\<lambda>trace.
             Ok \<lparr>ac_audit_on_error = on_error, ac_audit_stack_trace = trace\<rparr>))))"

definition compile_base_path :: "json option \<Rightarrow> (init_error, string option) result" where
  "compile_base_path v =
     (case v of
        None \<Rightarrow> Ok None
      | Some JNull \<Rightarrow> Ok None
      | Some (JString s) \<Rightarrow> Ok (Some s)
      | _ \<Rightarrow> Err (Malformed ''basePath''))"

definition split_mapping :: "string \<Rightarrow> (init_error, string \<times> string) result" where
  "split_mapping entry =
     (case split_once CHR ''@'' entry of
        None \<Rightarrow> Ok (entry, entry)
      | Some (c, a) \<Rightarrow>
          if a \<noteq> [] \<and> CHR ''@'' \<notin> set a then Ok (c, a) else Err (Malformed ''handler mapping''))"

fun compile_aliases :: "('h, 'c) registry \<Rightarrow> string list \<Rightarrow> ('h, 'c) aliases \<Rightarrow>
    (init_error, ('h, 'c) aliases) result" where
  "compile_aliases reg [] aliases = Ok aliases"
| "compile_aliases reg (entry # entries) aliases =
     rtry (split_mapping entry) (\<lambda>(cls, alias).
     rtry (ok_or (UnknownClass cls) (compat_lookup cls)) (\<lambda>c.
     rtry (registry_build reg c alias) (\<lambda>b.
     compile_aliases reg entries (bt_insert alias (c, b) aliases))))"

fun compile_named_chains :: "(string \<Rightarrow> json option) \<Rightarrow> (string \<times> json) list \<Rightarrow> (string, string list) btree \<Rightarrow>
    (init_error, (string, string list) btree) result" where
  "compile_named_chains parse_json [] chs = Ok chs"
| "compile_named_chains parse_json ((name, exec) # rest) chs =
     (if name = [] then Err (Malformed ''chain name'')
      else rtry (strings parse_json (Some exec)) (\<lambda>names.
           compile_named_chains parse_json rest (bt_insert name names chs)))"

definition compile_chains_key :: "(string \<Rightarrow> json option) \<Rightarrow> json option \<Rightarrow> (string, string list) btree \<Rightarrow>
    (init_error, (string, string list) btree) result" where
  "compile_chains_key parse_json v chs =
     rtry (structured parse_json v) (\<lambda>value.
       if value = JNull then Ok chs
       else rtry (ok_or (Malformed ''chains'') (json_object value)) (\<lambda>kvs.
            compile_named_chains parse_json kvs chs))"

definition compile_path :: "(string \<Rightarrow> json option) \<Rightarrow> (string \<Rightarrow> string option) \<Rightarrow>
    (string, string list) btree \<Rightarrow> ('h, 'c) aliases \<Rightarrow> json \<Rightarrow> ('h, 'c) compiled_chain route list \<Rightarrow>
    (init_error, ('h, 'c) compiled_chain route list) result" where
  "compile_path parse_json from_bytes chs aliases entry paths =
     rtry (ok_or (Malformed ''path mapping'') (json_object entry)) (\<lambda>p.
       if list_ex (\<lambda>(k, _). k \<notin> set [''path'', ''method'', ''exec'', ''source'']) p
          \<or> (case map_of p ''source'' of None \<Rightarrow> False | Some v \<Rightarrow> v \<noteq> JNull)
       then Err (Malformed ''path source or key'')
       else
       rtry (ok_or (Malformed ''path'') (case map_of p ''path'' of None \<Rightarrow> None | Some v \<Rightarrow> json_as_str v)) (\<lambda>path.
       rtry (ok_or (Malformed ''method'') (case map_of p ''method'' of None \<Rightarrow> None | Some v \<Rightarrow> json_as_str v)) (\<lambda>verb.
       rtry (strings parse_json (map_of p ''exec'')) (\<lambda>exec.
       rtry (flatten chs aliases exec []) (\<lambda>bindings.
       rtry (compile_selectable_chain_with_selection bindings
              (Some (from_configured_route from_bytes path verb))) (\<lambda>chain.
       insert_route from_bytes paths path verb chain))))))"

fun compile_path_list :: "(string \<Rightarrow> json option) \<Rightarrow> (string \<Rightarrow> string option) \<Rightarrow>
    (string, string list) btree \<Rightarrow> ('h, 'c) aliases \<Rightarrow> json list \<Rightarrow> ('h, 'c) compiled_chain route list \<Rightarrow>
    (init_error, ('h, 'c) compiled_chain route list) result" where
  "compile_path_list parse_json from_bytes chs aliases [] paths = Ok paths"
| "compile_path_list parse_json from_bytes chs aliases (entry # entries) paths =
     rtry (compile_path parse_json from_bytes chs aliases entry paths) (\<lambda>paths.
     compile_path_list parse_json from_bytes chs aliases entries paths)"

definition compile_paths_key :: "(string \<Rightarrow> json option) \<Rightarrow> (string \<Rightarrow> string option) \<Rightarrow>
    (string, string list) btree \<Rightarrow> ('h, 'c) aliases \<Rightarrow> json option \<Rightarrow> ('h, 'c) compiled_chain route list \<Rightarrow>
    (init_error, ('h, 'c) compiled_chain route list) result" where
  "compile_paths_key parse_json from_bytes chs aliases v paths =
     rtry (structured parse_json v) (\<lambda>value.
       if value = JNull then Ok paths
       else rtry (ok_or (Malformed ''paths'') (json_array value)) (\<lambda>entries.
            compile_path_list parse_json from_bytes chs aliases entries paths))"

record ('h, 'c) execution_plan =
  ep_paths :: "('h, 'c) compiled_chain route list"
  ep_default :: "('h, 'c) compiled_chain option"
  ep_audit :: audit_config
  ep_base_path :: "string option"

definition compile_default :: "(string \<Rightarrow> json option) \<Rightarrow> (string, string list) btree \<Rightarrow> ('h, 'c) aliases \<Rightarrow>
    json option \<Rightarrow> (init_error, ('h, 'c) compiled_chain option) result" where
  "compile_default parse_json chs aliases v =
     (if (case v of None \<Rightarrow> False | Some x \<Rightarrow> x \<noteq> JNull \<and> json_array x \<noteq> Some [])
      then rtry (strings parse_json v) (\<lambda>exec.
           rtry (flatten chs aliases exec []) (\<lambda>bindings.
           rtry (compile_selectable_chain bindings) (\<lambda>chain. Ok (Some chain))))
      else Ok None)"

definition compile_plan :: "(string \<Rightarrow> json option) \<Rightarrow> (string \<Rightarrow> string option) \<Rightarrow> json \<Rightarrow> json \<Rightarrow>
    ('h, 'c) registry \<Rightarrow> (init_error, ('h, 'c) execution_plan) result" where
  "compile_plan parse_json from_bytes handler audit reg =
     rtry (ok_or (Malformed ''handler object'') (json_object handler)) (\<lambda>h.
       if list_ex (\<lambda>(k, _). k \<notin> set HANDLER_KEYS) h then Err (Malformed ''handler key'')
       else if (case map_of h ''enabled'' of None \<Rightarrow> False | Some v \<Rightarrow> v \<noteq> JBool True)
       then Err (Malformed ''handler must be enabled'')
       else
       rtry (compile_audit audit) (\<lambda>audit.
       rtry (compile_base_path (map_of h ''basePath'')) (\<lambda>base_path.
       rtry (strings parse_json (map_of h ''handlers'')) (\<lambda>hs1.
       rtry (compile_aliases reg hs1 []) (\<lambda>aliases1.
       rtry (strings parse_json (map_of h ''additionalHandlers'')) (\<lambda>hs2.
       rtry (compile_aliases reg hs2 aliases1) (\<lambda>aliases.
       rtry (compile_chains_key parse_json (map_of h ''chains'') []) (\<lambda>chs1.
       rtry (compile_chains_key parse_json (map_of h ''additionalChains'') chs1) (\<lambda>chs.
       rtry (try_each (\<lambda>name. rtry (flatten chs aliases [name] []) (\<lambda>_. Ok ())) (map fst chs)) (\<lambda>_.
       rtry (compile_default parse_json chs aliases (map_of h ''defaultHandlers'')) (\<lambda>dflt.
       rtry (compile_paths_key parse_json from_bytes chs aliases (map_of h ''paths'') []) (\<lambda>paths1.
       rtry (compile_paths_key parse_json from_bytes chs aliases (map_of h ''additionalPaths'') paths1) (\<lambda>paths.
         if paths = [] \<and> dflt = None then Err MissingTerminal
         else rtry (validate_metrics_templates paths dflt) (\<lambda>_.
              Ok \<lparr>ep_paths = paths, ep_default = dflt, ep_audit = audit, ep_base_path = base_path\<rparr>))))))))))))))"

section \<open>Selecting a chain\<close>

definition apply_match :: "'h invocation \<Rightarrow> string \<Rightarrow> (string, string) btree \<Rightarrow> target option \<Rightarrow> 'h invocation" where
  "apply_match iv template_text params tgt =
     iv\<lparr>inv_path_params := fold (\<lambda>(k, v). bt_insert k v) params (inv_path_params iv),
         inv_route := Some \<lparr>rm_template = template_text, rm_target = tgt\<rparr>\<rparr>"

definition resolve_target :: "target route list \<Rightarrow> 'h invocation \<Rightarrow> target option \<times> 'h invocation" where
  "resolve_target routes iv =
     (case select_route routes (inv_method iv) (inv_path iv) of
        None \<Rightarrow> (None, iv)
      | Some (r, params) \<Rightarrow>
          (Some (rt_value r), apply_match iv (tm_text (rt_template r)) params (Some (rt_value r))))"

definition plan_chains :: "('h, 'c) execution_plan \<Rightarrow> ('h, 'c) compiled_chain list" where
  "plan_chains plan = (case ep_default plan of None \<Rightarrow> [] | Some c \<Rightarrow> [c]) @ map rt_value (ep_paths plan)"

definition requires_validator_media :: "('h, 'c) execution_plan \<Rightarrow> bool" where
  "requires_validator_media plan \<longleftrightarrow> list_ex (\<lambda>c. Requires \<in> set (ch_media_roles c)) (plan_chains plan)"

definition transformer_occurrences :: "('h, 'c) execution_plan \<Rightarrow> handler_id list list" where
  "transformer_occurrences plan =
     map (\<lambda>c. filter (\<lambda>i. i \<in> set [RequestTransformer, ResponseTransformer]) (ch_ids c)) (plan_chains plan)"

definition handler_ids :: "('h, 'c) execution_plan \<Rightarrow> 'h invocation \<Rightarrow> handler_id list option" where
  "handler_ids plan iv =
     (case select_route (ep_paths plan) (inv_method iv) (inv_path iv) of
        Some (r, _) \<Rightarrow> Some (ch_ids (rt_value r))
      | None \<Rightarrow> map_option ch_ids (ep_default plan))"

definition plan_select :: "('h, 'c) execution_plan \<Rightarrow> 'h invocation \<Rightarrow>
    ('h, 'c) compiled_chain option \<times> 'h invocation" where
  "plan_select plan iv =
     (case select_route (ep_paths plan) (inv_method iv) (inv_path iv) of
        Some (r, params) \<Rightarrow>
          (Some (rt_value r), apply_match iv (tm_text (rt_template r)) params None)
      | None \<Rightarrow> (ep_default plan, iv))"

end
