(* ===== verification/Plan_Safety.thy ===== *)
theory Plan_Safety
  imports Exec_Plan
begin

text \<open>
  What a compiled plan guarantees before any request arrives: named chains expand without
  cycles, a chain is request policies, one terminal and response policies in this order, a policy
  that needs a verified identity comes after one that establishes it, and operation metadata is
  always followed by a guaranteed scope check.
\<close>

section \<open>Expansion of named chains\<close>



lemma flatten_chain_name:
  "bt_get chs name = Some chain \<Longrightarrow> name \<notin> set stack \<Longrightarrow>
     flatten chs aliases (name # rest) stack =
       rtry (flatten chs aliases chain (name # stack)) (\<lambda>xs.
       rtry (flatten chs aliases rest stack) (\<lambda>ys. Ok (xs @ ys)))"
  by simp






section \<open>Compiled chains\<close>

definition as_request :: "('h, 'c) selected_binding \<Rightarrow> (('h, 'c) request_handler \<times> request_capabilities) option" where
  "as_request e = (case e of (_, RequestBinding h caps, _) \<Rightarrow> Some (h, caps) | _ \<Rightarrow> None)"

definition as_terminal :: "('h, 'c) selected_binding \<Rightarrow> ('h, 'c) terminal option" where
  "as_terminal e =
     (case e of (_, DispatchBinding routes, _) \<Rightarrow> Some (Dispatch routes)
      | (_, LocalBinding h, _) \<Rightarrow> Some (Local h) | _ \<Rightarrow> None)"

definition as_response :: "('h, 'c) selected_binding \<Rightarrow> ('h, 'c) response_handler option" where
  "as_response e = (case e of (_, ResponseBinding h, _) \<Rightarrow> Some h | _ \<Rightarrow> None)"

lemma role_step_frame:
  assumes "role_step sc hid role cs = Ok cs'"
  shows "cs_request cs' = cs_request cs" "cs_media_roles cs' = cs_media_roles cs"
    "cs_response cs' = cs_response cs" "cs_terminal cs' = cs_terminal cs" "cs_identity cs' = cs_identity cs"
    "cs_ids cs' = cs_ids cs"
  using assms by (auto simp: role_step_def split: operation_authorization_role.splits if_splits)

lemma chain_step_request:
  assumes "chain_step sc ((hid, RequestBinding h caps, media), role) cs = Ok cs'"
  obtains mid where
    "role_step sc hid role (cs\<lparr>cs_ids := cs_ids cs @ [hid],
       cs_identity := cs_identity cs \<or> rc_establishes_verified_identity caps\<rparr>) = Ok mid"
    "cs' = mid\<lparr>cs_request := cs_request mid @ [(h, caps)], cs_media_roles := cs_media_roles mid @ [media]\<rparr>"
    "cs_terminal cs = None" "cs_response cs = []"
    "rc_requires_verified_identity caps \<longrightarrow> cs_identity cs"
  using assms by (auto simp: chain_step_def Let_def rtry_eq_Ok_iff split: if_splits)

lemma chain_step_other:
  assumes "chain_step sc ((hid, b, media), role) cs = Ok cs'" and "\<forall>h caps. b \<noteq> RequestBinding h caps"
  shows "cs_request cs' = cs_request cs" "cs_media_roles cs' = cs_media_roles cs"
    "cs_identity cs' = cs_identity cs" "cs_pending_operation_check cs' = cs_pending_operation_check cs"
  using assms by (cases b; auto simp: chain_step_def Let_def split: if_splits)+

lemma chain_steps_after_terminal:
  assumes "chain_steps sc es cs = Ok cs'" and "cs_terminal cs \<noteq> None"
  shows "cs_terminal cs' = cs_terminal cs \<and> cs_request cs' = cs_request cs
    \<and> (\<exists>hs. cs_response cs' = cs_response cs @ hs \<and> map (\<lambda>x. as_response (fst x)) es = map Some hs)"
  using assms
proof (induction es arbitrary: cs)
  case (Cons e es)
  obtain hid b media role where e: "e = ((hid, b, media), role)" by (metis surj_pair)
  from Cons.prems obtain mid where step: "chain_step sc e cs = Ok mid" and rest: "chain_steps sc es mid = Ok cs'"
    by (auto simp: rtry_eq_Ok_iff)
  from step Cons.prems(2) obtain h where b: "b = ResponseBinding h" and mid: "cs_response mid = cs_response cs @ [h]"
    "cs_terminal mid = cs_terminal cs" "cs_request mid = cs_request cs"
    by (cases b) (auto simp: e chain_step_def Let_def split: if_splits)
  from Cons.IH [OF rest] mid Cons.prems(2) obtain hs where "cs_response cs' = cs_response cs @ h # hs"
    "map (\<lambda>x. as_response (fst x)) es = map Some hs" "cs_terminal cs' = cs_terminal cs" "cs_request cs' = cs_request cs"
    by auto
  then show ?case by (intro conjI exI [of _ "h # hs"]) (simp_all add: e b as_response_def)
qed simp

lemma chain_steps_shape:
  assumes "chain_steps sc es cs = Ok cs'" and "cs_terminal cs = None" and "cs_response cs = []"
    and "cs_terminal cs' = Some T"
  shows "\<exists>rs t ss qs. es = rs @ t # ss \<and> cs_request cs' = cs_request cs @ qs
    \<and> map (\<lambda>x. as_request (fst x)) rs = map Some qs \<and> as_terminal (fst t) = Some T
    \<and> map (\<lambda>x. as_response (fst x)) ss = map Some (cs_response cs')"
  using assms
proof (induction es arbitrary: cs)
  case (Cons e es)
  obtain hid b media role where e: "e = ((hid, b, media), role)" by (metis surj_pair)
  from Cons.prems obtain mid where step: "chain_step sc e cs = Ok mid" and rest: "chain_steps sc es mid = Ok cs'"
    by (auto simp: rtry_eq_Ok_iff)
  show ?case
  proof (cases "\<exists>h caps. b = RequestBinding h caps")
    case True
    then obtain h caps where b: "b = RequestBinding h caps" by blast
    from step obtain m where m: "role_step sc hid role (cs\<lparr>cs_ids := cs_ids cs @ [hid],
         cs_identity := cs_identity cs \<or> rc_establishes_verified_identity caps\<rparr>) = Ok m"
      "mid = m\<lparr>cs_request := cs_request m @ [(h, caps)], cs_media_roles := cs_media_roles m @ [media]\<rparr>"
      unfolding e b by (rule chain_step_request)
    have mid: "cs_terminal mid = None" "cs_response mid = []" "cs_request mid = cs_request cs @ [(h, caps)]"
      using role_step_frame [OF m(1)] m(2) Cons.prems by simp_all
    from Cons.IH [OF rest mid(1,2) Cons.prems(4)] obtain rs t ss qs where "es = rs @ t # ss
      \<and> cs_request cs' = cs_request mid @ qs \<and> map (\<lambda>x. as_request (fst x)) rs = map Some qs
      \<and> as_terminal (fst t) = Some T \<and> map (\<lambda>x. as_response (fst x)) ss = map Some (cs_response cs')"
      by blast
    with mid(3) show ?thesis
      by (intro exI [of _ "e # rs"] exI [of _ t] exI [of _ ss] exI [of _ "(h, caps) # qs"])
        (simp add: e b as_request_def)
  next
    case False
    with step Cons.prems(2,3) have mid: "cs_terminal mid = as_terminal (fst e)" "cs_terminal mid \<noteq> None"
      "cs_request mid = cs_request cs" "cs_response mid = []"
      by (cases b; auto simp: e as_terminal_def chain_step_def Let_def split: if_splits)+
    from chain_steps_after_terminal [OF rest mid(2)] mid Cons.prems(4) show ?thesis
      by (intro exI [of _ "[]"] exI [of _ e] exI [of _ es]) auto
  qed
qed simp

definition caps_ordered :: "request_capabilities list \<Rightarrow> bool" where
  "caps_ordered cl \<longleftrightarrow>
     (\<forall>i < length cl. rc_requires_verified_identity (cl ! i) \<longrightarrow>
        (\<exists>j < i. rc_establishes_verified_identity (cl ! j)))"

lemma caps_ordered_snoc:
  assumes "caps_ordered cl" and "rc_requires_verified_identity c \<longrightarrow> (\<exists>x \<in> set cl. rc_establishes_verified_identity x)"
  shows "caps_ordered (cl @ [c])"
  unfolding caps_ordered_def
proof (intro allI impI)
  fix i assume i: "i < length (cl @ [c])" and req: "rc_requires_verified_identity ((cl @ [c]) ! i)"
  show "\<exists>j < i. rc_establishes_verified_identity ((cl @ [c]) ! j)"
  proof (cases "i < length cl")
    case True
    with req assms(1) obtain j where "j < i" "rc_establishes_verified_identity (cl ! j)"
      by (auto simp: caps_ordered_def nth_append)
    with True show ?thesis by (intro exI [of _ j]) (simp add: nth_append)
  next
    case False
    with i req have "i = length cl" "rc_requires_verified_identity c" by (simp_all add: nth_append)
    with assms(2) obtain j where "j < length cl" "rc_establishes_verified_identity (cl ! j)"
      by (auto simp: in_set_conv_nth)
    with \<open>i = length cl\<close> show ?thesis by (intro exI [of _ j]) (simp add: nth_append)
  qed
qed

lemma caps_ordered_map:
  "caps_ordered (map snd cl) \<longleftrightarrow>
     (\<forall>i < length cl. rc_requires_verified_identity (snd (cl ! i)) \<longrightarrow>
        (\<exists>j < i. rc_establishes_verified_identity (snd (cl ! j))))"
proof -
  have "(\<exists>j < i. rc_establishes_verified_identity (map snd cl ! j)) \<longleftrightarrow>
      (\<exists>j < i. rc_establishes_verified_identity (snd (cl ! j)))" if "i < length cl" for i
    using that by (metis nth_map order.strict_trans)
  then show ?thesis by (auto simp: caps_ordered_def)
qed

definition identity_ok :: "('h, 'c) chain_state \<Rightarrow> bool" where
  "identity_ok cs \<longleftrightarrow>
     (cs_identity cs \<longrightarrow> (\<exists>x \<in> set (map snd (cs_request cs)). rc_establishes_verified_identity x))
     \<and> caps_ordered (map snd (cs_request cs))"

lemma chain_step_identity_ok:
  assumes "chain_step sc e cs = Ok cs'" and "identity_ok cs"
  shows "identity_ok cs'"
proof -
  obtain hid b media role where e: "e = ((hid, b, media), role)" by (metis surj_pair)
  show ?thesis
  proof (cases "\<exists>h caps. b = RequestBinding h caps")
    case True
    then obtain h caps where b: "b = RequestBinding h caps" by blast
    from assms(1) obtain m where m: "role_step sc hid role (cs\<lparr>cs_ids := cs_ids cs @ [hid],
         cs_identity := cs_identity cs \<or> rc_establishes_verified_identity caps\<rparr>) = Ok m"
      "cs' = m\<lparr>cs_request := cs_request m @ [(h, caps)], cs_media_roles := cs_media_roles m @ [media]\<rparr>"
      "rc_requires_verified_identity caps \<longrightarrow> cs_identity cs"
      unfolding e b by (rule chain_step_request)
    have "caps_ordered (map snd (cs_request cs) @ [caps])"
      using assms(2) m(3) by (intro caps_ordered_snoc) (auto simp: identity_ok_def)
    with role_step_frame [OF m(1)] assms(2) m(2) show ?thesis by (auto simp: identity_ok_def)
  next
    case False
    with chain_step_other [of sc hid b media role cs cs'] assms show ?thesis by (simp add: e identity_ok_def)
  qed
qed

lemma chain_steps_identity_ok:
  "chain_steps sc es cs = Ok cs' \<Longrightarrow> identity_ok cs \<Longrightarrow> identity_ok cs'"
  by (induction es arbitrary: cs) (auto simp: rtry_eq_Ok_iff dest: chain_step_identity_ok)

lemma chain_roles_length [simp]: "length (chain_roles sel bs) = length bs"
  by (induction sel bs rule: chain_roles.induct) (auto split: binding.splits)

lemma compile_chain_steps:
  assumes "compile_chain_with_selection bindings sel = Ok chain"
  obtains cs where
    "chain_steps (list_ex is_jwt_scopes (chain_roles sel bindings)) (zip bindings (chain_roles sel bindings)) chain_start = Ok cs"
    "cs_terminal cs = Some (ch_terminal chain)" "\<not> cs_pending_operation_check cs"
    "check_media True (zip (map fst (cs_request cs)) (cs_media_roles cs)) = Ok ()"
    "ch_request chain = cs_request cs" "ch_response chain = cs_response cs" "ch_media_roles chain = cs_media_roles cs"
  using assms by (auto simp: compile_chain_with_selection_def Let_def rtry_eq_Ok_iff split: if_splits)

text \<open>C14: A chain that compiles consists of request policies, exactly one terminal and response
  policies, in this order and as configured; and a policy that requires a verified identity is
  preceded by one that establishes it.\<close>

theorem compiled_chain_shape:
  assumes "compile_chain_with_selection bindings sel = Ok chain"
  shows "(\<exists>rs t ss. bindings = rs @ t # ss \<and> map as_request rs = map Some (ch_request chain)
      \<and> as_terminal t = Some (ch_terminal chain) \<and> map as_response ss = map Some (ch_response chain))
    \<and> (\<forall>i < length (ch_request chain). rc_requires_verified_identity (snd (ch_request chain ! i)) \<longrightarrow>
         (\<exists>j < i. rc_establishes_verified_identity (snd (ch_request chain ! j))))"
proof -
  from assms obtain cs where cs:
    "chain_steps (list_ex is_jwt_scopes (chain_roles sel bindings)) (zip bindings (chain_roles sel bindings)) chain_start = Ok cs"
    "cs_terminal cs = Some (ch_terminal chain)"
    "ch_request chain = cs_request cs" "ch_response chain = cs_response cs"
    by (rule compile_chain_steps)
  obtain rs t ss qs where parts: "zip bindings (chain_roles sel bindings) = rs @ t # ss"
    "cs_request cs = qs" "map (\<lambda>x. as_request (fst x)) rs = map Some qs" "as_terminal (fst t) = Some (ch_terminal chain)"
    "map (\<lambda>x. as_response (fst x)) ss = map Some (cs_response cs)"
    using chain_steps_shape [OF cs(1) _ _ cs(2)] by (auto simp: chain_start_def)
  have "bindings = map fst (rs @ t # ss)" by (simp flip: parts(1))
  then have "bindings = map fst rs @ fst t # map fst ss" by simp
  moreover have "map as_request (map fst rs) = map Some (ch_request chain)"
    "map as_response (map fst ss) = map Some (ch_response chain)"
    using parts cs(3,4) by (simp_all add: comp_def)
  moreover have "identity_ok cs"
    by (rule chain_steps_identity_ok [OF cs(1)]) (simp add: identity_ok_def caps_ordered_def chain_start_def)
  then have "caps_ordered (map snd (ch_request chain))" by (simp add: identity_ok_def cs(3))
  ultimately show ?thesis using parts(4) caps_ordered_map [of "ch_request chain"] by blast
qed

text \<open>A small chain: metadata, token check, limiter, backend.\<close>

definition plain_handler :: "handler_id \<Rightarrow> operation_authorization_role \<Rightarrow> (unit, unit) request_handler" where
  "plain_handler hid role =
     \<lparr>rq_id = hid, rq_is_disabled_audit = False, rq_role_for_selection = (\<lambda>_. role),
      rq_metrics_fallback_routes = None, rq_prepare_completion = (\<lambda>_. None),
      rq_on_request = (\<lambda>iv st w. (Returned (Ok Continue), iv, st, w))\<rparr>"

definition no_caps :: request_capabilities where
  "no_caps = \<lparr>rc_establishes_verified_identity = False, rc_requires_verified_identity = False\<rparr>"

definition example_bindings :: "(unit, unit) selected_binding list" where
  "example_bindings =
     [(Specification, RequestBinding (plain_handler Specification MetadataProducer) no_caps, Preserves),
      (Jwt, RequestBinding (plain_handler Jwt (JwtScopes True)) (no_caps\<lparr>rc_establishes_verified_identity := True\<rparr>), Preserves),
      (Limit, RequestBinding (plain_handler Limit NoRole) (no_caps\<lparr>rc_requires_verified_identity := True\<rparr>), Preserves),
      (Proxy, DispatchBinding [], Unspecified)]"

lemma example_bindings_compile:
  "\<exists>chain. compile_chain_with_selection example_bindings selection_default = Ok chain
     \<and> length (ch_request chain) = 3"
  by (simp add: compile_chain_with_selection_def example_bindings_def plain_handler_def no_caps_def
      keeps_selection_def is_jwt_scopes_def chain_step_def chain_start_def role_step_def)

theorem compiled_chain_shape_witness:
  "\<exists>chain rs t ss. compile_chain_with_selection example_bindings selection_default = Ok chain
     \<and> example_bindings = rs @ t # ss \<and> map as_request rs = map Some (ch_request chain)
     \<and> length rs = 3 \<and> as_terminal t = Some (ch_terminal chain)"
proof -
  obtain chain where chain: "compile_chain_with_selection example_bindings selection_default = Ok chain"
    and len: "length (ch_request chain) = 3" using example_bindings_compile by blast
  from compiled_chain_shape [OF chain] obtain rs t ss where "example_bindings = rs @ t # ss"
    and rs: "map as_request rs = map Some (ch_request chain)" and "as_terminal t = Some (ch_terminal chain)" by blast
  moreover from arg_cong [OF rs, of length] len have "length rs = 3" by simp
  ultimately show ?thesis using chain by blast
qed

section \<open>Scope checks\<close>

definition role_of :: "('h, 'c) selected_binding \<times> operation_authorization_role \<Rightarrow> operation_authorization_role" where
  "role_of e = (case e of ((_, RequestBinding _ _, _), role) \<Rightarrow> role | _ \<Rightarrow> NoRole)"

lemma chain_step_pending:
  assumes "chain_step sc e cs = Ok cs'"
  shows "cs_pending_operation_check cs' =
    (case role_of e of MetadataProducer \<Rightarrow> sc | JwtScopes True \<Rightarrow> False | _ \<Rightarrow> cs_pending_operation_check cs)"
proof -
  obtain hid b media role where e: "e = ((hid, b, media), role)" by (metis surj_pair)
  show ?thesis
  proof (cases "\<exists>h caps. b = RequestBinding h caps")
    case True
    then obtain h caps where b: "b = RequestBinding h caps" by blast
    from assms obtain m where m: "role_step sc hid role (cs\<lparr>cs_ids := cs_ids cs @ [hid],
         cs_identity := cs_identity cs \<or> rc_establishes_verified_identity caps\<rparr>) = Ok m"
      "cs' = m\<lparr>cs_request := cs_request m @ [(h, caps)], cs_media_roles := cs_media_roles m @ [media]\<rparr>"
      unfolding e b by (rule chain_step_request)
    then show ?thesis
      by (auto simp: e b role_of_def role_step_def split: operation_authorization_role.splits if_splits bool.splits)
  next
    case False
    with chain_step_other [of sc hid b media role cs cs'] assms show ?thesis
      by (cases b) (simp_all add: e role_of_def)
  qed
qed

lemma pending_needs_check:
  assumes "chain_steps sc es cs = Ok cs'" and "cs_pending_operation_check cs" and "\<not> cs_pending_operation_check cs'"
    and sc
  shows "\<exists>j < length es. role_of (es ! j) = JwtScopes True"
  using assms
proof (induction es arbitrary: cs)
  case (Cons e es)
  from Cons.prems obtain mid where step: "chain_step sc e cs = Ok mid" and rest: "chain_steps sc es mid = Ok cs'"
    by (auto simp: rtry_eq_Ok_iff)
  show ?case
  proof (cases "role_of e = JwtScopes True")
    case True
    then show ?thesis by (intro exI [of _ 0]) simp
  next
    case False
    with chain_step_pending [OF step] Cons.prems(2,4) have "cs_pending_operation_check mid"
      by (auto split: operation_authorization_role.splits bool.splits)
    from Cons.IH [OF rest this Cons.prems(3,4)] obtain j where "j < length es" "role_of (es ! j) = JwtScopes True" by blast
    then show ?thesis by (intro exI [of _ "Suc j"]) simp
  qed
qed simp

lemma producer_needs_check:
  assumes "chain_steps sc es cs = Ok cs'" and "\<not> cs_pending_operation_check cs'" and sc
    and "i < length es" and "role_of (es ! i) = MetadataProducer"
  shows "\<exists>j > i. j < length es \<and> role_of (es ! j) = JwtScopes True"
  using assms
proof (induction es arbitrary: cs i)
  case (Cons e es)
  from Cons.prems obtain mid where step: "chain_step sc e cs = Ok mid" and rest: "chain_steps sc es mid = Ok cs'"
    by (auto simp: rtry_eq_Ok_iff)
  show ?case
  proof (cases i)
    case 0
    with Cons.prems chain_step_pending [OF step] have "cs_pending_operation_check mid" by simp
    from pending_needs_check [OF rest this Cons.prems(2,3)] obtain j
      where "j < length es" "role_of (es ! j) = JwtScopes True" by blast
    with 0 show ?thesis by (intro exI [of _ "Suc j"]) simp
  next
    case (Suc k)
    with Cons.IH [OF rest Cons.prems(2,3), of k] Cons.prems(4,5) obtain j
      where "k < j" "j < length es" "role_of (es ! j) = JwtScopes True" by auto
    with Suc show ?thesis by (intro exI [of _ "Suc j"]) simp
  qed
qed simp

lemma role_of_chain_roles:
  "i < length bs \<Longrightarrow> role_of (zip bs (chain_roles sel bs) ! i) = chain_roles sel bs ! i"
proof (induction sel bs arbitrary: i rule: chain_roles.induct)
  case (2 sel hid b media bs)
  then show ?case by (cases i; cases b) (simp_all add: role_of_def)
qed simp

text \<open>C15: In a chain that compiles, operation metadata is never left unchecked: if some policy can
  check token scopes, every policy that produces operation metadata is followed by one whose
  scope check is guaranteed.\<close>

theorem metadata_followed_by_scope_check:
  assumes "compile_chain_with_selection bindings sel = Ok chain" and "list_ex is_jwt_scopes (chain_roles sel bindings)"
    and "i < length bindings" and "chain_roles sel bindings ! i = MetadataProducer"
  shows "\<exists>j > i. j < length bindings \<and> chain_roles sel bindings ! j = JwtScopes True"
proof -
  from assms(1) obtain cs where cs:
    "chain_steps (list_ex is_jwt_scopes (chain_roles sel bindings)) (zip bindings (chain_roles sel bindings)) chain_start = Ok cs"
    "\<not> cs_pending_operation_check cs" by (rule compile_chain_steps)
  with producer_needs_check [OF cs assms(2)] assms(3,4) role_of_chain_roles [of _ bindings sel]
  show ?thesis by force
qed

theorem metadata_followed_by_scope_check_witness:
  "\<exists>j > 0. j < length example_bindings \<and> chain_roles selection_default example_bindings ! j = JwtScopes True"
proof -
  obtain chain where chain: "compile_chain_with_selection example_bindings selection_default = Ok chain"
    using example_bindings_compile by blast
  show ?thesis
    by (rule metadata_followed_by_scope_check [OF chain])
      (simp_all add: example_bindings_def plain_handler_def is_jwt_scopes_def keeps_selection_def)
qed

end
