(* ===== verification/Pipeline.thy ===== *)
theory Pipeline
  imports Exec_Plan
begin

text \<open>
  The execution of one invocation, \<open>crates/serverless-core/src/pipeline.rs\<close>.  Handlers, backend
  and completion hooks are arbitrary; what the pipeline does with them is recorded in a trace
  that they cannot see.  A call that the deadline or the cancellation ends is \<open>Abandoned\<close>.
\<close>

section \<open>Runs\<close>

datatype 'c event =
  RequestCalled nat bool
| RequestContinued nat
| LocalCalled
| Dispatched target
| ResponseCalled nat
| Finalized 'c

record ('h, 'c) run =
  rn_inv :: "'h invocation"
  rn_state :: "('h, 'c) exchange_state"
  rn_world :: world
  rn_trace :: "'c event list"

datatype 'h request_end = Ended "status_error + 'h gateway_response" | Unwound | AbandonedRequest

definition is_cancelled :: "nat \<Rightarrow> world \<Rightarrow> bool" where
  "is_cancelled tok w \<longleftrightarrow> tok \<in> set (w_cancelled w)"

definition cancel_token :: "nat \<Rightarrow> world \<Rightarrow> world" where
  "cancel_token tok w = w\<lparr>w_cancelled := tok # w_cancelled w\<rparr>"

definition budget :: "'h invocation \<Rightarrow> nat \<Rightarrow> world \<Rightarrow> (status_error, unit) result" where
  "budget iv deadline w =
     (if is_cancelled (inv_cancel iv) w \<or> deadline \<le> w_now w then Err timeout else Ok ())"

definition map_completion :: "('c completion_callbacks \<Rightarrow> 'c completion_callbacks) \<Rightarrow>
    ('h, 'c) exchange_state \<Rightarrow> ('h, 'c) exchange_state" where
  "map_completion f st = st\<lparr>es_completion := f (es_completion st)\<rparr>"

definition commits_media :: "(policy_failure + 'h handler_outcome) call \<Rightarrow> bool" where
  "commits_media result =
     (case result of
        Returned (Inr Continue) \<Rightarrow> True
      | Returned (Inr (ContinueWithInitialResponse _)) \<Rightarrow> True
      | _ \<Rightarrow> False)"

section \<open>The request phase\<close>

definition after_handler :: "nat \<Rightarrow> nat \<Rightarrow> (policy_failure + 'h handler_outcome) call \<Rightarrow>
    'h gateway_response option \<Rightarrow> ('h, 'c) run \<Rightarrow>
    ('h request_end, 'h gateway_response option) flow \<times> ('h, 'c) run" where
  "after_handler deadline slot result initial rn =
     (let rn = rn\<lparr>rn_state := map_completion leave_policy (rn_state rn),
                 rn_inv := (rn_inv rn)\<lparr>inv_deadline := deadline\<rparr>\<rparr>
      in case budget (rn_inv rn) deadline (rn_world rn) of
           Inl e \<Rightarrow>
             (Return (Ended (Err e)), rn\<lparr>rn_state := end_validator_media_transaction False (rn_state rn)\<rparr>)
         | Inr _ \<Rightarrow>
             (let rn = rn\<lparr>rn_state := end_validator_media_transaction (commits_media result) (rn_state rn)\<rparr>
              in case result of
                   Returned (Inr Continue) \<Rightarrow>
                     (Next initial, rn\<lparr>rn_trace := rn_trace rn @ [RequestContinued slot]\<rparr>)
                 | Returned (Inr (ContinueWithInitialResponse response)) \<Rightarrow>
                     (Next (case initial of None \<Rightarrow> Some response | Some r \<Rightarrow> Some r),
                      rn\<lparr>rn_trace := rn_trace rn @ [RequestContinued slot]\<rparr>)
                 | Returned (Inr (Respond response)) \<Rightarrow> (Return (Ended (Ok response)), rn)
                 | Returned (Inr (Reject e)) \<Rightarrow> (Return (Ended (Err e)), rn)
                 | _ \<Rightarrow> (Return (Ended (Err Exchange.handler_failure)), rn)))"

definition slot_refusal :: "nat \<Rightarrow> validator_media_role list \<Rightarrow> nat \<Rightarrow> request_capabilities \<Rightarrow>
    ('h, 'c) run \<Rightarrow> 'h request_end option" where
  "slot_refusal deadline media_roles slot caps rn =
     (case budget (rn_inv rn) deadline (rn_world rn) of
        Inl e \<Rightarrow> Some (Ended (Err e))
      | Inr _ \<Rightarrow>
          if rc_requires_verified_identity caps \<and> es_principal (rn_state rn) = None
          then Some (Ended (Err missing_identity))
          else if length media_roles \<le> slot then Some Unwound
          else if media_roles ! slot = Requires \<and> \<not> is_ok (validator_media_is_json (rn_state rn))
          then Some (Ended (Err Exchange.handler_failure))
          else None)"

definition call_slot :: "nat \<Rightarrow> nat \<Rightarrow> ('h, 'c) request_handler \<Rightarrow> 'h gateway_response option \<Rightarrow> ('h, 'c) run \<Rightarrow>
    ('h request_end, 'h gateway_response option) flow \<times> ('h, 'c) run" where
  "call_slot deadline slot h initial rn =
     (let st = map_completion (enter_policy slot) (begin_validator_media_transaction (rn_state rn));
          trace = rn_trace rn @ [RequestCalled slot (es_principal st \<noteq> None)]
      in case rq_on_request h (rn_inv rn) st (rn_world rn) of
           (result, iv, st, w) \<Rightarrow>
             (let rn = \<lparr>rn_inv = iv, rn_state = st, rn_world = w, rn_trace = trace\<rparr>
              in if result = Abandoned then (Return AbandonedRequest, rn)
                 else after_handler deadline slot result initial rn))"

definition run_slot :: "nat \<Rightarrow> validator_media_role list \<Rightarrow> nat \<Rightarrow> ('h, 'c) request_handler \<times> request_capabilities \<Rightarrow>
    'h gateway_response option \<Rightarrow> ('h, 'c) run \<Rightarrow>
    ('h request_end, 'h gateway_response option) flow \<times> ('h, 'c) run" where
  "run_slot deadline media_roles slot hc initial rn =
     (case slot_refusal deadline media_roles slot (snd hc) rn of
        Some r \<Rightarrow> (Return r, rn)
      | None \<Rightarrow> call_slot deadline slot (fst hc) initial rn)"

fun run_handlers :: "nat \<Rightarrow> validator_media_role list \<Rightarrow> nat \<Rightarrow>
    (('h, 'c) request_handler \<times> request_capabilities) list \<Rightarrow> 'h gateway_response option \<Rightarrow> ('h, 'c) run \<Rightarrow>
    ('h request_end, 'h gateway_response option) flow \<times> ('h, 'c) run" where
  "run_handlers deadline media_roles slot [] initial rn = (Next initial, rn)"
| "run_handlers deadline media_roles slot (hc # hcs) initial rn =
     (case run_slot deadline media_roles slot hc initial rn of
        (Return r, rn) \<Rightarrow> (Return r, rn)
      | (Next initial, rn) \<Rightarrow> run_handlers deadline media_roles (Suc slot) hcs initial rn)"

definition run_local :: "nat \<Rightarrow> ('h, 'c) request_handler \<Rightarrow> ('h, 'c) run \<Rightarrow> 'h request_end \<times> ('h, 'c) run" where
  "run_local deadline h rn =
     (case rq_on_request h (rn_inv rn) (rn_state rn) (rn_world rn) of
        (result, iv, st, w) \<Rightarrow>
          (let rn = \<lparr>rn_inv = iv, rn_state = st, rn_world = w, rn_trace = rn_trace rn @ [LocalCalled]\<rparr>
           in if result = Abandoned then (AbandonedRequest, rn)
              else case budget iv deadline w of
                Inl e \<Rightarrow> (Ended (Err e), rn)
              | Inr _ \<Rightarrow>
                  (case result of
                     Returned (Inr (Respond response)) \<Rightarrow> (Ended (Ok response), rn)
                   | Returned (Inr (Reject e)) \<Rightarrow> (Ended (Err e), rn)
                   | _ \<Rightarrow> (Ended (Err Exchange.handler_failure), rn))))"

definition no_target_error :: "'h invocation \<Rightarrow> status_error" where
  "no_target_error iv =
     status_new 400 ''ERR10086'' ''FAILED_TO_INVOKE_LAMBDA''
       (''Failed to invoke lambda function '' @ inv_path iv @ ''@'' @ to_ascii_lowercase (inv_method iv) @ ''.'')"

definition count_dispatch :: "('h, 'c) exchange_state \<Rightarrow> ('h, 'c) exchange_state" where
  "count_dispatch st =
     st\<lparr>es_metrics := (es_metrics st)\<lparr>mr_dispatches := (mr_dispatches (es_metrics st) + 1) mod 2 ^ 32\<rparr>\<rparr>"

definition set_latency :: "nat \<Rightarrow> ('h, 'c) exchange_state \<Rightarrow> ('h, 'c) exchange_state" where
  "set_latency d st = st\<lparr>es_metrics := (es_metrics st)\<lparr>mr_dispatch_latency := d\<rparr>\<rparr>"

definition run_dispatch :: "nat \<Rightarrow> ('h, 'c) backend \<Rightarrow> target route list \<Rightarrow> 'h gateway_response option \<Rightarrow>
    ('h, 'c) run \<Rightarrow> 'h request_end \<times> ('h, 'c) run" where
  "run_dispatch deadline dispatch routes initial rn =
     (case (case es_http_route_target (rn_state rn) of
              Some t \<Rightarrow> (Some t, rn_inv rn)
            | None \<Rightarrow> resolve_target routes (rn_inv rn)) of
        (None, iv) \<Rightarrow> (Ended (Err (no_target_error iv)), rn\<lparr>rn_inv := iv\<rparr>)
      | (Some tgt, iv) \<Rightarrow>
          (case budget iv deadline (rn_world rn) of
             Inl e \<Rightarrow> (Ended (Err e), rn\<lparr>rn_inv := iv\<rparr>)
           | Inr _ \<Rightarrow>
               (let st = count_dispatch (rn_state rn);
                    start = w_now (rn_world rn);
                    trace = rn_trace rn @ [Dispatched tgt]
                in case dispatch iv st tgt (rn_world rn) of
                     (result, w) \<Rightarrow>
                       if result = Abandoned
                       then (AbandonedRequest, \<lparr>rn_inv = iv, rn_state = st, rn_world = w, rn_trace = trace\<rparr>)
                       else let rn = \<lparr>rn_inv = iv, rn_state = set_latency (w_now w - start) st,
                                     rn_world = w, rn_trace = trace\<rparr>
                            in case budget iv deadline w of
                                 Inl e \<Rightarrow> (Ended (Err e), rn)
                               | Inr _ \<Rightarrow>
                                   (case result of
                                      Returned (Inr response) \<Rightarrow>
                                        (Ended (Ok (case initial of None \<Rightarrow> response | Some r \<Rightarrow> r)), rn)
                                    | Returned (Inl e) \<Rightarrow> (Ended (Err e), rn)
                                    | _ \<Rightarrow> (Ended (Err Exchange.handler_failure), rn)))))"

definition run_request :: "('h, 'c) compiled_chain \<Rightarrow> ('h, 'c) backend \<Rightarrow> nat \<Rightarrow> ('h, 'c) run \<Rightarrow>
    'h request_end \<times> ('h, 'c) run" where
  "run_request chain dispatch deadline rn =
     (case run_handlers deadline (ch_media_roles chain) 0 (ch_request chain) None rn of
        (Return r, rn) \<Rightarrow> (r, rn)
      | (Next initial, rn) \<Rightarrow>
          (case budget (rn_inv rn) deadline (rn_world rn) of
             Inl e \<Rightarrow> (Ended (Err e), rn)
           | Inr _ \<Rightarrow>
               (case ch_terminal chain of
                  Local h \<Rightarrow> run_local deadline h rn
                | Dispatch routes \<Rightarrow> run_dispatch deadline dispatch routes initial rn)))"

section \<open>Completion\<close>

record ('h, 'c) completion_guard =
  cg_inv :: "'h invocation"
  cg_state :: "('h, 'c) exchange_state"
  cg_response :: "'h gateway_response"
  cg_callbacks :: "'c list"
  cg_finalized :: bool

definition guard_new_with_validator_media :: "'h http_ops \<Rightarrow> 'h invocation \<Rightarrow> 'c list \<Rightarrow>
    validator_media_proof \<Rightarrow> ('h, 'c) completion_guard" where
  "guard_new_with_validator_media ops iv callbacks media_proof =
     \<lparr>cg_inv = iv, cg_state = commit_validator_media media_proof (exchange_default ops),
      cg_response = status_response ops timeout, cg_callbacks = callbacks, cg_finalized = False\<rparr>"

definition guard_new :: "'h http_ops \<Rightarrow> 'h invocation \<Rightarrow> 'c list \<Rightarrow> ('h, 'c) completion_guard" where
  "guard_new ops iv callbacks = guard_new_with_validator_media ops iv callbacks MediaUnknown"

definition set_audit_status :: "status_error \<Rightarrow> ('h, 'c) exchange_state \<Rightarrow> ('h, 'c) exchange_state" where
  "set_audit_status e st = st\<lparr>es_audit := (es_audit st)\<lparr>ai_status := Some e\<rparr>\<rparr>"

text \<open>The result is the callbacks run, in the order of the drain: the list is popped from its end.\<close>

definition guard_finalize :: "('h, 'c) completion_guard \<Rightarrow> ('h, 'c) completion_guard \<times> 'c list" where
  "guard_finalize g =
     (if cg_finalized g then (g, [])
      else let st = end_validator_media_transaction False (cg_state g);
               st = st\<lparr>es_metrics := (es_metrics st)\<lparr>mr_finalized := True\<rparr>\<rparr>
           in case completion_finish (es_completion st) of
                (result, cc) \<Rightarrow>
                  (let local_callbacks = (case result of Inr cs \<Rightarrow> cs | Inl _ \<Rightarrow> []);
                       callbacks = cg_callbacks g @ rev local_callbacks
                   in (g\<lparr>cg_finalized := True, cg_state := st\<lparr>es_completion := cc\<rparr>, cg_callbacks := []\<rparr>,
                       rev callbacks)))"

definition guard_drop :: "'h http_ops \<Rightarrow> ('h, 'c) completion_guard \<Rightarrow> world \<Rightarrow>
    ('h, 'c) completion_guard \<times> world \<times> 'c list" where
  "guard_drop ops g w =
     (if cg_finalized g then (g, w, [])
      else case guard_finalize (g\<lparr>cg_response := status_response ops timeout,
                                  cg_state := set_audit_status timeout (cg_state g)\<rparr>) of
        (g, cs) \<Rightarrow> (g, cancel_token (inv_cancel (cg_inv g)) w, cs))"

text \<open>\<open>None\<close> is a preparation that panics.\<close>

definition prepare_completion :: "'h http_ops \<Rightarrow> ('h gateway_response \<Rightarrow> (status_error + 'h gateway_response) option) \<Rightarrow>
    ('h, 'c) completion_guard \<Rightarrow> ('h, 'c) completion_guard" where
  "prepare_completion ops prepare g =
     (case prepare (cg_response g) of
        Some (Inr response) \<Rightarrow> g\<lparr>cg_response := response\<rparr>
      | result \<Rightarrow>
          (let e = (case result of Some (Inl e) \<Rightarrow> e | _ \<Rightarrow> Exchange.handler_failure)
           in g\<lparr>cg_response := status_response ops e, cg_state := set_audit_status e (cg_state g)\<rparr>))"

section \<open>The response phase\<close>

fun run_responses :: "nat \<Rightarrow> 'h invocation \<Rightarrow> nat \<Rightarrow> ('h, 'c) response_handler list \<Rightarrow> ('h, 'c) exchange_state \<Rightarrow>
    'h gateway_response \<Rightarrow> world \<Rightarrow> 'c event list \<Rightarrow>
    (status_error, unit) result \<times> ('h, 'c) exchange_state \<times> 'h gateway_response \<times> world \<times> 'c event list" where
  "run_responses deadline iv k [] st candidate w trace =
     ((if deadline \<le> w_now w then Err timeout else Ok ()), st, candidate, w, trace)"
| "run_responses deadline iv k (h # hs) st candidate w trace =
     (if deadline \<le> w_now w then (Err timeout, st, candidate, w, trace)
      else case rs_on_response h iv st candidate w of
        (result, st, candidate, w) \<Rightarrow>
          (let trace = trace @ [ResponseCalled k]
           in case result of
                Returned (Inr _) \<Rightarrow> run_responses deadline iv (Suc k) hs st candidate w trace
              | Abandoned \<Rightarrow> (Err timeout, st, candidate, w, trace)
              | _ \<Rightarrow> (Err Exchange.handler_failure, st, candidate, w, trace)))"

definition response_phase :: "'h http_ops \<Rightarrow> ('h, 'c) compiled_chain \<Rightarrow> nat \<Rightarrow> ('h, 'c) completion_guard \<Rightarrow> world \<Rightarrow>
    'c event list \<Rightarrow> ('h, 'c) completion_guard \<times> world \<times> 'c event list" where
  "response_phase ops chain deadline g w trace =
     (let token = w_next_token w;
          iv = (cg_inv g)\<lparr>inv_cancel := token\<rparr>;
          w = w\<lparr>w_next_token := Suc token\<rparr>
      in case (if deadline \<le> w_now w then (Err timeout, cg_state g, cg_response g, w, trace)
               else run_responses deadline iv 0 (ch_response chain) (cg_state g) (cg_response g) w trace) of
           (result, st, candidate, w, trace) \<Rightarrow>
             (let result = (if deadline \<le> w_now w then Err timeout else result)
              in case result of
                   Inr _ \<Rightarrow> (g\<lparr>cg_state := st, cg_response := candidate\<rparr>, w, trace)
                 | Inl e \<Rightarrow>
                     (g\<lparr>cg_state := set_audit_status e st, cg_response := status_response ops e\<rparr>,
                      cancel_token token w, trace)))"

section \<open>The pipeline\<close>

fun prepare_slots :: "'h invocation \<Rightarrow> nat \<Rightarrow> (('h, 'c) request_handler \<times> request_capabilities) list \<Rightarrow>
    'c completion_callbacks \<Rightarrow> 'c completion_callbacks" where
  "prepare_slots iv slot [] cc = cc"
| "prepare_slots iv slot ((h, _) # hcs) cc =
     prepare_slots iv (Suc slot) hcs
       (case rq_prepare_completion h iv of
          Some callback \<Rightarrow> completion_prepare slot callback cc
        | None \<Rightarrow> cc)"

definition request_phase :: "('h, 'c) compiled_chain option \<Rightarrow> ('h, 'c) backend \<Rightarrow> nat \<Rightarrow> nat \<Rightarrow> ('h, 'c) run \<Rightarrow>
    (status_error + 'h gateway_response) \<times> ('h, 'c) run" where
  "request_phase chain dispatch deadline token rn =
     (if is_cancelled token (rn_world rn) then (Err timeout, rn)
      else case (case budget (rn_inv rn) deadline (rn_world rn) of
                   Inl e \<Rightarrow> (Ended (Err e), rn)
                 | Inr _ \<Rightarrow>
                     (case chain of
                        None \<Rightarrow> (Ended (Err missing_target), rn)
                      | Some c \<Rightarrow> run_request c dispatch deadline rn)) of
        (Ended result, rn) \<Rightarrow> (result, rn)
      | (Unwound, rn) \<Rightarrow> (Err Exchange.handler_failure, rn)
      | (AbandonedRequest, rn) \<Rightarrow> (Err timeout, rn))"

definition merge_headers :: "'h http_ops \<Rightarrow> 'h \<Rightarrow> 'h gateway_response \<Rightarrow> 'h gateway_response" where
  "merge_headers ops headers response =
     response\<lparr>gr_headers := fold (\<lambda>entry h. ho_append ops h entry) (ho_entries ops headers) (gr_headers response)\<rparr>"

definition adopt_outcome :: "'h http_ops \<Rightarrow> nat \<Rightarrow> nat \<Rightarrow> nat \<Rightarrow> status_error + 'h gateway_response \<Rightarrow> ('h, 'c) run \<Rightarrow>
    ('h, 'c) completion_guard \<Rightarrow> ('h, 'c) completion_guard \<times> world" where
  "adopt_outcome ops token request_deadline response_deadline outcome rn g =
     (let st = end_validator_media_transaction False (rn_state rn);
          iv = (rn_inv rn)\<lparr>inv_deadline := request_deadline, inv_response_deadline := response_deadline\<rparr>
      in case (case outcome of
                 Inr response \<Rightarrow> (response, st, rn_world rn)
               | Inl e \<Rightarrow>
                   (status_response ops e, set_audit_status e st,
                    if se_code e = ''ERR14017'' then cancel_token token (rn_world rn) else rn_world rn)) of
           (response, st, w) \<Rightarrow>
             (g\<lparr>cg_inv := iv, cg_state := st,
                cg_response := merge_headers ops (es_response_headers st) response\<rparr>, w))"

record ('h, 'c) pipeline =
  pl_plan :: "('h, 'c) execution_plan"
  pl_finalizers :: "'c list"

definition execute_prepared_with_validator_media :: "'h http_ops \<Rightarrow> ('h, 'c) pipeline \<Rightarrow> 'h invocation \<Rightarrow>
    ('h, 'c) backend \<Rightarrow> validator_media_proof \<Rightarrow>
    ('h gateway_response \<Rightarrow> (status_error + 'h gateway_response) option) \<Rightarrow> world \<Rightarrow>
    'h gateway_response \<times> world \<times> 'c event list" where
  "execute_prepared_with_validator_media ops pl iv dispatch media_proof prepare w =
     (let g = guard_new_with_validator_media ops iv (pl_finalizers pl) media_proof;
          request_deadline = inv_deadline iv;
          response_deadline = inv_response_deadline iv;
          token = inv_cancel iv
      in case plan_select (pl_plan pl) (cg_inv g) of
           (chain, iv) \<Rightarrow>
             (let st = (case chain of
                          None \<Rightarrow> cg_state g
                        | Some c \<Rightarrow> map_completion (prepare_slots iv 0 (ch_request c)) (cg_state g))
              in case request_phase chain dispatch request_deadline token
                        \<lparr>rn_inv = iv, rn_state = st, rn_world = w, rn_trace = []\<rparr> of
                   (outcome, rn) \<Rightarrow>
                     (case adopt_outcome ops token request_deadline response_deadline outcome rn g of
                        (g, w) \<Rightarrow>
                          (case (case chain of
                                   None \<Rightarrow> (g, w, rn_trace rn)
                                 | Some c \<Rightarrow> response_phase ops c response_deadline g w (rn_trace rn)) of
                             (g, w, trace) \<Rightarrow>
                               (case guard_finalize (prepare_completion ops prepare g) of
                                  (g, cs) \<Rightarrow> (cg_response g, w, trace @ map Finalized cs))))))"

definition execute_prepared :: "'h http_ops \<Rightarrow> ('h, 'c) pipeline \<Rightarrow> 'h invocation \<Rightarrow> ('h, 'c) backend \<Rightarrow>
    ('h gateway_response \<Rightarrow> (status_error + 'h gateway_response) option) \<Rightarrow> world \<Rightarrow>
    'h gateway_response \<times> world \<times> 'c event list" where
  "execute_prepared ops pl iv dispatch prepare w =
     execute_prepared_with_validator_media ops pl iv dispatch MediaUnknown prepare w"

definition execute :: "'h http_ops \<Rightarrow> ('h, 'c) pipeline \<Rightarrow> 'h invocation \<Rightarrow> ('h, 'c) backend \<Rightarrow> world \<Rightarrow>
    'h gateway_response \<times> world \<times> 'c event list" where
  "execute ops pl iv dispatch w = execute_prepared ops pl iv dispatch (\<lambda>r. Some (Ok r)) w"

definition respond_prepared :: "'h http_ops \<Rightarrow> ('h, 'c) pipeline \<Rightarrow> 'h invocation \<Rightarrow> 'h gateway_response \<Rightarrow>
    ('h gateway_response \<Rightarrow> (status_error + 'h gateway_response) option) \<Rightarrow>
    'h gateway_response \<times> 'c event list" where
  "respond_prepared ops pl iv response prepare =
     (case guard_finalize (prepare_completion ops prepare
             ((guard_new ops iv (pl_finalizers pl))\<lparr>cg_response := response\<rparr>)) of
        (g, cs) \<Rightarrow> (cg_response g, map Finalized cs))"

definition respond :: "'h http_ops \<Rightarrow> ('h, 'c) pipeline \<Rightarrow> 'h invocation \<Rightarrow> 'h gateway_response \<Rightarrow>
    'h gateway_response \<times> 'c event list" where
  "respond ops pl iv response =
     (case guard_finalize ((guard_new ops iv (pl_finalizers pl))\<lparr>cg_response := response\<rparr>) of
        (g, cs) \<Rightarrow> (cg_response g, map Finalized cs))"

end
