(* ===== verification/Pipeline_Safety.thy ===== *)
theory Pipeline_Safety
  imports Pipeline
begin

text \<open>
  What the pipeline guarantees whatever its handlers do: a protocol automaton over the events of
  one invocation, the proof that every execution follows it, and the consequences for dispatch,
  identity, completion and expired requests.
\<close>

section \<open>The protocol\<close>

datatype stage = AtPolicy nat | InPolicy nat | AtResponse nat | Finishing

fun next_response :: "stage \<Rightarrow> nat option" where
  "next_response (AtPolicy _) = Some 0"
| "next_response (InPolicy _) = Some 0"
| "next_response (AtResponse k) = Some k"
| "next_response Finishing = None"

inductive protocol :: "('h, 'c) compiled_chain option \<Rightarrow> stage \<Rightarrow> 'c event \<Rightarrow> stage \<Rightarrow> bool" where
  call: "k < length (ch_request c) \<Longrightarrow>
    (rc_requires_verified_identity (snd (ch_request c ! k)) \<Longrightarrow> p) \<Longrightarrow>
    protocol (Some c) (AtPolicy k) (RequestCalled k p) (InPolicy k)"
| continue: "protocol (Some c) (InPolicy k) (RequestContinued k) (AtPolicy (Suc k))"
| local: "ch_terminal c = Local h \<Longrightarrow>
    protocol (Some c) (AtPolicy (length (ch_request c))) LocalCalled (AtResponse 0)"
| dispatch: "ch_terminal c = Dispatch routes \<Longrightarrow>
    protocol (Some c) (AtPolicy (length (ch_request c))) (Dispatched t) (AtResponse 0)"
| response: "next_response s = Some k \<Longrightarrow> k < length (ch_response c) \<Longrightarrow>
    protocol (Some c) s (ResponseCalled k) (AtResponse (Suc k))"
| finalize: "protocol ch s (Finalized cb) Finishing"

inductive protocol_run :: "('h, 'c) compiled_chain option \<Rightarrow> stage \<Rightarrow> 'c event list \<Rightarrow> stage \<Rightarrow> bool" where
  stop: "protocol_run ch s [] s"
| step: "protocol ch s e s' \<Longrightarrow> protocol_run ch s' tr s'' \<Longrightarrow> protocol_run ch s (e # tr) s''"

inductive_simps protocol_run_Nil [simp]: "protocol_run ch s [] s'"
inductive_simps protocol_run_Cons: "protocol_run ch s (e # tr) s'"
inductive_cases protocol_DispatchedE: "protocol ch s (Dispatched t) s'"

lemma protocol_run_append:
  "protocol_run ch s tr s' \<Longrightarrow> protocol_run ch s' tr' s'' \<Longrightarrow> protocol_run ch s (tr @ tr') s''"
  by (induction rule: protocol_run.induct) (auto intro: protocol_run.step)

lemma protocol_run_one: "protocol ch s e s' \<Longrightarrow> protocol_run ch s [e] s'"
  by (auto intro: protocol_run.intros)

lemma protocol_run_finalized: "\<exists>s'. protocol_run ch s (map Finalized cs) s'"
proof (induction cs arbitrary: s)
  case (Cons a cs)
  then obtain s' where "protocol_run ch Finishing (map Finalized cs) s'"
    by blast
  then show ?case
    by (auto intro: protocol_run.step protocol.finalize)
qed (auto intro: protocol_run.stop)

section \<open>The request phase follows the protocol\<close>

lemma es_principal_entered [simp]:
  "es_principal (map_completion f (begin_validator_media_transaction st)) = es_principal st"
  by (simp add: map_completion_def begin_validator_media_transaction_def)

definition request_stage :: "stage \<Rightarrow> bool" where
  "request_stage s \<longleftrightarrow> next_response s = Some 0"

lemma request_stage_simps [simp]:
  "request_stage (AtPolicy k)" "request_stage (InPolicy k)" "request_stage (AtResponse 0)"
  by (simp_all add: request_stage_def)

lemma after_handler_trace:
  assumes "after_handler dl k res init rn = (fl, rn')"
  shows "(\<exists>i. fl = Next i \<and> rn_trace rn' = rn_trace rn @ [RequestContinued k])
       \<or> (\<exists>r. fl = Return r \<and> rn_trace rn' = rn_trace rn)"
  using assms
  by (auto simp: after_handler_def Let_def
           split: sum.splits call.splits handler_outcome.splits)

lemma slot_refusal_identity:
  "slot_refusal dl roles k caps rn = None \<Longrightarrow> rc_requires_verified_identity caps \<Longrightarrow>
   es_principal (rn_state rn) \<noteq> None"
  by (auto simp: slot_refusal_def split: sum.splits if_splits)

lemma call_slot_trace:
  assumes "call_slot dl k h init rn = (fl, rn')"
  shows "let called = rn_trace rn @ [RequestCalled k (es_principal (rn_state rn) \<noteq> None)]
         in (\<exists>i. fl = Next i \<and> rn_trace rn' = called @ [RequestContinued k])
          \<or> (\<exists>r. fl = Return r \<and> rn_trace rn' = called)"
proof -
  let ?st = "map_completion (enter_policy k) (begin_validator_media_transaction (rn_state rn))"
  obtain res iv st w where call: "rq_on_request h (rn_inv rn) ?st (rn_world rn) = (res, iv, st, w)"
    by (metis prod_cases4)
  show ?thesis
  proof (cases "res = Abandoned")
    case True
    then show ?thesis
      using assms by (auto simp: call_slot_def Let_def call)
  next
    case False
    then have "after_handler dl k res init
        \<lparr>rn_inv = iv, rn_state = st, rn_world = w,
         rn_trace = rn_trace rn @ [RequestCalled k (es_principal (rn_state rn) \<noteq> None)]\<rparr> = (fl, rn')"
      using assms by (simp add: call_slot_def Let_def call)
    from after_handler_trace [OF this] show ?thesis
      by simp
  qed
qed

lemma run_slot_trace:
  fixes rn :: "('h, 'c) run"
  assumes "run_slot dl roles k hc init rn = (fl, rn')"
  defines "p \<equiv> es_principal (rn_state rn) \<noteq> None"
  shows "(\<exists>i. fl = Next i \<and> (rc_requires_verified_identity (snd hc) \<longrightarrow> p)
              \<and> rn_trace rn' = rn_trace rn @ [RequestCalled k p, RequestContinued k])
       \<or> (\<exists>r. fl = Return r \<and> (rc_requires_verified_identity (snd hc) \<longrightarrow> p)
              \<and> rn_trace rn' = rn_trace rn @ [RequestCalled k p])
       \<or> (\<exists>r. fl = Return r \<and> rn_trace rn' = rn_trace rn)"
proof (cases "slot_refusal dl roles k (snd hc) rn")
  case None
  then have "call_slot dl k (fst hc) init rn = (fl, rn')"
    using assms(1) by (simp add: run_slot_def)
  from call_slot_trace [OF this]
  have "(\<exists>i. fl = Next i \<and> rn_trace rn' = rn_trace rn @ [RequestCalled k p, RequestContinued k])
      \<or> (\<exists>r. fl = Return r \<and> rn_trace rn' = rn_trace rn @ [RequestCalled k p])"
    unfolding p_def Let_def append_assoc append_Cons append_Nil .
  moreover have "rc_requires_verified_identity (snd hc) \<longrightarrow> p"
    using slot_refusal_identity [OF None] unfolding p_def by simp
  ultimately show ?thesis
    by metis
next
  case (Some r)
  then show ?thesis
    using assms(1) by (auto simp: run_slot_def)
qed

lemma run_handlers_protocol:
  assumes "run_handlers dl roles k hcs init rn = (fl, rn')"
    and "hcs = drop k (ch_request c)" and "k \<le> length (ch_request c)"
  shows "\<exists>log s. rn_trace rn' = rn_trace rn @ log \<and> protocol_run (Some c) (AtPolicy k) log s
           \<and> request_stage s \<and> (\<forall>i. fl = Next i \<longrightarrow> s = AtPolicy (length (ch_request c)))"
  using assms
proof (induction dl roles k hcs init rn arbitrary: fl rn' rule: run_handlers.induct)
  case (1 dl roles k init rn)
  then show ?case
    by (intro exI [of _ "[]"]) auto
next
  case (2 dl roles k hc hcs init rn)
  have k: "k < length (ch_request c)"
    using "2.prems"(2) by (metis drop_all linorder_not_less list.distinct(1))
  then have hc: "hc = ch_request c ! k" and hcs: "hcs = drop (Suc k) (ch_request c)"
    using "2.prems"(2) by (auto simp: Cons_nth_drop_Suc [symmetric])
  obtain fl1 rn1 where one: "run_slot dl roles k hc init rn = (fl1, rn1)"
    by fastforce
  define p where "p = (es_principal (rn_state rn) \<noteq> None)"
  from run_slot_trace [OF one, folded p_def] consider
      (cont) i where "fl1 = Next i" "rc_requires_verified_identity (snd hc) \<longrightarrow> p"
        "rn_trace rn1 = rn_trace rn @ [RequestCalled k p, RequestContinued k]"
    | (ended) r where "fl1 = Return r" "rc_requires_verified_identity (snd hc) \<longrightarrow> p"
        "rn_trace rn1 = rn_trace rn @ [RequestCalled k p]"
    | (refused) r where "fl1 = Return r" "rn_trace rn1 = rn_trace rn"
    by metis
  then show ?case
  proof cases
    case cont
    have run: "run_handlers dl roles (Suc k) hcs i rn1 = (fl, rn')"
      using "2.prems"(1) one cont(1) by simp
    obtain log s where log: "rn_trace rn' = rn_trace rn1 @ log"
        "protocol_run (Some c) (AtPolicy (Suc k)) log s" "request_stage s"
        "\<forall>i. fl = Next i \<longrightarrow> s = AtPolicy (length (ch_request c))"
      using "2.IH" [OF one [symmetric] cont(1) run hcs] k by auto
    have "protocol_run (Some c) (AtPolicy k) (RequestCalled k p # RequestContinued k # log) s"
      using log(2) k hc cont(2) by (auto intro!: protocol_run.step protocol.intros)
    then show ?thesis
      using log cont(3) by (intro exI [of _ "RequestCalled k p # RequestContinued k # log"] exI [of _ s]) simp
  next
    case ended
    then have "protocol_run (Some c) (AtPolicy k) [RequestCalled k p] (InPolicy k)"
      using k hc by (auto intro!: protocol_run_one protocol.call)
    then show ?thesis
      using ended "2.prems"(1) one
      by (intro exI [of _ "[RequestCalled k p]"] exI [of _ "InPolicy k"]) auto
  next
    case refused
    then show ?thesis
      using "2.prems"(1) one by (intro exI [of _ "[]"] exI [of _ "AtPolicy k"]) auto
  qed
qed

lemma run_local_trace:
  "run_local dl h rn = (r, rn') \<Longrightarrow> rn_trace rn' = rn_trace rn @ [LocalCalled]"
  by (auto simp: run_local_def Let_def
           split: prod.split_asm if_split_asm sum.split_asm call.split_asm handler_outcome.split_asm)

lemma run_dispatch_trace:
  assumes "run_dispatch dl dispatch routes init rn = (r, rn')"
  shows "rn_trace rn' = rn_trace rn \<or> (\<exists>t. rn_trace rn' = rn_trace rn @ [Dispatched t])"
  using assms
  by (auto simp: run_dispatch_def Let_def
           split: prod.split_asm option.split_asm if_split_asm sum.split_asm call.split_asm)

lemma run_request_protocol:
  assumes "run_request c dispatch dl rn = (r, rn')"
  shows "\<exists>log s. rn_trace rn' = rn_trace rn @ log \<and> protocol_run (Some c) (AtPolicy 0) log s \<and> request_stage s"
proof -
  obtain fl rn1 where hs: "run_handlers dl (ch_media_roles c) 0 (ch_request c) None rn = (fl, rn1)"
    by fastforce
  obtain log s where log: "rn_trace rn1 = rn_trace rn @ log" "protocol_run (Some c) (AtPolicy 0) log s"
      "request_stage s" "\<forall>i. fl = Next i \<longrightarrow> s = AtPolicy (length (ch_request c))"
    using run_handlers_protocol [OF hs, of c] by auto
  consider (same) "rn_trace rn' = rn_trace rn1"
    | (local) i h where "fl = Next i" "ch_terminal c = Local h" "rn_trace rn' = rn_trace rn1 @ [LocalCalled]"
    | (dispatch) i routes t where "fl = Next i" "ch_terminal c = Dispatch routes"
        "rn_trace rn' = rn_trace rn1 @ [Dispatched t]"
    using assms hs unfolding run_request_def
    by (auto split: flow.split_asm sum.split_asm terminal.split_asm
             dest: run_local_trace run_dispatch_trace)
  then show ?thesis
  proof cases
    case same
    then show ?thesis using log by auto
  next
    case local
    then have "protocol_run (Some c) s [LocalCalled] (AtResponse 0)"
      using log(4) by (auto intro: protocol_run_one protocol.local)
    from protocol_run_append [OF log(2) this] show ?thesis
      using local(3) log(1) by (intro exI [of _ "log @ [LocalCalled]"] exI [of _ "AtResponse 0"]) simp
  next
    case dispatch
    then have "protocol_run (Some c) s [Dispatched t] (AtResponse 0)"
      using log(4) by (auto intro: protocol_run_one protocol.dispatch)
    from protocol_run_append [OF log(2) this] show ?thesis
      using dispatch(3) log(1) by (intro exI [of _ "log @ [Dispatched t]"] exI [of _ "AtResponse 0"]) simp
  qed
qed

lemma request_phase_protocol:
  assumes "request_phase ch dispatch dl tok rn = (out, rn')"
  shows "\<exists>log s. rn_trace rn' = rn_trace rn @ log \<and> protocol_run ch (AtPolicy 0) log s \<and> request_stage s"
proof (cases "rn_trace rn' = rn_trace rn")
  case True
  then show ?thesis
    by (intro exI [of _ "[]"] exI [of _ "AtPolicy 0"]) simp
next
  case False
  then obtain c r where "ch = Some c" "run_request c dispatch dl rn = (r, rn')"
    using assms by (auto simp: request_phase_def
        split: if_split_asm sum.split_asm option.split_asm prod.split_asm request_end.split_asm)
  then show ?thesis
    using run_request_protocol by blast
qed

section \<open>The response phase and the whole execution\<close>

lemma run_responses_protocol:
  assumes "run_responses dl iv k hs st cand w tr = (res, st', cand', w', tr')"
    and "hs = drop k (ch_response c)" and "next_response s = Some k"
  shows "\<exists>log s'. tr' = tr @ log \<and> protocol_run (Some c) s log s' \<and> next_response s' \<noteq> None"
  using assms
proof (induction dl iv k hs st cand w tr arbitrary: s rule: run_responses.induct)
  case (1 dl iv k st cand w tr)
  then show ?case
    by (intro exI [of _ "[]"] exI [of _ s]) auto
next
  case (2 dl iv k h hs st cand w tr)
  have k: "k < length (ch_response c)"
    using "2.prems"(2) by (metis drop_all linorder_not_less list.distinct(1))
  then have hs: "hs = drop (Suc k) (ch_response c)"
    using "2.prems"(2) by (auto simp: Cons_nth_drop_Suc [symmetric])
  have one: "protocol_run (Some c) s [ResponseCalled k] (AtResponse (Suc k))"
    using protocol.response [OF "2.prems"(3) k] by (rule protocol_run_one)
  obtain r st1 c1 w1 where call: "rs_on_response h iv st cand w = (r, st1, c1, w1)"
    by (metis prod_cases4)
  consider (same) "tr' = tr" | (ended) "tr' = tr @ [ResponseCalled k]"
    | (go) "\<not> dl \<le> w_now w" "r = Returned (Inr ())"
        "run_responses dl iv (Suc k) hs st1 c1 w1 (tr @ [ResponseCalled k]) = (res, st', cand', w', tr')"
  proof (cases "dl \<le> w_now w")
    case True
    then show ?thesis
      using "2.prems"(1) that(1) by simp
  next
    case False
    then have step: "(case r of
        Returned (Inr _) \<Rightarrow> run_responses dl iv (Suc k) hs st1 c1 w1 (tr @ [ResponseCalled k])
      | Abandoned \<Rightarrow> (Err timeout, st1, c1, w1, tr @ [ResponseCalled k])
      | _ \<Rightarrow> (Err Exchange.handler_failure, st1, c1, w1, tr @ [ResponseCalled k])) = (res, st', cand', w', tr')"
      using "2.prems"(1) by (simp add: call Let_def)
    show ?thesis
    proof (cases "r = Returned (Inr ())")
      case True
      then show ?thesis
        using step that(3) False by simp
    next
      case False
      then have "tr' = tr @ [ResponseCalled k]"
        using step by (cases r) (simp_all split: sum.split_asm)
      then show ?thesis
        by (rule that(2))
    qed
  qed
  then show ?case
  proof cases
    case go
    have "\<exists>log s'. tr' = (tr @ [ResponseCalled k]) @ log
        \<and> protocol_run (Some c) (AtResponse (Suc k)) log s' \<and> next_response s' \<noteq> None"
      using "2.IH" [where s = "AtResponse (Suc k)", OF go(1) call [symmetric]] go(2,3) hs
      by simp
    then obtain log s' where log: "tr' = (tr @ [ResponseCalled k]) @ log"
        "protocol_run (Some c) (AtResponse (Suc k)) log s'" "next_response s' \<noteq> None"
      by blast
    then show ?thesis
      using protocol_run_append [OF one log(2)]
      by (intro exI [of _ "[ResponseCalled k] @ log"] exI [of _ s']) simp
  next
    case same
    then show ?thesis
      using "2.prems"(3) by (intro exI [of _ "[]"] exI [of _ s]) simp
  next
    case ended
    then show ?thesis
      using one by (intro exI [of _ "[ResponseCalled k]"] exI [of _ "AtResponse (Suc k)"]) simp
  qed
qed

lemma response_phase_protocol:
  assumes "response_phase ops c dl g w tr = (g', w', tr')" and "request_stage s"
  shows "\<exists>log s'. tr' = tr @ log \<and> protocol_run (Some c) s log s' \<and> next_response s' \<noteq> None"
proof (cases "tr' = tr")
  case True
  then show ?thesis
    using assms(2) by (intro exI [of _ "[]"] exI [of _ s]) (simp add: request_stage_def)
next
  case False
  then obtain iv res st cand w1 w2 where
    "run_responses dl iv 0 (ch_response c) (cg_state g) (cg_response g) w1 tr = (res, st, cand, w2, tr')"
    using assms(1) by (auto simp: response_phase_def Let_def
        split: if_split_asm prod.split_asm sum.split_asm)
  from run_responses_protocol [OF this, of c s] assms(2) show ?thesis
    by (simp add: request_stage_def)
qed

lemma response_phase_callbacks:
  "response_phase ops c dl g w tr = (g', w', tr') \<Longrightarrow> cg_callbacks g' = cg_callbacks g \<and> cg_finalized g' = cg_finalized g"
  by (auto simp: response_phase_def Let_def split: if_split_asm prod.split_asm sum.split_asm)

lemma adopt_outcome_callbacks:
  "adopt_outcome ops tok d1 d2 out rn g = (g', w) \<Longrightarrow> cg_callbacks g' = cg_callbacks g \<and> cg_finalized g' = cg_finalized g"
  by (auto simp: adopt_outcome_def Let_def split: sum.split_asm)

lemma prepare_completion_callbacks [simp]:
  "cg_callbacks (prepare_completion ops prepare g) = cg_callbacks g"
  "cg_finalized (prepare_completion ops prepare g) = cg_finalized g"
  by (auto simp: prepare_completion_def Let_def split: option.split sum.split)

lemma es_completion_end [simp]:
  "es_completion (end_validator_media_transaction b st) = es_completion st"
  by (simp add: end_validator_media_transaction_def Let_def split: option.split)

definition local_callbacks :: "('h, 'c) exchange_state \<Rightarrow> 'c list" where
  "local_callbacks st = (case fst (completion_finish (es_completion st)) of Inr cs \<Rightarrow> cs | Inl _ \<Rightarrow> [])"

lemma guard_finalize_callbacks:
  "\<not> cg_finalized g \<Longrightarrow> snd (guard_finalize g) = local_callbacks (cg_state g) @ rev (cg_callbacks g)"
  by (simp add: guard_finalize_def Let_def local_callbacks_def split: prod.split)

lemma execute_trace:
  fixes pl :: "('h, 'c) pipeline"
  assumes "execute_prepared_with_validator_media ops pl iv dispatch media prepare w = (r, w', tr)"
  defines "ch \<equiv> fst (plan_select (pl_plan pl) iv)"
  shows "\<exists>body s (st :: ('h, 'c) exchange_state). tr = body @ map Finalized (local_callbacks st @ rev (pl_finalizers pl))
     \<and> protocol_run ch (AtPolicy 0) body s \<and> next_response s \<noteq> None"
proof -
  define g where "g = guard_new_with_validator_media ops iv (pl_finalizers pl) media"
  have g: "cg_inv g = iv" "cg_callbacks g = pl_finalizers pl" "\<not> cg_finalized g"
    by (simp_all add: g_def guard_new_with_validator_media_def)
  obtain iv1 where sel: "plan_select (pl_plan pl) iv = (ch, iv1)"
    unfolding ch_def by (metis prod.collapse)
  define st where "st = (case ch of None \<Rightarrow> cg_state g
      | Some c \<Rightarrow> map_completion (prepare_slots iv1 0 (ch_request c)) (cg_state g))"
  obtain out rn where req: "request_phase ch dispatch (inv_deadline iv) (inv_cancel iv)
      \<lparr>rn_inv = iv1, rn_state = st, rn_world = w, rn_trace = []\<rparr> = (out, rn)"
    by fastforce
  obtain g1 w1 where ad: "adopt_outcome ops (inv_cancel iv) (inv_deadline iv) (inv_response_deadline iv) out rn g = (g1, w1)"
    by fastforce
  obtain g2 w2 tr2 where resp: "(case ch of None \<Rightarrow> (g1, w1, rn_trace rn)
      | Some c \<Rightarrow> response_phase ops c (inv_response_deadline iv) g1 w1 (rn_trace rn)) = (g2, w2, tr2)"
    by (metis prod_cases3)
  have tr: "tr = tr2 @ map Finalized (snd (guard_finalize (prepare_completion ops prepare g2)))"
    using assms(1) unfolding execute_prepared_with_validator_media_def Let_def g_def [symmetric]
    by (simp add: g(1) sel st_def [symmetric] req ad resp split: prod.split_asm)
  obtain s where s: "protocol_run ch (AtPolicy 0) (rn_trace rn) s" "request_stage s"
    using request_phase_protocol [OF req] by auto
  have "\<exists>log s'. tr2 = rn_trace rn @ log \<and> protocol_run ch s log s' \<and> next_response s' \<noteq> None"
  proof (cases ch)
    case None
    then show ?thesis
      using resp s(2) by (intro exI [of _ "[]"] exI [of _ s]) (simp add: request_stage_def)
  next
    case (Some c)
    then show ?thesis
      using response_phase_protocol [OF _ s(2)] resp by simp
  qed
  then obtain log s' where log: "tr2 = rn_trace rn @ log" "protocol_run ch s log s'" "next_response s' \<noteq> None"
    by blast
  have "cg_callbacks g2 = pl_finalizers pl \<and> \<not> cg_finalized g2"
    using resp adopt_outcome_callbacks [OF ad] g by (auto dest: response_phase_callbacks split: option.split_asm)
  then have "snd (guard_finalize (prepare_completion ops prepare g2))
      = local_callbacks (cg_state (prepare_completion ops prepare g2)) @ rev (pl_finalizers pl)"
    by (simp add: guard_finalize_callbacks)
  then show ?thesis
    using tr log protocol_run_append [OF s(1) log(2)]
    by (intro exI [of _ tr2] exI [of _ s'] exI [of _ "cg_state (prepare_completion ops prepare g2)"]) simp
qed

lemma execute_run:
  assumes "execute_prepared_with_validator_media ops pl iv dispatch media prepare w = (r, w', tr)"
  shows "\<exists>s. protocol_run (fst (plan_select (pl_plan pl) iv)) (AtPolicy 0) tr s"
proof -
  obtain body cs s where b: "tr = body @ map Finalized cs"
      "protocol_run (fst (plan_select (pl_plan pl) iv)) (AtPolicy 0) body s"
    using execute_trace [OF assms] by blast
  obtain s' where "protocol_run (fst (plan_select (pl_plan pl) iv)) s (map Finalized cs) s'"
    using protocol_run_finalized by blast
  from protocol_run_append [OF b(2) this] b(1) show ?thesis
    by blast
qed

section \<open>Consequences of the protocol\<close>

lemma protocol_run_split:
  "protocol_run ch s (tr @ tr') s'' \<Longrightarrow> \<exists>s'. protocol_run ch s tr s' \<and> protocol_run ch s' tr' s''"
proof (induction tr arbitrary: s)
  case (Cons e tr)
  then show ?case
    by (fastforce simp: protocol_run_Cons)
qed (auto intro: protocol_run.stop)

fun continued :: "'c event list \<Rightarrow> nat list" where
  "continued [] = []"
| "continued (RequestContinued k # tr) = k # continued tr"
| "continued (_ # tr) = continued tr"

lemma continued_append [simp]: "continued (tr @ tr') = continued tr @ continued tr'"
  by (induction tr rule: continued.induct) auto

fun is_dispatch :: "'c event \<Rightarrow> bool" where
  "is_dispatch (Dispatched _) = True"
| "is_dispatch _ = False"

fun policies_passed :: "stage \<Rightarrow> nat option" where
  "policies_passed (AtPolicy k) = Some k"
| "policies_passed (InPolicy k) = Some k"
| "policies_passed _ = None"

text \<open>At a policy boundary exactly the policies before it have continued, each of them with the
  identity it requires, and nothing has been dispatched.\<close>

definition passed_ok :: "('h, 'c) compiled_chain option \<Rightarrow> 'c event list \<Rightarrow> nat \<Rightarrow> bool" where
  "passed_ok ch tr k \<longleftrightarrow> continued tr = [0..<k] \<and> \<not> list_ex is_dispatch tr
     \<and> list_all (\<lambda>i. \<exists>c. ch = Some c \<and> (rc_requires_verified_identity (snd (ch_request c ! i)) \<longrightarrow>
          RequestCalled i True \<in> set tr)) [0..<k]"

lemma protocol_passed:
  "protocol_run ch (AtPolicy 0) tr s \<Longrightarrow>
   (\<forall>k. s = AtPolicy k \<longrightarrow> passed_ok ch tr k)
   \<and> (\<forall>k. s = InPolicy k \<longrightarrow> passed_ok ch tr k \<and> (\<exists>c. ch = Some c \<and>
        (rc_requires_verified_identity (snd (ch_request c ! k)) \<longrightarrow> RequestCalled k True \<in> set tr)))"
proof (induction tr arbitrary: s rule: rev_induct)
  case Nil
  then show ?case
    by (auto simp: passed_ok_def)
next
  case (snoc e tr)
  obtain s1 where s1: "protocol_run ch (AtPolicy 0) tr s1" "protocol ch s1 e s"
    using protocol_run_split [OF snoc.prems] by (auto simp: protocol_run_Cons)
  from s1(2) snoc.IH [OF s1(1)] show ?case
    by cases (auto simp: passed_ok_def list_all_iff less_Suc_eq)
qed

lemma protocol_no_dispatch_later:
  "protocol_run ch s tr s' \<Longrightarrow> policies_passed s = None \<Longrightarrow> \<not> list_ex is_dispatch tr"
  by (induction rule: protocol_run.induct) (auto elim: protocol.cases)


section \<open>Properties\<close>

text \<open>C13: whatever the handlers, the backend and the hooks do, the events of one execution follow the
  protocol of the selected chain: policies in order and each only after the one before it
  continued, identity present where a policy requires it, at most one terminal call, response
  policies in order, completion callbacks last.\<close>

theorem execute_follows_protocol:
  "\<exists>s. protocol_run (fst (plan_select (pl_plan pl) iv)) (AtPolicy 0)
     (snd (snd (execute_prepared_with_validator_media ops pl iv dispatch media prepare w))) s"
proof -
  obtain r w' tr where ex: "execute_prepared_with_validator_media ops pl iv dispatch media prepare w = (r, w', tr)"
    by (metis prod_cases3)
  from execute_run [OF ex] show ?thesis
    by (simp add: ex)
qed

text \<open>C1: a backend is called at most once per execution, and only after every request policy of the
  selected chain was called and continued; every policy that requires a verified identity was
  called with one before the dispatch.\<close>

theorem dispatch_after_all_policies:
  assumes "execute_prepared_with_validator_media ops pl iv dispatch media prepare w = (r, w', tr)"
    and "tr = before @ Dispatched t # after"
  shows "\<exists>c. fst (plan_select (pl_plan pl) iv) = Some c
    \<and> continued before = [0..<length (ch_request c)]
    \<and> (\<forall>i < length (ch_request c). rc_requires_verified_identity (snd (ch_request c ! i)) \<longrightarrow>
         RequestCalled i True \<in> set before)
    \<and> \<not> list_ex is_dispatch before \<and> \<not> list_ex is_dispatch after"
proof -
  let ?ch = "fst (plan_select (pl_plan pl) iv)"
  obtain s where run: "protocol_run ?ch (AtPolicy 0) (before @ Dispatched t # after) s"
    using execute_run [OF assms(1)] assms(2) by blast
  obtain s1 s2 where s1: "protocol_run ?ch (AtPolicy 0) before s1"
      and d: "protocol ?ch s1 (Dispatched t) s2" and s2: "protocol_run ?ch s2 after s"
    using protocol_run_split [OF run] by (auto simp: protocol_run_Cons)
  from d obtain c where c: "?ch = Some c" "s1 = AtPolicy (length (ch_request c))" "s2 = AtResponse 0"
    by (auto elim: protocol_DispatchedE)
  have "passed_ok ?ch before (length (ch_request c))"
    using protocol_passed [OF s1] c(2) by simp
  moreover have "\<not> list_ex is_dispatch after"
    using protocol_no_dispatch_later [OF s2] c(3) by simp
  ultimately show ?thesis
    using c(1) by (auto simp: passed_ok_def list_all_iff)
qed


text \<open>C33: an exchange that is aborted is completed exactly once.  Dropping the guard of an unfinished
  exchange cancels its token, records the timeout and runs each callback once, the local ones
  before the pipeline's in reverse order; dropping a finished one, and finalizing again, runs none.\<close>

theorem abort_finalizes_once:
  "case guard_drop ops g w of (g', w', cs) \<Rightarrow>
     cg_finalized g' \<and> snd (guard_finalize g') = [] \<and> guard_drop ops g' w' = (g', w', [])
     \<and> (if cg_finalized g then g' = g \<and> w' = w \<and> cs = []
        else cs = local_callbacks (cg_state g) @ rev (cg_callbacks g)
           \<and> cg_response g' = status_response ops timeout
           \<and> ai_status (es_audit (cg_state g')) = Some timeout
           \<and> mr_finalized (es_metrics (cg_state g'))
           \<and> is_cancelled (inv_cancel (cg_inv g)) w')"
  by (auto simp: guard_drop_def guard_finalize_def set_audit_status_def local_callbacks_def
      end_validator_media_transaction_def is_cancelled_def cancel_token_def Let_def
      split: prod.split option.split)

fun runs_request :: "'c event \<Rightarrow> bool" where
  "runs_request (RequestCalled _ _) = True"
| "runs_request (RequestContinued _) = True"
| "runs_request LocalCalled = True"
| "runs_request (Dispatched _) = True"
| "runs_request _ = False"

lemma request_phase_expired:
  assumes "is_cancelled tok (rn_world rn) \<or> dl \<le> w_now (rn_world rn)"
  shows "request_phase ch dispatch dl tok rn = (Err timeout, rn)"
  using assms by (auto simp: request_phase_def budget_def)

lemma run_responses_events:
  "run_responses dl iv k hs st cand w tr = (res, st', cand', w', tr') \<Longrightarrow>
   list_ex runs_request tr' = list_ex runs_request tr"
  by (induction dl iv k hs st cand w tr rule: run_responses.induct)
    (auto simp: Let_def split: if_split_asm prod.split_asm call.split_asm sum.split_asm)

lemma response_phase_events:
  "response_phase ops c dl g w tr = (g', w', tr') \<Longrightarrow> list_ex runs_request tr' = list_ex runs_request tr"
  by (auto simp: response_phase_def Let_def dest: run_responses_events
           split: if_split_asm prod.split_asm sum.split_asm)

text \<open>an invocation that is cancelled, or whose deadline has passed, when the pipeline receives it
  reaches no request policy, no local terminal and no backend; only response policies and
  completion callbacks run.\<close>

theorem expired_request_runs_nothing:
  assumes "is_cancelled (inv_cancel iv) w \<or> inv_deadline iv \<le> w_now w"
  shows "\<not> list_ex runs_request
    (snd (snd (execute_prepared_with_validator_media ops pl iv dispatch media prepare w)))"
  using assms
  by (auto simp: execute_prepared_with_validator_media_def Let_def request_phase_expired list_ex_iff
      guard_new_with_validator_media_def
      dest!: response_phase_events split: prod.splits option.splits)

section \<open>An example\<close>

text \<open>A chain with an authenticating policy, a policy that requires the identity and a dispatch whose
  target the second policy selects.\<close>

definition example_ops :: "unit http_ops" where
  "example_ops = \<lparr>ho_json_string = id, ho_json_text = (\<lambda>_. []), ho_empty = (), ho_insert = (\<lambda>_ _ _. ()),
     ho_entries = (\<lambda>_. []), ho_append = (\<lambda>_ _. ()), ho_status_ok = (\<lambda>_. True)\<rparr>"

definition example_invocation :: "nat \<Rightarrow> unit invocation" where
  "example_invocation deadline = \<lparr>inv_method = ''GET'', inv_raw_path = ''/a'', inv_path = ''/a'', inv_raw_query = None,
     inv_query = [], inv_headers = (), inv_body = None, inv_body_was_base64 = False,
     inv_source = \<lparr>sm_source_ip = None, sm_ingress_kind = ''http''\<rparr>,
     inv_request_id = ''r'', inv_deadline = deadline, inv_response_deadline = 20, inv_cancel = 0,
     inv_path_params = [], inv_route = None, inv_original = JNull\<rparr>"

definition example_handler :: "handler_id \<Rightarrow> ((unit, nat) exchange_state \<Rightarrow> (unit, nat) exchange_state) \<Rightarrow>
    (unit, nat) request_handler" where
  "example_handler hid f =
     \<lparr>rq_id = hid, rq_is_disabled_audit = False, rq_role_for_selection = (\<lambda>_. NoRole),
      rq_metrics_fallback_routes = None, rq_prepare_completion = (\<lambda>_. None),
      rq_on_request = (\<lambda>iv st w. (Returned (Ok Continue), iv, f st, w))\<rparr>"

definition example_chain :: "(unit, nat) compiled_chain" where
  "example_chain = \<lparr>ch_request =
       [(example_handler Jwt (\<lambda>st. st\<lparr>es_principal := Some
           \<lparr>vp_principal_id = ''p'', vp_client_id = None, vp_user_id = None, vp_claims = JNull\<rparr>\<rparr>),
         \<lparr>rc_establishes_verified_identity = True, rc_requires_verified_identity = False\<rparr>),
        (example_handler Limit (select_http_target ''svc''),
         \<lparr>rc_establishes_verified_identity = False, rc_requires_verified_identity = True\<rparr>)],
     ch_terminal = Dispatch [], ch_response = [], ch_ids = [Jwt, Limit, Proxy],
     ch_media_roles = [Preserves, Preserves]\<rparr>"

definition example_pipeline :: "(unit, nat) pipeline" where
  "example_pipeline = \<lparr>pl_plan = \<lparr>ep_paths = [], ep_default = Some example_chain,
     ep_audit = \<lparr>ac_audit_on_error = False, ac_audit_stack_trace = False\<rparr>, ep_base_path = None\<rparr>,
     pl_finalizers = [7, 8]\<rparr>"

definition example_run :: "nat \<Rightarrow> unit gateway_response \<times> world \<times> nat event list" where
  "example_run deadline = execute_prepared_with_validator_media example_ops example_pipeline
     (example_invocation deadline)
     (\<lambda>iv st t w. (Returned (Ok \<lparr>gr_status = 200, gr_headers = (), gr_body = None, gr_body_is_binary = False\<rparr>), w))
     MediaUnknown (\<lambda>r. Some (Ok r)) \<lparr>w_now = 1, w_cancelled = [], w_next_token = 1\<rparr>"

lemma example_run_trace:
  "snd (snd (example_run 10)) = [RequestCalled 0 False, RequestContinued 0, RequestCalled 1 True,
     RequestContinued 1, Dispatched (HttpService ''svc''), Finalized 8, Finalized 7]"
  by code_simp

theorem dispatch_after_all_policies_witness:
  "fst (plan_select (pl_plan example_pipeline) (example_invocation 10)) = Some example_chain
   \<and> continued [RequestCalled 0 False, RequestContinued 0, RequestCalled 1 True, RequestContinued 1 :: nat event]
       = [0..<length (ch_request example_chain)]
   \<and> snd (snd (example_run 10)) = [RequestCalled 0 False, RequestContinued 0, RequestCalled 1 True,
     RequestContinued 1] @ Dispatched (HttpService ''svc'') # [Finalized 8, Finalized 7]"
proof -
  obtain r w' tr where ex: "example_run 10 = (r, w', tr)"
    by (metis prod_cases3)
  have tr: "tr = [RequestCalled 0 False, RequestContinued 0, RequestCalled 1 True,
     RequestContinued 1] @ Dispatched (HttpService ''svc'') # [Finalized 8, Finalized 7]"
    using example_run_trace by (simp add: ex)
  have sel: "fst (plan_select (pl_plan example_pipeline) (example_invocation 10)) = Some example_chain"
    by (simp add: plan_select_def example_pipeline_def select_route_def)
  from dispatch_after_all_policies [OF ex [unfolded example_run_def] tr] show ?thesis
    by (simp add: sel ex tr)
qed

theorem expired_request_runs_nothing_witness:
  "inv_deadline (example_invocation 1) \<le> 1 \<and> \<not> list_ex runs_request (snd (snd (example_run 1)))"
  using expired_request_runs_nothing [of "example_invocation 1" "\<lparr>w_now = 1, w_cancelled = [], w_next_token = 1\<rparr>"]
  by (simp add: example_run_def example_invocation_def)

end
