(* ===== verification/Runner_Journal.thy ===== *)
theory Runner_Journal
  imports Rust_Strings
begin

text \<open>
  The durable journal of the workflow runner, \<open>apps/light-workflow-runner/src/journal.rs\<close>.  The
  SQLite tables are lists of their rows in the order of insertion, each statement of the source
  is the list operation its text denotes, and a transaction that returns early leaves the tables
  unchanged.  The \<open>updated_at\<close> and \<open>created_at\<close> columns, which no statement reads, are left out.
  The \<open>checkpointed\<close> argument of an operation is whether its final WAL checkpoint succeeds; other
  I/O errors of SQLite are not modelled.  The JSON and RFC 3339 codecs are arguments.
\<close>

section \<open>Rows and records\<close>

datatype journal_state =
  IntentRecorded | Preparing | Prepared | Executing | TerminalPending | TerminalReported
  | CleanupRequired | CleanupConfirmed | UnknownState

definition journal_state_as_str :: "journal_state \<Rightarrow> string" where
  "journal_state_as_str s =
     (case s of
        IntentRecorded \<Rightarrow> ''INTENT_RECORDED''
      | Preparing \<Rightarrow> ''PREPARING''
      | Prepared \<Rightarrow> ''PREPARED''
      | Executing \<Rightarrow> ''EXECUTING''
      | TerminalPending \<Rightarrow> ''TERMINAL_PENDING''
      | TerminalReported \<Rightarrow> ''TERMINAL_REPORTED''
      | CleanupRequired \<Rightarrow> ''CLEANUP_REQUIRED''
      | CleanupConfirmed \<Rightarrow> ''CLEANUP_CONFIRMED''
      | UnknownState \<Rightarrow> ''UNKNOWN'')"

definition journal_state_parse :: "string \<Rightarrow> (string, journal_state) result" where
  "journal_state_parse v =
     (if v = ''INTENT_RECORDED'' then Ok IntentRecorded
      else if v = ''PREPARING'' then Ok Preparing
      else if v = ''PREPARED'' then Ok Prepared
      else if v = ''EXECUTING'' then Ok Executing
      else if v = ''TERMINAL_PENDING'' then Ok TerminalPending
      else if v = ''TERMINAL_REPORTED'' then Ok TerminalReported
      else if v = ''CLEANUP_REQUIRED'' then Ok CleanupRequired
      else if v = ''CLEANUP_CONFIRMED'' then Ok CleanupConfirmed
      else if v = ''UNKNOWN'' then Ok UnknownState
      else Err (''unknown journal state '' @ v))"

text \<open>Of the protocol messages the journal reads some fields and stores the others inside the encoded
  message: the others of a lease, a terminal result and an event are \<open>lc_rest\<close>, \<open>tl_result\<close> and
  \<open>re_payload\<close>, and the parts of \<open>ExecuteLease\<close> that \<open>record_intent\<close> does not use are left out.  A
  fencing token and a sequence are of type \<open>u64\<close>.\<close>

record 'l lease_context =
  lc_execution_id :: string
  lc_lease_id :: string
  lc_fencing_token :: nat
  lc_policy_digest :: string
  lc_compatibility_digest :: string
  lc_deadline :: string
  lc_rest :: 'l

record 'l execute_lease =
  xl_lease :: "'l lease_context"
  xl_definition_digest :: string
  xl_command_template_digest :: string

record ('l, 'r) terminal_lease_result =
  tl_lease :: "'l lease_context"
  tl_result :: 'r

record broker_response =
  bs_request_id :: string
  bs_status :: nat
  bs_body_base64 :: string
  bs_consumed_requests :: nat
  bs_consumed_tokens :: nat
  bs_consumed_cost_micros :: nat

record 'p runtime_event =
  re_event_id :: string
  re_execution_id :: string
  re_fencing_token :: nat
  re_sequence :: nat
  re_payload :: 'p

datatype broker_request_disposition = NewRequest | Replay broker_response | UnknownRequest

record execution_row =
  er_execution_id :: string
  er_lease_id :: string
  er_fencing_token :: int
  er_deadline :: string
  er_state :: string
  er_backend_operation_id :: "string option"
  er_policy_digest :: string
  er_compatibility_digest :: string
  er_definition_digest :: string
  er_command_template_digest :: string
  er_lease_context :: string
  er_terminal_result :: "string option"

record broker_row =
  br_execution_id :: string
  br_request_id :: string
  br_fencing_token :: int
  br_request_digest :: string
  br_operation :: string
  br_target :: string
  br_state :: string
  br_charged_tokens :: int
  br_charged_cost_micros :: int
  br_response_json :: "string option"

record event_row =
  ev_execution_id :: string
  ev_event_id :: string
  ev_sequence :: int
  ev_fencing_token :: int
  ev_event_json :: string

record native_row =
  nr_execution_id :: string
  nr_lease_id :: string
  nr_fencing_token :: int
  nr_identity_json :: string

record fence_row =
  fr_execution_id :: string
  fr_evidence :: string
  fr_confirmed :: bool

text \<open>The last two tables are created when they are first needed.\<close>

record journal =
  jn_executions :: "execution_row list"
  jn_broker :: "broker_row list"
  jn_events :: "event_row list"
  jn_native :: "native_row list option"
  jn_fences :: "fence_row list option"

definition journal_empty :: journal where
  "journal_empty = \<lparr>jn_executions = [], jn_broker = [], jn_events = [], jn_native = None, jn_fences = None\<rparr>"

record ('l, 'r, 'p, 'i, 'v) codecs =
  cd_lease :: "'l lease_context \<Rightarrow> string option"
  cd_lease_of :: "string \<Rightarrow> 'l lease_context option"
  cd_terminal :: "('l, 'r) terminal_lease_result \<Rightarrow> string option"
  cd_terminal_of :: "string \<Rightarrow> ('l, 'r) terminal_lease_result option"
  cd_response :: "broker_response \<Rightarrow> string option"
  cd_response_of :: "string \<Rightarrow> broker_response option"
  cd_event :: "'p runtime_event \<Rightarrow> string option"
  cd_event_of :: "string \<Rightarrow> 'p runtime_event option"
  cd_identity :: "'i \<Rightarrow> string option"
  cd_identity_of :: "string \<Rightarrow> 'i option"
  cd_evidence :: "'v \<Rightarrow> string option"
  cd_evidence_of :: "string \<Rightarrow> 'v option"
  cd_deadline_ok :: "string \<Rightarrow> bool"

text \<open>\<open>u64 as i64\<close>, \<open>i64::try_from(u64)\<close>, \<open>u64::try_from(i64)\<close> and SQLite's integer \<open>SUM\<close> of charges.\<close>

definition i64_max :: int where
  "i64_max = 2 ^ 63 - 1"

definition as_i64 :: "nat \<Rightarrow> int" where
  "as_i64 n = (if int n \<le> i64_max then int n else int n - 2 ^ 64)"

definition i64_try_from :: "nat \<Rightarrow> int option" where
  "i64_try_from n = (if int n \<le> i64_max then Some (int n) else None)"

definition u64_try_from :: "int \<Rightarrow> nat option" where
  "u64_try_from i = (if 0 \<le> i then Some (nat i) else None)"

definition u64_or_max :: "int \<Rightarrow> nat" where
  "u64_or_max i = (case u64_try_from i of Some n \<Rightarrow> n | None \<Rightarrow> u64_max)"

definition sql_sum :: "int list \<Rightarrow> int option" where
  "sql_sum xs = (if sum_list xs \<le> i64_max then Some (sum_list xs) else None)"

definition sql_update :: "('r \<Rightarrow> bool) \<Rightarrow> ('r \<Rightarrow> 'r) \<Rightarrow> 'r list \<Rightarrow> 'r list \<times> nat" where
  "sql_update P f rows = (map (\<lambda>r. if P r then f r else r) rows, length (filter P rows))"

definition checkpoint :: "bool \<Rightarrow> string \<Rightarrow> 'a \<Rightarrow> (string, 'a) result" where
  "checkpoint checkpointed what v = (if checkpointed then Ok v else Err what)"

section \<open>Broker requests\<close>

definition find_execution :: "string \<Rightarrow> journal \<Rightarrow> execution_row option" where
  "find_execution eid j = find (\<lambda>r. er_execution_id r = eid) (jn_executions j)"

definition execution_fence :: "string \<Rightarrow> journal \<Rightarrow> int option" where
  "execution_fence eid j = map_option er_fencing_token (find_execution eid j)"

definition is_request :: "string \<Rightarrow> string \<Rightarrow> broker_row \<Rightarrow> bool" where
  "is_request eid rid r \<longleftrightarrow> br_execution_id r = eid \<and> br_request_id r = rid"

definition in_flight :: "string \<Rightarrow> string \<Rightarrow> broker_row \<Rightarrow> bool" where
  "in_flight eid rid r \<longleftrightarrow> is_request eid rid r \<and> br_state r = ''IN_FLIGHT''"

definition charges_of :: "string \<Rightarrow> journal \<Rightarrow> broker_row list" where
  "charges_of eid j = filter (\<lambda>r. br_execution_id r = eid) (jn_broker j)"

definition usage_of :: "string \<Rightarrow> journal \<Rightarrow> (int \<times> int \<times> int) option" where
  "usage_of eid j =
     (case (sql_sum (map br_charged_tokens (charges_of eid j)),
            sql_sum (map br_charged_cost_micros (charges_of eid j))) of
        (Some tokens, Some cost) \<Rightarrow> Some (int (length (charges_of eid j)), tokens, cost)
      | _ \<Rightarrow> None)"

record broker_request =
  bq_execution_id :: string
  bq_fencing_token :: nat
  bq_request_id :: string
  bq_request_digest :: string
  bq_operation :: string
  bq_target :: string
  bq_charged_tokens :: nat
  bq_charged_cost_micros :: nat

record broker_limits =
  bl_maximum_requests :: nat
  bl_maximum_tokens :: nat
  bl_maximum_cost_micros :: nat

definition known_request :: "('l, 'r, 'p, 'i, 'v) codecs \<Rightarrow> broker_request \<Rightarrow> broker_row \<Rightarrow> journal \<Rightarrow>
    (string, broker_request_disposition) result \<times> journal" where
  "known_request cd q row j =
     (if br_request_digest row \<noteq> bq_request_digest q
      then (Err ''broker request ID was reused with different content'', j)
      else if br_state row = ''COMPLETED''
      then (rtry (ok_or ''completed broker request lacks response'' (br_response_json row)) (\<lambda>text.
            rtry (ok_or ''decode durable broker response'' (cd_response_of cd text)) (\<lambda>r. Ok (Replay r))), j)
      else if br_state row = ''IN_FLIGHT''
      then (Ok UnknownRequest,
            j\<lparr>jn_broker := fst (sql_update (in_flight (bq_execution_id q) (bq_request_id q))
                 (\<lambda>r. r\<lparr>br_state := ''UNKNOWN''\<rparr>) (jn_broker j))\<rparr>)
      else if br_state row = ''UNKNOWN'' then (Ok UnknownRequest, j)
      else (Err (''unknown broker journal state '' @ br_state row), j))"

definition over_budget :: "broker_request \<Rightarrow> broker_limits \<Rightarrow> int \<times> int \<times> int \<Rightarrow> bool" where
  "over_budget q lim usage =
     (case usage of (requests, tokens, cost) \<Rightarrow>
        u64_or_max requests \<ge> bl_maximum_requests lim
        \<or> sat_add (u64_or_max tokens) (bq_charged_tokens q) > bl_maximum_tokens lim
        \<or> sat_add (u64_or_max cost) (bq_charged_cost_micros q) > bl_maximum_cost_micros lim)"

definition new_request :: "broker_request \<Rightarrow> broker_limits \<Rightarrow> journal \<Rightarrow>
    (string, broker_request_disposition) result \<times> journal" where
  "new_request q lim j =
     (case usage_of (bq_execution_id q) j of
        None \<Rightarrow> (Err ''read broker budget usage: integer overflow'', j)
      | Some usage \<Rightarrow>
          if over_budget q lim usage then (Err ''broker budget exceeded'', j)
          else case i64_try_from (bq_charged_tokens q) of
            None \<Rightarrow> (Err ''broker token charge exceeds SQLite integer'', j)
          | Some tokens \<Rightarrow>
              (case i64_try_from (bq_charged_cost_micros q) of
                 None \<Rightarrow> (Err ''broker cost charge exceeds SQLite integer'', j)
               | Some cost \<Rightarrow>
                   (Ok NewRequest,
                    j\<lparr>jn_broker := jn_broker j @
                       [\<lparr>br_execution_id = bq_execution_id q, br_request_id = bq_request_id q,
                         br_fencing_token = as_i64 (bq_fencing_token q),
                         br_request_digest = bq_request_digest q, br_operation = bq_operation q,
                         br_target = bq_target q, br_state = ''IN_FLIGHT'', br_charged_tokens = tokens,
                         br_charged_cost_micros = cost, br_response_json = None\<rparr>]\<rparr>)))"

definition begin_broker_request :: "('l, 'r, 'p, 'i, 'v) codecs \<Rightarrow> bool \<Rightarrow> broker_request \<Rightarrow> broker_limits \<Rightarrow> journal \<Rightarrow>
    (string, broker_request_disposition) result \<times> journal" where
  "begin_broker_request cd checkpointed q lim j =
     (if execution_fence (bq_execution_id q) j \<noteq> Some (as_i64 (bq_fencing_token q))
      then (Err ''broker request did not match the durable execution fence'', j)
      else case (case find (is_request (bq_execution_id q) (bq_request_id q)) (jn_broker j) of
                   Some row \<Rightarrow> known_request cd q row j
                 | None \<Rightarrow> new_request q lim j) of
        (Inl e, _) \<Rightarrow> (Err e, j)
      | (Inr d, j') \<Rightarrow> (checkpoint checkpointed ''checkpoint broker request intent'' d, j'))"

definition complete_broker_request :: "('l, 'r, 'p, 'i, 'v) codecs \<Rightarrow> bool \<Rightarrow> string \<Rightarrow> string \<Rightarrow> broker_response \<Rightarrow> journal \<Rightarrow>
    (string, unit) result \<times> journal" where
  "complete_broker_request cd checkpointed eid rid response j =
     (case cd_response cd response of
        None \<Rightarrow> (Err ''serialize broker response'', j)
      | Some text \<Rightarrow>
          (case sql_update (in_flight eid rid)
                  (\<lambda>r. r\<lparr>br_state := ''COMPLETED'', br_response_json := Some text\<rparr>) (jn_broker j) of
             (rows, changed) \<Rightarrow>
               (let j = j\<lparr>jn_broker := rows\<rparr>
                in if changed \<noteq> 1 then (Err ''broker request was no longer durably in flight'', j)
                   else (checkpoint checkpointed ''checkpoint broker response'' (), j))))"

definition complete_broker_request_redacted :: "('l, 'r, 'p, 'i, 'v) codecs \<Rightarrow> bool \<Rightarrow> string \<Rightarrow> string \<Rightarrow>
    broker_response \<Rightarrow> journal \<Rightarrow> (string, unit) result \<times> journal" where
  "complete_broker_request_redacted cd checkpointed eid rid response j =
     complete_broker_request cd checkpointed eid rid (response\<lparr>bs_body_base64 := []\<rparr>) j"

definition mark_broker_request_unknown :: "bool \<Rightarrow> string \<Rightarrow> string \<Rightarrow> journal \<Rightarrow> (string, unit) result \<times> journal" where
  "mark_broker_request_unknown checkpointed eid rid j =
     (checkpoint checkpointed ''checkpoint unknown broker request'' (),
      j\<lparr>jn_broker := fst (sql_update (in_flight eid rid) (\<lambda>r. r\<lparr>br_state := ''UNKNOWN''\<rparr>) (jn_broker j))\<rparr>)"

definition broker_usage :: "string \<Rightarrow> journal \<Rightarrow> (string, nat \<times> nat \<times> nat) result" where
  "broker_usage eid j =
     rtry (ok_or ''read durable broker usage: integer overflow'' (usage_of eid j)) (\<lambda>(requests, tokens, cost).
     rtry (if requests < 2 ^ 32 then Ok (nat requests) else Err ''broker request count overflow'') (\<lambda>r.
     rtry (ok_or ''broker token usage is negative'' (u64_try_from tokens)) (\<lambda>t.
     rtry (ok_or ''broker cost usage is negative'' (u64_try_from cost)) (\<lambda>c. Ok (r, t, c)))))"

section \<open>Runtime events\<close>

definition record_runtime_event :: "('l, 'r, 'p, 'i, 'v) codecs \<Rightarrow> 'p runtime_event \<Rightarrow> journal \<Rightarrow>
    (string, bool) result \<times> journal" where
  "record_runtime_event cd e j =
     (if execution_fence (re_execution_id e) j \<noteq> Some (as_i64 (re_fencing_token e))
      then (Err ''runtime event did not match the journal fence'', j)
      else case cd_event cd e of
        None \<Rightarrow> (Err ''serialize runtime event'', j)
      | Some text \<Rightarrow>
          if list_ex (\<lambda>r. ev_execution_id r = re_execution_id e \<and> ev_event_id r = re_event_id e) (jn_events j)
          then (Ok False, j)
          else if list_ex (\<lambda>r. ev_execution_id r = re_execution_id e \<and> ev_sequence r = as_i64 (re_sequence e)) (jn_events j)
          then (Err ''record runtime event: UNIQUE constraint failed'', j)
          else (Ok True,
                j\<lparr>jn_events := jn_events j @
                   [\<lparr>ev_execution_id = re_execution_id e, ev_event_id = re_event_id e,
                     ev_sequence = as_i64 (re_sequence e), ev_fencing_token = as_i64 (re_fencing_token e),
                     ev_event_json = text\<rparr>]\<rparr>))"

definition runtime_events_after :: "('l, 'r, 'p, 'i, 'v) codecs \<Rightarrow> string \<Rightarrow> nat \<Rightarrow> journal \<Rightarrow>
    (string, 'p runtime_event list) result" where
  "runtime_events_after cd eid sequence j =
     try_map (\<lambda>r. ok_or ''decode runtime event replay'' (cd_event_of cd (ev_event_json r)))
       (sort_key ev_sequence
         (filter (\<lambda>r. ev_execution_id r = eid \<and> as_i64 sequence < ev_sequence r) (jn_events j)))"

section \<open>Executions\<close>

definition record_intent :: "('l, 'r, 'p, 'i, 'v) codecs \<Rightarrow> bool \<Rightarrow> 'l execute_lease \<Rightarrow> journal \<Rightarrow>
    (string, bool) result \<times> journal" where
  "record_intent cd checkpointed xl j =
     (let lease = xl_lease xl
      in case find_execution (lc_execution_id lease) j of
           Some row \<Rightarrow>
             (if er_lease_id row = lc_lease_id lease \<and> er_fencing_token row = as_i64 (lc_fencing_token lease)
              then Ok False
              else Err ''execution ID was redelivered with a different lease or fence'', j)
         | None \<Rightarrow>
             (case cd_lease cd lease of
                None \<Rightarrow> (Err ''serialize journal lease context'', j)
              | Some text \<Rightarrow>
                  (checkpoint checkpointed ''checkpoint journal intent'' True,
                   j\<lparr>jn_executions := jn_executions j @
                      [\<lparr>er_execution_id = lc_execution_id lease, er_lease_id = lc_lease_id lease,
                        er_fencing_token = as_i64 (lc_fencing_token lease), er_deadline = lc_deadline lease,
                        er_state = journal_state_as_str IntentRecorded, er_backend_operation_id = None,
                        er_policy_digest = lc_policy_digest lease,
                        er_compatibility_digest = lc_compatibility_digest lease,
                        er_definition_digest = xl_definition_digest xl,
                        er_command_template_digest = xl_command_template_digest xl,
                        er_lease_context = text, er_terminal_result = None\<rparr>]\<rparr>)))"

definition set_state :: "bool \<Rightarrow> string \<Rightarrow> journal_state \<Rightarrow> string option \<Rightarrow> journal \<Rightarrow>
    (string, unit) result \<times> journal" where
  "set_state checkpointed eid state backend_operation_id j =
     (case sql_update (\<lambda>r. er_execution_id r = eid)
             (\<lambda>r. r\<lparr>er_state := journal_state_as_str state,
                    er_backend_operation_id :=
                      (case backend_operation_id of Some b \<Rightarrow> Some b | None \<Rightarrow> er_backend_operation_id r),
                    er_terminal_result :=
                      (if journal_state_as_str state = ''TERMINAL_REPORTED'' then None
                       else er_terminal_result r)\<rparr>) (jn_executions j) of
        (rows, updated) \<Rightarrow>
          (let j = j\<lparr>jn_executions := rows\<rparr>
           in if updated \<noteq> 1 then (Err (''journal execution '' @ eid @ '' was not found''), j)
              else (checkpoint checkpointed ''checkpoint journal state'' (), j)))"

definition set_terminal :: "('l, 'r, 'p, 'i, 'v) codecs \<Rightarrow> bool \<Rightarrow> ('l, 'r) terminal_lease_result \<Rightarrow> journal \<Rightarrow>
    (string, unit) result \<times> journal" where
  "set_terminal cd checkpointed terminal j =
     (case cd_terminal cd terminal of
        None \<Rightarrow> (Err ''serialize terminal result'', j)
      | Some text \<Rightarrow>
          (case sql_update (\<lambda>r. er_execution_id r = lc_execution_id (tl_lease terminal)
                    \<and> er_lease_id r = lc_lease_id (tl_lease terminal)
                    \<and> er_fencing_token r = as_i64 (lc_fencing_token (tl_lease terminal)))
                  (\<lambda>r. r\<lparr>er_state := journal_state_as_str TerminalPending, er_terminal_result := Some text\<rparr>)
                  (jn_executions j) of
             (rows, updated) \<Rightarrow>
               (let j = j\<lparr>jn_executions := rows\<rparr>
                in if updated \<noteq> 1 then (Err ''terminal result did not match the journal lease fence'', j)
                   else (checkpoint checkpointed ''checkpoint terminal result'' (), j))))"

record ('l, 'r) journal_record =
  jr_execution_id :: string
  jr_lease_id :: string
  jr_fencing_token :: nat
  jr_deadline :: string
  jr_state :: journal_state
  jr_backend_operation_id :: "string option"
  jr_policy_digest :: string
  jr_compatibility_digest :: string
  jr_definition_digest :: string
  jr_command_template_digest :: string
  jr_lease_context :: "'l lease_context"
  jr_terminal_result :: "('l, 'r) terminal_lease_result option"

text \<open>The identifiers are the text of the UUIDs the program wrote, which parse.\<close>

definition row_to_record :: "('l, 'r, 'p, 'i, 'v) codecs \<Rightarrow> execution_row \<Rightarrow>
    (string, ('l, 'r) journal_record) result" where
  "row_to_record cd row =
     rtry (ok_or ''fencing_token'' (u64_try_from (er_fencing_token row))) (\<lambda>fencing_token.
     rtry (if cd_deadline_ok cd (er_deadline row) then Ok (er_deadline row) else Err ''deadline'') (\<lambda>deadline.
     rtry (journal_state_parse (er_state row)) (\<lambda>state.
     rtry (ok_or ''lease_context'' (cd_lease_of cd (er_lease_context row))) (\<lambda>lease.
     rtry (case er_terminal_result row of
             None \<Rightarrow> Ok None
           | Some text \<Rightarrow> rtry (ok_or ''terminal_result'' (cd_terminal_of cd text)) (\<lambda>t. Ok (Some t))) (\<lambda>terminal.
       Ok \<lparr>jr_execution_id = er_execution_id row, jr_lease_id = er_lease_id row,
           jr_fencing_token = fencing_token, jr_deadline = deadline, jr_state = state,
           jr_backend_operation_id = er_backend_operation_id row,
           jr_policy_digest = er_policy_digest row,
           jr_compatibility_digest = er_compatibility_digest row,
           jr_definition_digest = er_definition_digest row,
           jr_command_template_digest = er_command_template_digest row,
           jr_lease_context = lease, jr_terminal_result = terminal\<rparr>)))))"

definition journal_find :: "('l, 'r, 'p, 'i, 'v) codecs \<Rightarrow> string \<Rightarrow> journal \<Rightarrow>
    (string, ('l, 'r) journal_record option) result" where
  "journal_find cd eid j =
     (case find_execution eid j of
        None \<Rightarrow> Ok None
      | Some row \<Rightarrow> rtry (row_to_record cd row) (\<lambda>r. Ok (Some r)))"

text \<open>\<open>ORDER BY deadline, execution_id\<close> as two stable sorts.\<close>

definition unfinished :: "('l, 'r, 'p, 'i, 'v) codecs \<Rightarrow> journal \<Rightarrow> (string, ('l, 'r) journal_record list) result" where
  "unfinished cd j =
     try_map (row_to_record cd)
       (sort_key er_deadline (sort_key er_execution_id
         (filter (\<lambda>r. er_state r \<noteq> ''CLEANUP_CONFIRMED'') (jn_executions j))))"

definition cleanup_backlog :: "journal \<Rightarrow> (string, nat) result" where
  "cleanup_backlog j =
     (let count = length (filter (\<lambda>r. er_state r \<in> set [''CLEANUP_REQUIRED'', ''TERMINAL_PENDING'',
                    ''TERMINAL_REPORTED'', ''UNKNOWN'']) (jn_executions j))
      in if count < 2 ^ 32 then Ok count else Err ''cleanup backlog exceeds u32'')"

definition state_counts :: "journal \<Rightarrow> (string \<times> nat) list" where
  "state_counts j =
     map (\<lambda>s. (s, length (filter (\<lambda>r. er_state r = s) (jn_executions j))))
       (sort (remdups (map er_state (jn_executions j))))"

section \<open>Native process identities\<close>

definition native_process_identity :: "('l, 'r, 'p, 'i, 'v) codecs \<Rightarrow> 'l lease_context \<Rightarrow> journal \<Rightarrow>
    (string, 'i option) result" where
  "native_process_identity cd lease j =
     (case jn_native j of
        None \<Rightarrow> Ok None
      | Some rows \<Rightarrow>
          (case find (\<lambda>r. nr_execution_id r = lc_execution_id lease) rows of
             None \<Rightarrow> Ok None
           | Some row \<Rightarrow>
               if nr_lease_id row \<noteq> lc_lease_id lease
                  \<or> nr_fencing_token row \<noteq> as_i64 (lc_fencing_token lease)
               then Err ''native process identity lease fence mismatch''
               else rtry (ok_or ''invalid stored native identity'' (cd_identity_of cd (nr_identity_json row)))
                      (\<lambda>i. Ok (Some i))))"

definition native_matches :: "'l lease_context \<Rightarrow> native_row \<Rightarrow> bool" where
  "native_matches lease r \<longleftrightarrow> nr_execution_id r = lc_execution_id lease \<and> nr_lease_id r = lc_lease_id lease
     \<and> nr_fencing_token r = as_i64 (lc_fencing_token lease)"

definition record_native_process :: "('l, 'r, 'p, 'i, 'v) codecs \<Rightarrow> 'l lease_context \<Rightarrow> 'i \<Rightarrow> journal \<Rightarrow>
    (string, unit) result \<times> journal" where
  "record_native_process cd lease identity j =
     (let rows = (case jn_native j of None \<Rightarrow> [] | Some rows \<Rightarrow> rows);
          j = j\<lparr>jn_native := Some rows\<rparr>
      in case cd_identity cd identity of
           None \<Rightarrow> (Err ''encode native identity'', j)
         | Some encoded \<Rightarrow>
             if \<not> list_ex (\<lambda>r. er_execution_id r = lc_execution_id lease \<and> er_lease_id r = lc_lease_id lease
                    \<and> er_fencing_token r = as_i64 (lc_fencing_token lease)) (jn_executions j)
             then (Err ''native identity does not match journal fence'', j)
             else let rows = (if list_ex (\<lambda>r. nr_execution_id r = lc_execution_id lease) rows then rows
                              else rows @ [\<lparr>nr_execution_id = lc_execution_id lease, nr_lease_id = lc_lease_id lease,
                                     nr_fencing_token = as_i64 (lc_fencing_token lease),
                                     nr_identity_json = encoded\<rparr>]);
                      j = j\<lparr>jn_native := Some rows\<rparr>
                  in case find (native_matches lease) rows of
                       None \<Rightarrow> (Err ''read native identity fence'', j)
                     | Some row \<Rightarrow>
                         if nr_identity_json row \<noteq> encoded
                         then (Err ''native execution already has another process identity'', j)
                         else (Ok (), j))"

section \<open>Operator fences\<close>

text \<open>The execution an evidence names is given beside it.  The table refers to the executions, so an
  intent for an unknown execution is refused by the foreign key.\<close>

definition operator_fence_intent :: "('l, 'r, 'p, 'i, 'v) codecs \<Rightarrow> string \<Rightarrow> 'v \<Rightarrow> journal \<Rightarrow>
    (string, unit) result \<times> journal" where
  "operator_fence_intent cd eid evidence j =
     (let rows = (case jn_fences j of None \<Rightarrow> [] | Some rows \<Rightarrow> rows);
          j = j\<lparr>jn_fences := Some rows\<rparr>
      in case cd_evidence cd evidence of
           None \<Rightarrow> (Err ''encode operator fence'', j)
         | Some encoded \<Rightarrow>
             (case find (\<lambda>r. fr_execution_id r = eid) rows of
                None \<Rightarrow>
                  if find_execution eid j = None then (Err ''record operator fence intent'', j)
                  else (Ok (), j\<lparr>jn_fences := Some (rows @
                         [\<lparr>fr_execution_id = eid, fr_evidence = encoded, fr_confirmed = False\<rparr>])\<rparr>)
              | Some row \<Rightarrow>
                  if fr_evidence row \<noteq> encoded
                  then (Err ''operator fence intent changed; inspect previous intent'', j)
                  else (Ok (), j)))"

text \<open>Without the table the update is an SQL error.\<close>

definition operator_fence_confirm :: "('l, 'r, 'p, 'i, 'v) codecs \<Rightarrow> string \<Rightarrow> 'v \<Rightarrow> journal \<Rightarrow>
    (string, unit) result \<times> journal" where
  "operator_fence_confirm cd eid evidence j =
     (case cd_evidence cd evidence of
        None \<Rightarrow> (Err ''encode operator fence'', j)
      | Some encoded \<Rightarrow>
          (case jn_fences j of
             None \<Rightarrow> (Err ''confirm operator fence'', j)
           | Some rows \<Rightarrow>
               (case sql_update (\<lambda>r. fr_execution_id r = eid \<and> fr_evidence r = encoded)
                       (\<lambda>r. r\<lparr>fr_confirmed := True\<rparr>) rows of
                  (rows, updated) \<Rightarrow>
                    (let j = j\<lparr>jn_fences := Some rows\<rparr>
                     in if updated \<noteq> 1 then (Err ''operator fence intent mismatch'', j) else (Ok (), j)))))"

text \<open>The two validations of \<open>FenceEvidence\<close>, which read the boot and namespace of the host, are
  arguments.\<close>

definition operator_fence_evidence :: "('l, 'r, 'p, 'i, 'v) codecs \<Rightarrow>
    ('v \<Rightarrow> 'l lease_context \<Rightarrow> ('l, 'r) terminal_lease_result \<Rightarrow> (string, unit) result) \<Rightarrow>
    ('v \<Rightarrow> 'l lease_context \<Rightarrow> (string, unit) result) \<Rightarrow> 'l lease_context \<Rightarrow> journal \<Rightarrow>
    (string, 'v option) result" where
  "operator_fence_evidence cd validate validate_identity lease j =
     (case jn_fences j of
        None \<Rightarrow> Ok None
      | Some rows \<Rightarrow>
          (case find (\<lambda>r. fr_execution_id r = lc_execution_id lease \<and> fr_confirmed r) rows of
             None \<Rightarrow> Ok None
           | Some row \<Rightarrow>
               rtry (journal_find cd (lc_execution_id lease) j) (\<lambda>found.
               rtry (ok_or ''operator execution missing'' found) (\<lambda>rec.
               rtry (ok_or ''invalid operator fence'' (cd_evidence_of cd (fr_evidence row))) (\<lambda>evidence.
               rtry (case jr_terminal_result rec of
                       Some terminal \<Rightarrow> validate evidence lease terminal
                     | None \<Rightarrow>
                         if jr_state rec = CleanupConfirmed then validate_identity evidence lease
                         else Err ''operator terminal missing'') (\<lambda>_. Ok (Some evidence)))))))"

end
