(* ===== verification/Journal_Safety.thy ===== *)
theory Journal_Safety
  imports Runner_Journal
begin

text \<open>
  What the journal guarantees across any sequence of its operations, crashes between them
  included: rows are never removed and keep their identity (the locale \<open>row_table\<close>), a request is
  admitted as new once, charges stay within the granted budget, and what was stored is read back.
\<close>

section \<open>Tables whose rows only evolve\<close>

definition table_ext :: "('r \<Rightarrow> 'r \<Rightarrow> bool) \<Rightarrow> 'r list \<Rightarrow> 'r list \<Rightarrow> bool" where
  "table_ext evolves rows rows' \<longleftrightarrow>
     length rows \<le> length rows' \<and> list_all2 evolves rows (take (length rows) rows')"

locale row_table =
  fixes key :: "'r \<Rightarrow> 'k"
    and evolves :: "'r \<Rightarrow> 'r \<Rightarrow> bool"
  assumes evolves_refl: "evolves r r"
    and evolves_trans: "evolves r r' \<Longrightarrow> evolves r' r'' \<Longrightarrow> evolves r r''"
    and evolves_key: "evolves r r' \<Longrightarrow> key r' = key r"
begin

lemma ext_refl: "table_ext evolves rows rows"
  by (simp add: table_ext_def list_all2_refl evolves_refl)

lemma ext_trans:
  assumes "table_ext evolves a b" and "table_ext evolves b c"
  shows "table_ext evolves a c"
  using assms
  by (auto simp: table_ext_def list_all2_conv_all_nth intro: evolves_trans)

lemma ext_append: "table_ext evolves rows (rows @ new)"
  by (simp add: table_ext_def list_all2_refl evolves_refl)

lemma ext_update:
  assumes "\<And>r. P r \<Longrightarrow> evolves r (f r)"
  shows "table_ext evolves rows (fst (sql_update P f rows))"
  using assms by (auto simp: table_ext_def sql_update_def list_all2_conv_all_nth evolves_refl)

lemma ext_lookup:
  assumes "table_ext evolves rows rows'" and "find (\<lambda>r. key r = k) rows = Some r"
  shows "\<exists>r'. find (\<lambda>r. key r = k) rows' = Some r' \<and> evolves r r'"
proof -
  obtain i where i: "i < length rows" "key (rows ! i) = k" "r = rows ! i" "\<forall>m < i. key (rows ! m) \<noteq> k"
    using assms(2) by (auto simp: find_Some_iff)
  have ev: "evolves (rows ! m) (rows' ! m)" if "m < length rows" for m
    using assms(1) that by (auto simp: table_ext_def list_all2_conv_all_nth)
  have keys: "key (rows' ! m) = key (rows ! m)" if "m < length rows" for m
    using evolves_key [OF ev [OF that]] .
  have "find (\<lambda>r. key r = k) rows' = Some (rows' ! i)"
    using assms(1) i keys by (auto simp: find_Some_iff table_ext_def intro!: exI [of _ i])
  then show ?thesis
    using ev [OF i(1)] i(3) by blast
qed

end

section \<open>The rows of the journal\<close>

definition broker_key :: "broker_row \<Rightarrow> string \<times> string" where
  "broker_key r = (br_execution_id r, br_request_id r)"

text \<open>Only a request in flight changes, and only in its state and response.\<close>

definition broker_evolves :: "broker_row \<Rightarrow> broker_row \<Rightarrow> bool" where
  "broker_evolves r r' \<longleftrightarrow>
     r' = r \<or> (br_state r = ''IN_FLIGHT'' \<and>
       r' = r\<lparr>br_state := br_state r', br_response_json := br_response_json r'\<rparr>)"

definition execution_evolves :: "execution_row \<Rightarrow> execution_row \<Rightarrow> bool" where
  "execution_evolves r r' \<longleftrightarrow>
     r' = r\<lparr>er_state := er_state r', er_backend_operation_id := er_backend_operation_id r',
            er_terminal_result := er_terminal_result r'\<rparr>"

lemma broker_evolves_cases:
  "broker_evolves r r' \<Longrightarrow> br_state r \<noteq> ''IN_FLIGHT'' \<Longrightarrow> r' = r"
  by (simp add: broker_evolves_def)

lemma broker_evolves_same:
  assumes "broker_evolves r r'"
  shows "br_execution_id r' = br_execution_id r" "br_request_id r' = br_request_id r"
    "br_request_digest r' = br_request_digest r" "br_charged_tokens r' = br_charged_tokens r"
    "br_charged_cost_micros r' = br_charged_cost_micros r" "br_fencing_token r' = br_fencing_token r"
  using assms by (cases r; cases r'; auto simp: broker_evolves_def)+

lemma execution_evolves_same:
  assumes "execution_evolves r r'"
  shows "er_execution_id r' = er_execution_id r" "er_lease_id r' = er_lease_id r"
    "er_fencing_token r' = er_fencing_token r" "er_deadline r' = er_deadline r"
    "er_lease_context r' = er_lease_context r"
  using assms by (cases r; cases r'; auto simp: execution_evolves_def)+

interpretation broker: row_table broker_key broker_evolves
proof
  show "broker_evolves r r'' " if "broker_evolves r r'" "broker_evolves r' r''" for r r' r''
    using that by (cases r; cases r'; cases r'') (auto simp: broker_evolves_def)
qed (simp_all add: broker_evolves_def [of r r for r] broker_key_def broker_evolves_same)

interpretation executions: row_table er_execution_id execution_evolves
proof
  show "execution_evolves r r''" if "execution_evolves r r'" "execution_evolves r' r''" for r r' r''
    using that by (cases r; cases r'; cases r'') (auto simp: execution_evolves_def)
qed (simp_all add: execution_evolves_def [of r r for r] execution_evolves_same)

section \<open>Sequences of operations\<close>

datatype ('l, 'r, 'p, 'i, 'v) journal_op =
  OpBegin bool broker_request broker_limits
| OpComplete bool string string broker_response
| OpRedacted bool string string broker_response
| OpUnknown bool string string
| OpEvent "'p runtime_event"
| OpIntent bool "'l execute_lease"
| OpState bool string journal_state "string option"
| OpTerminal bool "('l, 'r) terminal_lease_result"
| OpNative "'l lease_context" 'i
| OpFenceIntent string 'v
| OpFenceConfirm string 'v

fun journal_step :: "('l, 'r, 'p, 'i, 'v) codecs \<Rightarrow> ('l, 'r, 'p, 'i, 'v) journal_op \<Rightarrow> journal \<Rightarrow> journal" where
  "journal_step cd (OpBegin ck q lim) j = snd (begin_broker_request cd ck q lim j)"
| "journal_step cd (OpComplete ck eid rid r) j = snd (complete_broker_request cd ck eid rid r j)"
| "journal_step cd (OpRedacted ck eid rid r) j = snd (complete_broker_request_redacted cd ck eid rid r j)"
| "journal_step cd (OpUnknown ck eid rid) j = snd (mark_broker_request_unknown ck eid rid j)"
| "journal_step cd (OpEvent e) j = snd (record_runtime_event cd e j)"
| "journal_step cd (OpIntent ck xl) j = snd (record_intent cd ck xl j)"
| "journal_step cd (OpState ck eid st bo) j = snd (set_state ck eid st bo j)"
| "journal_step cd (OpTerminal ck t) j = snd (set_terminal cd ck t j)"
| "journal_step cd (OpNative lease i) j = snd (record_native_process cd lease i j)"
| "journal_step cd (OpFenceIntent eid v) j = snd (operator_fence_intent cd eid v j)"
| "journal_step cd (OpFenceConfirm eid v) j = snd (operator_fence_confirm cd eid v j)"

definition journal_run :: "('l, 'r, 'p, 'i, 'v) codecs \<Rightarrow> ('l, 'r, 'p, 'i, 'v) journal_op list \<Rightarrow> journal \<Rightarrow> journal" where
  "journal_run cd ops j = fold (journal_step cd) ops j"

section \<open>Every operation extends the tables\<close>

lemma in_flight_evolves:
  "in_flight eid rid r \<Longrightarrow> broker_evolves r (r\<lparr>br_state := s\<rparr>)"
  "in_flight eid rid r \<Longrightarrow> broker_evolves r (r\<lparr>br_state := s, br_response_json := t\<rparr>)"
  by (simp_all add: in_flight_def broker_evolves_def)

lemma begin_broker_rows:
  "table_ext broker_evolves (jn_broker j) (jn_broker (snd (begin_broker_request cd ck q lim j)))"
  by (auto simp: begin_broker_request_def known_request_def new_request_def
      intro: broker.ext_refl broker.ext_append broker.ext_update in_flight_evolves
      split: option.split sum.split prod.split)

lemma complete_broker_request_rows:
  "snd (complete_broker_request cd ck eid rid r j) =
     (case cd_response cd r of
        None \<Rightarrow> j
      | Some text \<Rightarrow> j\<lparr>jn_broker := fst (sql_update (in_flight eid rid)
          (\<lambda>r. r\<lparr>br_state := ''COMPLETED'', br_response_json := Some text\<rparr>) (jn_broker j))\<rparr>)"
  by (simp add: complete_broker_request_def Let_def split_def split: option.split)

lemma mark_broker_request_rows:
  "snd (mark_broker_request_unknown ck eid rid j) =
     j\<lparr>jn_broker := fst (sql_update (in_flight eid rid) (\<lambda>r. r\<lparr>br_state := ''UNKNOWN''\<rparr>) (jn_broker j))\<rparr>"
  by (simp add: mark_broker_request_unknown_def)

lemma set_state_rows:
  "snd (set_state ck eid st bo j) =
     j\<lparr>jn_executions := fst (sql_update (\<lambda>r. er_execution_id r = eid)
        (\<lambda>r. r\<lparr>er_state := journal_state_as_str st,
               er_backend_operation_id := (case bo of Some b \<Rightarrow> Some b | None \<Rightarrow> er_backend_operation_id r),
               er_terminal_result := (if journal_state_as_str st = ''TERMINAL_REPORTED'' then None
                  else er_terminal_result r)\<rparr>) (jn_executions j))\<rparr>"
  by (simp add: set_state_def Let_def split_def)

definition of_lease :: "'l lease_context \<Rightarrow> execution_row \<Rightarrow> bool" where
  "of_lease lease r \<longleftrightarrow> er_execution_id r = lc_execution_id lease \<and> er_lease_id r = lc_lease_id lease
     \<and> er_fencing_token r = as_i64 (lc_fencing_token lease)"

lemma set_terminal_rows:
  "snd (set_terminal cd ck t j) =
     (case cd_terminal cd t of
        None \<Rightarrow> j
      | Some text \<Rightarrow> j\<lparr>jn_executions := fst (sql_update (of_lease (tl_lease t))
          (\<lambda>r. r\<lparr>er_state := journal_state_as_str TerminalPending, er_terminal_result := Some text\<rparr>)
          (jn_executions j))\<rparr>)"
  unfolding of_lease_def [abs_def]
  by (simp add: set_terminal_def Let_def split_def split: option.split)

text \<open>The operations on events, native identities and operator fences leave the other tables alone.\<close>

lemma side_tables:
  "jn_broker (snd (record_runtime_event cd e j)) = jn_broker j"
  "jn_executions (snd (record_runtime_event cd e j)) = jn_executions j"
  "jn_broker (snd (record_native_process cd lease i j)) = jn_broker j"
  "jn_executions (snd (record_native_process cd lease i j)) = jn_executions j"
  "jn_broker (snd (operator_fence_intent cd eid v j)) = jn_broker j"
  "jn_executions (snd (operator_fence_intent cd eid v j)) = jn_executions j"
  "jn_broker (snd (operator_fence_confirm cd eid v j)) = jn_broker j"
  "jn_executions (snd (operator_fence_confirm cd eid v j)) = jn_executions j"
  by (simp_all add: record_runtime_event_def record_native_process_def operator_fence_intent_def
      operator_fence_confirm_def Let_def split_def split: option.split)

lemma record_intent_rows:
  "jn_broker (snd (record_intent cd ck xl j)) = jn_broker j"
  "\<exists>new. jn_executions (snd (record_intent cd ck xl j)) = jn_executions j @ new"
  by (simp_all add: record_intent_def Let_def split: option.split)

lemma begin_execution_rows: "jn_executions (snd (begin_broker_request cd ck q lim j)) = jn_executions j"
  by (auto simp: begin_broker_request_def known_request_def new_request_def
      split: option.split sum.split prod.split)

lemmas step_rows =
  complete_broker_request_rows mark_broker_request_rows set_state_rows set_terminal_rows
  complete_broker_request_redacted_def side_tables record_intent_rows(1) begin_execution_rows

lemma step_broker_rows:
  "table_ext broker_evolves (jn_broker j) (jn_broker (journal_step cd op j))"
  by (cases op)
    (auto simp: begin_broker_rows step_rows
      intro: broker.ext_refl broker.ext_update in_flight_evolves split: option.split)

lemma step_execution_rows:
  "table_ext execution_evolves (jn_executions j) (jn_executions (journal_step cd op j))"
proof (cases op)
  case (OpIntent ck xl)
  obtain new where "jn_executions (snd (record_intent cd ck xl j)) = jn_executions j @ new"
    using record_intent_rows(2) by blast
  then show ?thesis
    by (simp add: OpIntent executions.ext_append)
next
  case (OpState ck eid st bo)
  then show ?thesis
    by (auto simp: step_rows execution_evolves_def intro!: executions.ext_update)
next
  case (OpTerminal ck t)
  then show ?thesis
    by (auto simp: step_rows execution_evolves_def executions.ext_refl
        intro!: executions.ext_update split: option.split)
qed (auto simp: step_rows executions.ext_refl split: option.split)

lemma run_broker_rows: "table_ext broker_evolves (jn_broker j) (jn_broker (journal_run cd ops j))"
  by (induction ops arbitrary: j)
    (auto simp: journal_run_def broker.ext_refl intro: broker.ext_trans step_broker_rows)

lemma run_execution_rows: "table_ext execution_evolves (jn_executions j) (jn_executions (journal_run cd ops j))"
  by (induction ops arbitrary: j)
    (auto simp: journal_run_def executions.ext_refl intro: executions.ext_trans step_execution_rows)

lemma is_request_key: "is_request eid rid = (\<lambda>r. broker_key r = (eid, rid))"
  by (auto simp: is_request_def broker_key_def fun_eq_iff)

lemma run_finds_request:
  assumes "find (is_request eid rid) (jn_broker j) = Some row"
  shows "\<exists>row'. find (is_request eid rid) (jn_broker (journal_run cd ops j)) = Some row' \<and> broker_evolves row row'"
  using broker.ext_lookup [OF run_broker_rows] assms unfolding is_request_key by blast

lemma run_finds_execution:
  assumes "find_execution eid j = Some row"
  shows "\<exists>row'. find_execution eid (journal_run cd ops j) = Some row' \<and> execution_evolves row row'"
  using executions.ext_lookup [OF run_execution_rows] assms unfolding find_execution_def by blast

lemma fence_of_evolved:
  "find_execution eid j = Some row \<Longrightarrow> find_execution eid j' = Some row' \<Longrightarrow> execution_evolves row row' \<Longrightarrow>
   execution_fence eid j' = execution_fence eid j"
  by (simp add: execution_fence_def execution_evolves_same)

lemma execution_fence_tables [simp]:
  "execution_fence eid (j\<lparr>jn_broker := b\<rparr>) = execution_fence eid j"
  "execution_fence eid (j\<lparr>jn_events := ev\<rparr>) = execution_fence eid j"
  by (simp_all add: execution_fence_def find_execution_def)

lemma run_keeps_fence:
  assumes "execution_fence eid j = Some f"
  shows "execution_fence eid (journal_run cd ops j) = Some f"
proof -
  obtain row where row: "find_execution eid j = Some row"
    using assms by (auto simp: execution_fence_def)
  from run_finds_execution [OF row] fence_of_evolved [OF row] assms show ?thesis
    by fastforce
qed

lemma step_keeps_fence:
  "execution_fence eid j = Some f \<Longrightarrow> execution_fence eid (journal_step cd op j) = Some f"
  using run_keeps_fence [where ops = "[op]"] by (simp add: journal_run_def)

section \<open>Well-formed journals\<close>

definition broker_row_ok :: "journal \<Rightarrow> broker_row \<Rightarrow> bool" where
  "broker_row_ok j r \<longleftrightarrow>
     0 \<le> br_charged_tokens r \<and> 0 \<le> br_charged_cost_micros r
     \<and> br_state r \<in> set [''IN_FLIGHT'', ''COMPLETED'', ''UNKNOWN'']
     \<and> (br_state r = ''COMPLETED'' \<longrightarrow> br_response_json r \<noteq> None)
     \<and> execution_fence (br_execution_id r) j = Some (br_fencing_token r)"

definition wf_executions :: "journal \<Rightarrow> bool" where
  "wf_executions j \<longleftrightarrow> distinct (map er_execution_id (jn_executions j))
     \<and> list_all (\<lambda>r. is_ok (journal_state_parse (er_state r))) (jn_executions j)"

definition wf_broker :: "journal \<Rightarrow> bool" where
  "wf_broker j \<longleftrightarrow> distinct (map broker_key (jn_broker j)) \<and> list_all (broker_row_ok j) (jn_broker j)"

definition wf_events :: "journal \<Rightarrow> bool" where
  "wf_events j \<longleftrightarrow> distinct (map (\<lambda>r. (ev_execution_id r, ev_event_id r)) (jn_events j))
     \<and> distinct (map (\<lambda>r. (ev_execution_id r, ev_sequence r)) (jn_events j))
     \<and> list_all (\<lambda>r. execution_fence (ev_execution_id r) j = Some (ev_fencing_token r)) (jn_events j)"

definition wf_journal :: "journal \<Rightarrow> bool" where
  "wf_journal j \<longleftrightarrow> wf_executions j \<and> wf_broker j \<and> wf_events j"

lemma journal_state_roundtrip [simp]: "journal_state_parse (journal_state_as_str s) = Ok s"
  by (cases s) (simp_all add: journal_state_parse_def journal_state_as_str_def)

lemma set_map_sql_update:
  "fst (sql_update P f rows) = map (\<lambda>r. if P r then f r else r) rows"
  by (simp add: sql_update_def)

lemma distinct_map_update:
  assumes "\<And>r. key (f r) = key r"
  shows "distinct (map key (fst (sql_update P f rows))) \<longleftrightarrow> distinct (map key rows)"
proof -
  have "map key (fst (sql_update P f rows)) = map key rows"
    by (simp add: sql_update_def assms)
  then show ?thesis by metis
qed

lemma find_none_key: "find (\<lambda>r. key r = k) rows = None \<longleftrightarrow> k \<notin> key ` set rows"
  by (auto simp: find_None_iff)

lemma wf_executions_step:
  assumes "wf_executions j"
  shows "wf_executions (journal_step cd op j)"
proof (cases op)
  case (OpIntent ck xl)
  then show ?thesis
    using assms by (auto simp: record_intent_def wf_executions_def find_execution_def find_none_key Let_def
        split: option.split)
next
  case (OpState ck eid st bo)
  then show ?thesis
    using assms unfolding wf_executions_def
    by (auto simp: step_rows distinct_map_update) (auto simp: sql_update_def list_all_iff)
next
  case (OpTerminal ck t)
  then show ?thesis
    using assms unfolding wf_executions_def
    by (auto simp: step_rows distinct_map_update split: option.split) (auto simp: sql_update_def list_all_iff)
qed (use assms in \<open>auto simp: step_rows wf_executions_def split: option.split\<close>)

lemma broker_row_ok_mono:
  assumes "broker_row_ok j r" and "\<And>eid f. execution_fence eid j = Some f \<Longrightarrow> execution_fence eid j' = Some f"
  shows "broker_row_ok j' r"
  using assms by (auto simp: broker_row_ok_def)

lemma wf_broker_update:
  assumes "wf_broker j" and "jn_broker j' = fst (sql_update P f (jn_broker j))"
    and "\<And>r. broker_key (f r) = broker_key r" and "\<And>r. broker_row_ok j r \<Longrightarrow> broker_row_ok j (f r)"
    and "\<And>eid v. execution_fence eid j = Some v \<Longrightarrow> execution_fence eid j' = Some v"
  shows "wf_broker j'"
proof -
  have "broker_row_ok j' r" if "broker_row_ok j r" for r
    using broker_row_ok_mono [OF that] assms(5) by blast
  then show ?thesis
    using assms(1,3,4) unfolding wf_broker_def assms(2)
    by (auto simp: distinct_map_update) (auto simp: sql_update_def list_all_iff)
qed

lemma broker_row_ok_changes:
  "broker_row_ok j r \<Longrightarrow> broker_row_ok j (r\<lparr>br_state := ''UNKNOWN''\<rparr>)"
  "broker_row_ok j r \<Longrightarrow> broker_row_ok j (r\<lparr>br_state := ''COMPLETED'', br_response_json := Some t\<rparr>)"
  "broker_key (r\<lparr>br_state := s\<rparr>) = broker_key r"
  "broker_key (r\<lparr>br_state := s, br_response_json := v\<rparr>) = broker_key r"
  by (simp_all add: broker_row_ok_def broker_key_def)

lemma wf_broker_same:
  assumes "wf_broker j" and "jn_broker j' = jn_broker j"
    and "\<And>eid v. execution_fence eid j = Some v \<Longrightarrow> execution_fence eid j' = Some v"
  shows "wf_broker j'"
  using wf_broker_update [where P = "\<lambda>_. False" and f = id, OF assms(1) _ _ _ assms(3)] assms(2)
  by (simp add: sql_update_def)

lemma usage_bounds:
  assumes "usage_of eid j = Some (n, t, c)"
  shows "n = int (length (charges_of eid j))"
    "t = sum_list (map br_charged_tokens (charges_of eid j))" "t \<le> i64_max"
    "c = sum_list (map br_charged_cost_micros (charges_of eid j))" "c \<le> i64_max"
  using assms by (auto simp: usage_of_def sql_sum_def split: option.splits if_splits)

text \<open>What an admitted request adds to the journal.\<close>

definition request_row :: "broker_request \<Rightarrow> broker_row" where
  "request_row q = \<lparr>br_execution_id = bq_execution_id q, br_request_id = bq_request_id q,
     br_fencing_token = as_i64 (bq_fencing_token q), br_request_digest = bq_request_digest q,
     br_operation = bq_operation q, br_target = bq_target q, br_state = ''IN_FLIGHT'',
     br_charged_tokens = int (bq_charged_tokens q), br_charged_cost_micros = int (bq_charged_cost_micros q),
     br_response_json = None\<rparr>"

lemma new_request_cases:
  "(\<exists>e. new_request q lim j = (Err e, j))
   \<or> (\<exists>usage. usage_of (bq_execution_id q) j = Some usage \<and> \<not> over_budget q lim usage
      \<and> int (bq_charged_tokens q) \<le> i64_max \<and> int (bq_charged_cost_micros q) \<le> i64_max
      \<and> new_request q lim j = (Ok NewRequest, j\<lparr>jn_broker := jn_broker j @ [request_row q]\<rparr>))"
  by (auto simp: new_request_def request_row_def i64_try_from_def split: option.split)

lemma known_request_cases:
  "(\<exists>r. known_request cd q row j = (r, j) \<and> r \<noteq> Ok NewRequest)
   \<or> (known_request cd q row j = (Ok UnknownRequest,
        j\<lparr>jn_broker := fst (sql_update (in_flight (bq_execution_id q) (bq_request_id q))
             (\<lambda>r. r\<lparr>br_state := ''UNKNOWN''\<rparr>) (jn_broker j))\<rparr>))"
  by (auto simp: known_request_def rtry_eq_Ok_iff)

lemma begin_cases:
  obtains (same) r where "begin_broker_request cd ck q lim j = (r, j)" "r \<noteq> Ok NewRequest"
  | (unknown) r where "begin_broker_request cd ck q lim j = (r,
        j\<lparr>jn_broker := fst (sql_update (in_flight (bq_execution_id q) (bq_request_id q))
             (\<lambda>r. r\<lparr>br_state := ''UNKNOWN''\<rparr>) (jn_broker j))\<rparr>)" "r \<noteq> Ok NewRequest"
  | (new) r usage where "begin_broker_request cd ck q lim j = (r, j\<lparr>jn_broker := jn_broker j @ [request_row q]\<rparr>)"
      "find (is_request (bq_execution_id q) (bq_request_id q)) (jn_broker j) = None"
      "execution_fence (bq_execution_id q) j = Some (as_i64 (bq_fencing_token q))"
      "usage_of (bq_execution_id q) j = Some usage" "\<not> over_budget q lim usage"
      "int (bq_charged_tokens q) \<le> i64_max" "int (bq_charged_cost_micros q) \<le> i64_max"
proof (cases "execution_fence (bq_execution_id q) j = Some (as_i64 (bq_fencing_token q))")
  case False
  then show ?thesis
    using same by (simp add: begin_broker_request_def)
next
  case fence: True
  show ?thesis
  proof (cases "find (is_request (bq_execution_id q) (bq_request_id q)) (jn_broker j)" rule: option.exhaust)
    case None
    then show ?thesis
      using new_request_cases [of q lim j] fence same new
      by (auto simp: begin_broker_request_def)
  next
    case (Some row)
    note defs = begin_broker_request_def fence Some
    from known_request_cases [of cd q row j] show ?thesis
    proof (elim disjE exE conjE)
      fix r assume r: "known_request cd q row j = (r, j)" "r \<noteq> Ok NewRequest"
      show ?thesis
        by (rule same [of "rtry r (checkpoint ck ''checkpoint broker request intent'')"])
          (use r in \<open>auto simp: defs checkpoint_def rtry_eq_Ok_iff split: sum.split if_splits\<close>)
    qed (rule unknown [of "checkpoint ck ''checkpoint broker request intent'' UnknownRequest"];
        simp add: defs checkpoint_def)
  qed
qed

lemma broker_key_request_row: "broker_key (request_row q) = (bq_execution_id q, bq_request_id q)"
  by (simp add: broker_key_def request_row_def)

lemma wf_broker_begin:
  assumes "wf_broker j"
  shows "wf_broker (snd (begin_broker_request cd ck q lim j))"
proof (cases rule: begin_cases [of cd ck q lim j])
  case same
  then show ?thesis using assms by simp
next
  case unknown
  then show ?thesis
    using assms by (auto intro!: wf_broker_update [OF assms] simp: broker_row_ok_changes)
next
  case new
  let ?j = "j\<lparr>jn_broker := jn_broker j @ [request_row q]\<rparr>"
  have "broker_row_ok ?j (request_row q)"
    using new(3) by (simp add: broker_row_ok_def request_row_def)
  moreover have "broker_key (request_row q) \<notin> broker_key ` set (jn_broker j)"
    using new(2) by (simp add: is_request_key find_none_key broker_key_request_row)
  moreover have "list_all (broker_row_ok ?j) (jn_broker j)"
    using assms by (auto simp: wf_broker_def list_all_iff broker_row_ok_def)
  ultimately show ?thesis
    using assms by (simp add: new(1) wf_broker_def)
qed

lemma wf_broker_step:
  assumes "wf_broker j"
  shows "wf_broker (journal_step cd op j)"
proof -
  note fence = step_keeps_fence [where op = op and cd = cd and j = j]
  show ?thesis
  proof (cases op)
    case (OpBegin ck q lim)
    then show ?thesis using wf_broker_begin [OF assms] by simp
  next
    case (OpComplete ck eid rid r)
    then show ?thesis
      using fence assms by (auto simp: step_rows broker_row_ok_changes intro!: wf_broker_update [OF assms]
          split: option.split)
  next
    case (OpRedacted ck eid rid r)
    then show ?thesis
      using fence assms by (auto simp: step_rows broker_row_ok_changes intro!: wf_broker_update [OF assms]
          split: option.split)
  next
    case (OpUnknown ck eid rid)
    then show ?thesis
      using fence by (auto simp: step_rows broker_row_ok_changes intro!: wf_broker_update [OF assms])
  qed (use fence in \<open>auto simp: step_rows intro!: wf_broker_same [OF assms] split: option.split\<close>)
qed

lemma step_events:
  "jn_events (journal_step cd op j) = jn_events j
   \<or> (\<exists>e. op = OpEvent e \<and> journal_step cd op j = j\<lparr>jn_events := jn_events j @
        [\<lparr>ev_execution_id = re_execution_id e, ev_event_id = re_event_id e,
          ev_sequence = as_i64 (re_sequence e), ev_fencing_token = as_i64 (re_fencing_token e),
          ev_event_json = the (cd_event cd e)\<rparr>]\<rparr>
      \<and> execution_fence (re_execution_id e) j = Some (as_i64 (re_fencing_token e))
      \<and> (re_execution_id e, re_event_id e) \<notin> (\<lambda>r. (ev_execution_id r, ev_event_id r)) ` set (jn_events j)
      \<and> (re_execution_id e, as_i64 (re_sequence e)) \<notin> (\<lambda>r. (ev_execution_id r, ev_sequence r)) ` set (jn_events j))"
proof (cases op)
  case (OpBegin ck q lim)
  then show ?thesis
    by (cases rule: begin_cases [of cd ck q lim j]) simp_all
next
  case (OpEvent e)
  then show ?thesis
    by (auto simp: record_runtime_event_def list_ex_iff split: option.split)
next
  case (OpIntent ck xl)
  then show ?thesis by (simp add: record_intent_def Let_def split: option.split)
next
  case (OpNative lease i)
  then show ?thesis by (simp add: record_native_process_def Let_def split: option.split)
next
  case (OpFenceIntent eid v)
  then show ?thesis by (simp add: operator_fence_intent_def Let_def split: option.split)
next
  case (OpFenceConfirm eid v)
  then show ?thesis by (simp add: operator_fence_confirm_def Let_def split_def split: option.split)
qed (simp_all add: step_rows split: option.split)

lemma wf_events_step:
  assumes "wf_events j"
  shows "wf_events (journal_step cd op j)"
  using step_events [of cd op j]
proof
  assume "jn_events (journal_step cd op j) = jn_events j"
  then show ?thesis
    using assms step_keeps_fence by (fastforce simp: wf_events_def list_all_iff)
next
  assume "\<exists>e. op = OpEvent e \<and> journal_step cd op j = j\<lparr>jn_events := jn_events j @
        [\<lparr>ev_execution_id = re_execution_id e, ev_event_id = re_event_id e,
          ev_sequence = as_i64 (re_sequence e), ev_fencing_token = as_i64 (re_fencing_token e),
          ev_event_json = the (cd_event cd e)\<rparr>]\<rparr>
      \<and> execution_fence (re_execution_id e) j = Some (as_i64 (re_fencing_token e))
      \<and> (re_execution_id e, re_event_id e) \<notin> (\<lambda>r. (ev_execution_id r, ev_event_id r)) ` set (jn_events j)
      \<and> (re_execution_id e, as_i64 (re_sequence e)) \<notin> (\<lambda>r. (ev_execution_id r, ev_sequence r)) ` set (jn_events j)"
  then show ?thesis
    using assms by (elim exE conjE) (simp add: wf_events_def list_all_iff)
qed

lemma wf_journal_run: "wf_journal j \<Longrightarrow> wf_journal (journal_run cd ops j)"
  by (induction ops arbitrary: j)
    (simp_all add: journal_run_def wf_journal_def wf_executions_step wf_broker_step wf_events_step)

lemma wf_journal_empty: "wf_journal journal_empty"
  by (simp add: wf_journal_def journal_empty_def wf_executions_def wf_broker_def wf_events_def)

section \<open>Charges\<close>

lemma find_snoc:
  "find P (xs @ [x]) = (case find P xs of Some y \<Rightarrow> Some y | None \<Rightarrow> if P x then Some x else None)"
  by (induction xs) auto

definition charge_list :: "string \<Rightarrow> journal \<Rightarrow> (int \<times> int) list" where
  "charge_list eid j = map (\<lambda>r. (br_charged_tokens r, br_charged_cost_micros r)) (charges_of eid j)"

definition within_limits :: "string \<Rightarrow> broker_limits \<Rightarrow> journal \<Rightarrow> bool" where
  "within_limits eid lim j \<longleftrightarrow>
     length (charge_list eid j) \<le> bl_maximum_requests lim
     \<and> sum_list (map fst (charge_list eid j)) \<le> int (bl_maximum_tokens lim)
     \<and> sum_list (map snd (charge_list eid j)) \<le> int (bl_maximum_cost_micros lim)"

lemma charge_list_update:
  assumes "jn_broker j' = fst (sql_update P f (jn_broker j))"
    and "\<And>r. br_execution_id (f r) = br_execution_id r" "\<And>r. br_charged_tokens (f r) = br_charged_tokens r"
      "\<And>r. br_charged_cost_micros (f r) = br_charged_cost_micros r"
  shows "charge_list eid j' = charge_list eid j"
proof -
  have "map (\<lambda>r. (br_charged_tokens r, br_charged_cost_micros r))
          (filter (\<lambda>r. br_execution_id r = eid) (map (\<lambda>r. if P r then f r else r) rows))
      = map (\<lambda>r. (br_charged_tokens r, br_charged_cost_micros r)) (filter (\<lambda>r. br_execution_id r = eid) rows)" for rows
    by (induction rows) (auto simp: assms(2-4))
  then show ?thesis
    by (simp add: charge_list_def charges_of_def assms(1) sql_update_def)
qed

lemma charge_list_changes [simp]:
  "charge_list eid (j\<lparr>jn_broker := fst (sql_update P (\<lambda>r. r\<lparr>br_state := v\<rparr>) (jn_broker j))\<rparr>) = charge_list eid j"
  "charge_list eid (j\<lparr>jn_broker := fst (sql_update P (\<lambda>r. r\<lparr>br_state := v, br_response_json := t\<rparr>) (jn_broker j))\<rparr>)
     = charge_list eid j"
  by (rule charge_list_update [where P = P and f = "\<lambda>r. r\<lparr>br_state := v\<rparr>"]; simp)
    (rule charge_list_update [where P = P and f = "\<lambda>r. r\<lparr>br_state := v, br_response_json := t\<rparr>"]; simp)

lemma charge_list_same: "jn_broker j' = jn_broker j \<Longrightarrow> charge_list eid j' = charge_list eid j"
  by (simp add: charge_list_def charges_of_def)

lemma step_charges:
  "charge_list eid (journal_step cd op j) = charge_list eid j
   \<or> (\<exists>ck q lim usage. op = OpBegin ck q lim \<and> bq_execution_id q = eid
      \<and> charge_list eid (journal_step cd op j) =
          charge_list eid j @ [(int (bq_charged_tokens q), int (bq_charged_cost_micros q))]
      \<and> usage_of eid j = Some usage \<and> \<not> over_budget q lim usage
      \<and> int (bq_charged_tokens q) \<le> i64_max \<and> int (bq_charged_cost_micros q) \<le> i64_max)"
proof (cases op)
  case (OpBegin ck q lim)
  then show ?thesis
  proof (cases rule: begin_cases [of cd ck q lim j])
    case same
    then show ?thesis by (simp add: OpBegin)
  next
    case unknown
    then show ?thesis
      by (simp add: OpBegin)
  next
    case new
    then show ?thesis
      by (cases "bq_execution_id q = eid") (auto simp: OpBegin charge_list_def charges_of_def request_row_def)
  qed
next
  case (OpComplete ck eid' rid r)
  then show ?thesis
    by (simp add: step_rows split: option.split)
next
  case (OpRedacted ck eid' rid r)
  then show ?thesis
    by (simp add: step_rows split: option.split)
next
  case (OpUnknown ck eid' rid)
  then show ?thesis
    by (simp add: step_rows)
qed (auto simp: step_rows intro!: charge_list_same split: option.split)

lemma usage_charge_list:
  assumes "usage_of eid j = Some (n, t, c)"
  shows "n = int (length (charge_list eid j))" "t = sum_list (map fst (charge_list eid j))"
    "c = sum_list (map snd (charge_list eid j))"
  using usage_bounds [OF assms] by (simp_all add: charge_list_def comp_def)

lemma charge_list_nonneg:
  assumes "wf_broker j"
  shows "0 \<le> sum_list (map fst (charge_list eid j))" "0 \<le> sum_list (map snd (charge_list eid j))"
  using assms by (auto intro!: sum_list_nonneg
      simp: wf_broker_def list_all_iff broker_row_ok_def charge_list_def charges_of_def)

lemma admitted_sum:
  assumes "0 \<le> s" "s \<le> i64_max" "int c \<le> i64_max" "\<not> sat_add (u64_or_max s) c > m"
  shows "s + int c \<le> int m"
proof -
  have "nat s + c \<le> u64_max"
    using assms(1-3) by (simp add: i64_max_def u64_max_def)
  then have "sat_add (u64_or_max s) c = nat s + c"
    using assms(1) by (simp add: u64_or_max_def u64_try_from_def sat_add_exact)
  then show ?thesis
    using assms(1,4) by linarith
qed

lemma step_within_limits:
  assumes "within_limits eid lim j" and "wf_broker j"
    and "\<And>ck q l. op = OpBegin ck q l \<Longrightarrow> bq_execution_id q = eid \<Longrightarrow> l = lim"
  shows "within_limits eid lim (journal_step cd op j)"
  using step_charges [of eid cd op j]
proof (elim disjE exE conjE)
  assume "charge_list eid (journal_step cd op j) = charge_list eid j"
  then show ?thesis
    using assms(1) by (simp add: within_limits_def)
next
  fix ck q l usage
  assume op: "op = OpBegin ck q l" "bq_execution_id q = eid"
    and charges: "charge_list eid (journal_step cd op j) =
          charge_list eid j @ [(int (bq_charged_tokens q), int (bq_charged_cost_micros q))]"
    and usage: "usage_of eid j = Some usage" "\<not> over_budget q l usage"
    and small: "int (bq_charged_tokens q) \<le> i64_max" "int (bq_charged_cost_micros q) \<le> i64_max"
  obtain n t c where u: "usage = (n, t, c)"
    by (cases usage)
  note vals = usage_charge_list [OF usage(1) [unfolded u]] and bounds = usage_bounds(3,5) [OF usage(1) [unfolded u]]
  have over: "\<not> over_budget q lim (n, t, c)"
    using usage(2) assms(3) [OF op] by (simp add: u)
  have "t + int (bq_charged_tokens q) \<le> int (bl_maximum_tokens lim)"
    using admitted_sum [OF _ bounds(1) small(1)] over charge_list_nonneg(1) [OF assms(2)] vals(2)
    by (simp add: over_budget_def)
  moreover have "c + int (bq_charged_cost_micros q) \<le> int (bl_maximum_cost_micros lim)"
    using admitted_sum [OF _ bounds(2) small(2)] over charge_list_nonneg(2) [OF assms(2)] vals(3)
    by (simp add: over_budget_def)
  moreover have "length (charge_list eid j) < bl_maximum_requests lim"
    using over vals(1) by (simp add: over_budget_def u64_or_max_def u64_try_from_def)
  ultimately show ?thesis
    using vals by (simp add: within_limits_def charges)
qed

lemma run_within_limits:
  assumes "within_limits eid lim j" and "wf_broker j"
    and "\<And>ck q l. OpBegin ck q l \<in> set ops \<Longrightarrow> bq_execution_id q = eid \<Longrightarrow> l = lim"
  shows "within_limits eid lim (journal_run cd ops j)"
  using assms
proof (induction ops arbitrary: j)
  case (Cons op ops)
  have "within_limits eid lim (journal_step cd op j)"
    using Cons.prems by (intro step_within_limits) auto
  then have "within_limits eid lim (journal_run cd ops (journal_step cd op j))"
    by (rule Cons.IH [OF _ wf_broker_step [OF Cons.prems(2)]]) (use Cons.prems(3) in auto)
  then show ?case
    by (simp add: journal_run_def)
qed (simp add: journal_run_def)

section \<open>Reading back\<close>

lemma find_update:
  assumes "\<And>r. Q (if P r then f r else r) = Q r"
  shows "find Q (fst (sql_update P f rows)) = map_option (\<lambda>r. if P r then f r else r) (find Q rows)"
  using assms by (induction rows) (auto simp: sql_update_def split: if_splits)

lemma find_completed:
  "find (is_request eid rid) (fst (sql_update (in_flight eid rid)
       (\<lambda>r. r\<lparr>br_state := v, br_response_json := t\<rparr>) rows))
   = map_option (\<lambda>r. if in_flight eid rid r then r\<lparr>br_state := v, br_response_json := t\<rparr> else r)
       (find (is_request eid rid) rows)"
  by (rule find_update) (simp add: is_request_def)










section \<open>A fence the journal cannot read back\<close>

lemma try_map_Err: "x \<in> set xs \<Longrightarrow> f x = Err e \<Longrightarrow> \<exists>e'. try_map f xs = Err e'"
  by (induction xs) (auto simp: rtry_eq_Err_iff is_ok_iff, metis is_ok_iff rtry_simps sum.exhaust)

text \<open>C40: a fencing token above \<open>i64::MAX\<close> is accepted and stored as a negative number, which the
  recovery query refuses to decode: one such lease makes recovery fail for every execution.\<close>

theorem large_fence_blocks_recovery:
  assumes "find_execution (lc_execution_id (xl_lease xl)) j = None" and "cd_lease cd (xl_lease xl) = Some lease_text"
    and "2 ^ 63 \<le> lc_fencing_token (xl_lease xl)" and "lc_fencing_token (xl_lease xl) < 2 ^ 64"
  shows "fst (record_intent cd True xl j) = Ok True
    \<and> (\<exists>e. unfinished cd (snd (record_intent cd True xl j)) = Err e)"
proof
  let ?j = "snd (record_intent cd True xl j)"
  show "fst (record_intent cd True xl j) = Ok True"
    using assms by (simp add: record_intent_def checkpoint_def Let_def)
  have "as_i64 (lc_fencing_token (xl_lease xl)) < 0"
    using assms(3,4) by (simp add: as_i64_def i64_max_def)
  then obtain row where row: "row \<in> set (jn_executions ?j)" "er_fencing_token row < 0"
      "er_state row = journal_state_as_str IntentRecorded"
    using assms(1,2) by (fastforce simp: record_intent_def Let_def)
  have bad: "row_to_record cd row = Err ''fencing_token''"
    using row(2) by (simp add: row_to_record_def u64_try_from_def)
  have listed: "row \<in> set (sort_key er_deadline (sort_key er_execution_id
      (filter (\<lambda>r. er_state r \<noteq> ''CLEANUP_CONFIRMED'') (jn_executions ?j))))"
    using row(1,3) by (simp add: journal_state_as_str_def)
  show "\<exists>e. unfinished cd ?j = Err e"
    unfolding unfinished_def by (rule try_map_Err [where f = "row_to_record cd", OF listed bad])
qed

section \<open>Properties\<close>

text \<open>C30: however the journal is used, it stays well formed: one row per execution, per broker request
  and per event identity and sequence; every state parses, a completed request has its response,
  charges are not negative, and every request and event carries the fence of its execution.\<close>

theorem journal_well_formed: "wf_journal (journal_run cd ops journal_empty)"
  by (rule wf_journal_run) (rule wf_journal_empty)

text \<open>C7: a broker request identifier is admitted as new at most once in the life of the journal, across
  restarts and whatever is recorded in between; a later delivery is a replay, an unknown outcome
  or an error.\<close>

theorem broker_request_new_once:
  assumes "begin_broker_request cd ck q lim j = (Ok NewRequest, j')"
    and "bq_execution_id q' = bq_execution_id q" and "bq_request_id q' = bq_request_id q"
  shows "fst (begin_broker_request cd ck' q' lim' (journal_run cd ops j')) \<noteq> Ok NewRequest"
proof -
  have "\<exists>row. find (is_request (bq_execution_id q) (bq_request_id q)) (jn_broker j') = Some row"
    using assms(1) by (cases rule: begin_cases [of cd ck q lim j])
      (auto simp: find_snoc is_request_def request_row_def split: option.split)
  then obtain row where "find (is_request (bq_execution_id q') (bq_request_id q')) (jn_broker (journal_run cd ops j')) = Some row"
    using run_finds_request assms(2,3) by metis
  then show ?thesis
    by (cases rule: begin_cases [of cd ck' q' lim' "journal_run cd ops j'"]) simp_all
qed

text \<open>C8: when every request of an execution is admitted against the same grant, the requests ever
  recorded for it, their tokens and their cost together never exceed the grant.\<close>

theorem broker_budget_respected:
  assumes "\<forall>ck q l. OpBegin ck q l \<in> set ops \<longrightarrow> bq_execution_id q = eid \<longrightarrow> l = lim"
  shows "let rows = charges_of eid (journal_run cd ops journal_empty)
    in length rows \<le> bl_maximum_requests lim
     \<and> sum_list (map br_charged_tokens rows) \<le> int (bl_maximum_tokens lim)
     \<and> sum_list (map br_charged_cost_micros rows) \<le> int (bl_maximum_cost_micros lim)"
proof -
  have "within_limits eid lim journal_empty"
    by (simp add: within_limits_def charge_list_def charges_of_def journal_empty_def)
  moreover have "wf_broker journal_empty"
    using wf_journal_empty by (simp add: wf_journal_def)
  ultimately have "within_limits eid lim (journal_run cd ops journal_empty)"
    by (rule run_within_limits) (use assms in blast)
  then show ?thesis
    by (simp add: within_limits_def charge_list_def comp_def)
qed

text \<open>C21: once a request in flight is completed, every later delivery of it under the same fence and with
  the same content is answered with the stored response, whatever happened to the journal in
  between, and changes nothing.\<close>

theorem completed_request_replays:
  assumes "find (is_request (bq_execution_id q) (bq_request_id q)) (jn_broker j) = Some row"
    and "br_state row = ''IN_FLIGHT''" and "br_request_digest row = bq_request_digest q"
    and "execution_fence (bq_execution_id q) j = Some (as_i64 (bq_fencing_token q))"
    and "cd_response cd response = Some text" and "cd_response_of cd text = Some response"
  shows "let j' = journal_run cd ops
      (snd (complete_broker_request cd ck (bq_execution_id q) (bq_request_id q) response j))
    in begin_broker_request cd True q lim j' = (Ok (Replay response), j')"
proof -
  let ?j1 = "snd (complete_broker_request cd ck (bq_execution_id q) (bq_request_id q) response j)"
  define j' where "j' = journal_run cd ops ?j1"
  let ?row = "row\<lparr>br_state := ''COMPLETED'', br_response_json := Some text\<rparr>"
  have "in_flight (bq_execution_id q) (bq_request_id q) row"
    using assms(1,2) by (auto simp: in_flight_def find_Some_iff)
  then have "find (is_request (bq_execution_id q) (bq_request_id q)) (jn_broker ?j1) = Some ?row"
    using assms(1,5) by (simp add: step_rows find_completed)
  from run_finds_request [OF this, where cd = cd and ops = ops]
  have found: "find (is_request (bq_execution_id q) (bq_request_id q)) (jn_broker j') = Some ?row"
    by (auto simp: j'_def dest!: broker_evolves_cases)
  have "execution_fence (bq_execution_id q) ?j1 = Some (as_i64 (bq_fencing_token q))"
    using assms(4,5) by (simp add: step_rows)
  then have "execution_fence (bq_execution_id q) j' = Some (as_i64 (bq_fencing_token q))"
    unfolding j'_def by (rule run_keeps_fence)
  then show ?thesis
    using found assms(3,6) unfolding j'_def [symmetric] Let_def
    by (simp add: begin_broker_request_def known_request_def checkpoint_def)
qed


section \<open>An example\<close>

definition example_lease :: "unit lease_context" where
  "example_lease = \<lparr>lc_execution_id = ''e'', lc_lease_id = ''l'', lc_fencing_token = 7, lc_policy_digest = ''p'',
     lc_compatibility_digest = ''c'', lc_deadline = ''d'', lc_rest = ()\<rparr>"

definition example_terminal :: "(unit, unit) terminal_lease_result" where
  "example_terminal = \<lparr>tl_lease = example_lease, tl_result = ()\<rparr>"

definition example_response :: broker_response where
  "example_response = \<lparr>bs_request_id = ''r'', bs_status = 200, bs_body_base64 = ''eA=='', bs_consumed_requests = 1,
     bs_consumed_tokens = 5, bs_consumed_cost_micros = 9\<rparr>"

definition example_codecs :: "(unit, unit, unit, unit, unit) codecs" where
  "example_codecs = \<lparr>cd_lease = (\<lambda>_. Some ''lease''), cd_lease_of = (\<lambda>_. Some example_lease),
     cd_terminal = (\<lambda>_. Some ''terminal''), cd_terminal_of = (\<lambda>_. Some example_terminal),
     cd_response = (\<lambda>_. Some ''response''), cd_response_of = (\<lambda>_. Some example_response),
     cd_event = (\<lambda>_. None), cd_event_of = (\<lambda>_. None), cd_identity = (\<lambda>_. None), cd_identity_of = (\<lambda>_. None),
     cd_evidence = (\<lambda>_. None), cd_evidence_of = (\<lambda>_. None), cd_deadline_ok = (\<lambda>_. True)\<rparr>"

definition example_request :: broker_request where
  "example_request = \<lparr>bq_execution_id = ''e'', bq_fencing_token = 7, bq_request_id = ''r'', bq_request_digest = ''h'',
     bq_operation = ''o'', bq_target = ''t'', bq_charged_tokens = 5, bq_charged_cost_micros = 9\<rparr>"

definition example_limits :: broker_limits where
  "example_limits = \<lparr>bl_maximum_requests = 1, bl_maximum_tokens = 5, bl_maximum_cost_micros = 9\<rparr>"

definition example_intent :: "(unit, unit, unit, unit, unit) journal_op" where
  "example_intent = OpIntent True \<lparr>xl_lease = example_lease, xl_definition_digest = ''x'', xl_command_template_digest = ''y''\<rparr>"

definition example_journal :: journal where
  "example_journal = journal_run example_codecs [example_intent] journal_empty"

definition example_admitted :: journal where
  "example_admitted = snd (begin_broker_request example_codecs True example_request example_limits example_journal)"

theorem broker_request_new_once_witness:
  "fst (begin_broker_request example_codecs True example_request example_limits
     (journal_run example_codecs [OpUnknown True ''e'' ''r''] example_admitted)) \<noteq> Ok NewRequest"
proof -
  have "fst (begin_broker_request example_codecs True example_request example_limits example_journal) = Ok NewRequest"
    by code_simp
  then have "begin_broker_request example_codecs True example_request example_limits example_journal
      = (Ok NewRequest, example_admitted)"
    unfolding example_admitted_def by (metis prod.collapse)
  from broker_request_new_once [OF this refl refl] show ?thesis .
qed

theorem broker_budget_respected_witness:
  "let rows = charges_of ''e'' (journal_run example_codecs
       [example_intent, OpBegin True example_request example_limits] journal_empty)
   in length rows \<le> 1 \<and> sum_list (map br_charged_tokens rows) \<le> 5
    \<and> sum_list (map br_charged_cost_micros rows) \<le> 9"
  using broker_budget_respected [of "[example_intent, OpBegin True example_request example_limits]" "''e''"
      example_limits example_codecs]
  by (simp add: example_limits_def example_intent_def)

theorem completed_request_replays_witness:
  "let j' = journal_run example_codecs [OpUnknown True ''e'' ''r'']
       (snd (complete_broker_request example_codecs True ''e'' ''r'' example_response example_admitted))
   in begin_broker_request example_codecs True example_request example_limits j'
      = (Ok (Replay example_response), j')"
proof -
  have find: "find (is_request ''e'' ''r'') (jn_broker example_admitted) = Some (request_row example_request)"
    by code_simp
  have fence: "execution_fence ''e'' example_admitted = Some (as_i64 7)"
    by code_simp
  have q: "bq_execution_id example_request = ''e''" "bq_request_id example_request = ''r''"
      "bq_fencing_token example_request = 7"
    by (simp_all add: example_request_def)
  show ?thesis
    using completed_request_replays [of example_request example_admitted "request_row example_request"
        example_codecs example_response "''response''"] find fence
    by (simp add: q request_row_def example_codecs_def)
qed


definition example_large_lease :: "unit execute_lease" where
  "example_large_lease = \<lparr>xl_lease = example_lease\<lparr>lc_fencing_token := 2 ^ 63\<rparr>,
     xl_definition_digest = ''x'', xl_command_template_digest = ''y''\<rparr>"

theorem large_fence_blocks_recovery_witness:
  "fst (record_intent example_codecs True example_large_lease journal_empty) = Ok True
   \<and> (\<exists>e. unfinished example_codecs (snd (record_intent example_codecs True example_large_lease journal_empty)) = Err e)"
  using large_fence_blocks_recovery [of example_large_lease journal_empty example_codecs "''lease''"]
  by (simp add: example_large_lease_def example_codecs_def journal_empty_def find_execution_def)

end
