(* ===== verification/Expr_Scanner.thy ===== *)
theory Expr_Scanner
  imports Rust_Strings
begin

text \<open>
  The template scanner of workflow expressions, \<open>crates/workflow-expression/src/scanner.rs\<close>, and the
  error type of \<open>error.rs\<close>.  A template is its UTF-8 bytes; the loops run on the bytes that remain
  and on the offset of the first of them.  Copying a character of literal text is copying its
  bytes, none of which but an ASCII one can begin an expression.
\<close>

section \<open>Errors\<close>

datatype category =
  Invalid | Unsupported | Limit | Evaluation | JsonProfile | ResultType | ProfileUnsupported

definition category_code :: "category \<Rightarrow> string" where
  "category_code c =
     (case c of
        Invalid \<Rightarrow> ''EXPRESSION_INVALID''
      | Unsupported \<Rightarrow> ''EXPRESSION_UNSUPPORTED''
      | Limit \<Rightarrow> ''EXPRESSION_LIMIT''
      | Evaluation \<Rightarrow> ''EXPRESSION_EVALUATION''
      | JsonProfile \<Rightarrow> ''EXPRESSION_JSON_PROFILE''
      | ResultType \<Rightarrow> ''EXPRESSION_RESULT_TYPE''
      | ProfileUnsupported \<Rightarrow> ''EVALUATOR_PROFILE_UNSUPPORTED'')"

datatype expr_phase = Admission | Runtime

record expression_error =
  ee_category :: category
  ee_phase :: expr_phase
  ee_span_index :: "nat option"
  ee_offset :: "nat option"

definition expression_error_new :: "category \<Rightarrow> expr_phase \<Rightarrow> expression_error" where
  "expression_error_new c p = \<lparr>ee_category = c, ee_phase = p, ee_span_index = None, ee_offset = None\<rparr>"

definition error_at :: "expression_error \<Rightarrow> nat \<Rightarrow> nat \<Rightarrow> expression_error" where
  "error_at e index offset = e\<lparr>ee_span_index := Some index, ee_offset := Some offset\<rparr>"

definition admission :: "category \<Rightarrow> expression_error" where
  "admission c = expression_error_new c Admission"

definition runtime :: "category \<Rightarrow> expression_error" where
  "runtime c = expression_error_new c Runtime"

section \<open>Expressions\<close>

datatype scan_segment =
  LiteralSegment string nat nat
| SpanSegment string nat nat nat nat

definition is_quote :: "char \<Rightarrow> bool" where
  "is_quote c \<longleftrightarrow> c = CHR 0x27 \<or> c = CHR 0x22"

definition is_raw_prefix :: "char \<Rightarrow> bool" where
  "is_raw_prefix c \<longleftrightarrow> c = CHR ''r'' \<or> c = CHR ''R''"

definition is_string_prefix :: "char \<Rightarrow> bool" where
  "is_string_prefix c \<longleftrightarrow> is_raw_prefix c \<or> c = CHR ''b'' \<or> c = CHR ''B''"

text \<open>The distance to the quote of a string literal that starts here, and whether it is raw.\<close>

definition quote_at :: "string \<Rightarrow> (nat \<times> bool) option" where
  "quote_at rest =
     (case rest of
        [] \<Rightarrow> None
      | c # _ \<Rightarrow>
          if is_quote c then Some (0, False)
          else if is_string_prefix c
          then let n = length (takeWhile is_string_prefix (take 2 rest));
                   raw = list_ex is_raw_prefix (take n rest)
               in if n < length rest \<and> is_quote (rest ! n) then Some (n, raw) else None
          else None)"

text \<open>The loop over the inside of a string literal: the bytes from behind its opening quote to behind
  its closing quote.\<close>

fun skip_string :: "bool \<Rightarrow> char \<Rightarrow> bool \<Rightarrow> string \<Rightarrow> nat option" where
  "skip_string raw q triple [] = None"
| "skip_string raw q triple (c # cs) =
     (if \<not> raw \<and> c = CHR 0x5C then map_option ((+) 2) (skip_string raw q triple (drop 1 cs))
      else if c = q \<and> (\<not> triple \<or> take 3 (c # cs) = [q, q, q]) then Some (if triple then 3 else 1)
      else map_option Suc (skip_string raw q triple cs))"

definition closer :: "char \<Rightarrow> char option" where
  "closer c =
     (if c = CHR ''('' then Some CHR '')''
      else if c = CHR ''['' then Some CHR '']''
      else if c = CHR ''{'' then Some CHR ''}''
      else None)"

definition is_closer :: "char \<Rightarrow> bool" where
  "is_closer c \<longleftrightarrow> c = CHR '')'' \<or> c = CHR '']'' \<or> c = CHR ''}''"

text \<open>One turn of the loop over an expression: fail, stop at the closing brace, or go on behind some
  bytes with a new stack of open brackets.\<close>

datatype span_step = Fail | Close | Advance nat "char list"

definition skip_literal :: "nat \<Rightarrow> bool \<Rightarrow> string \<Rightarrow> nat option" where
  "skip_literal n raw rest =
     (let q = rest ! n;
          triple = (take 3 (drop n rest) = [q, q, q]);
          width = (if triple then 3 else 1)
      in map_option ((+) (n + width)) (skip_string raw q triple (drop (n + width) rest)))"

definition bracket_turn :: "char \<Rightarrow> char list \<Rightarrow> span_step" where
  "bracket_turn c stack =
     (case closer c of
        Some d \<Rightarrow> Advance 1 (d # stack)
      | None \<Rightarrow>
          if c = CHR ''}'' \<and> stack = [] then Close
          else if is_closer c
          then (case stack of d # stack' \<Rightarrow> if d = c then Advance 1 stack' else Fail | [] \<Rightarrow> Fail)
          else Advance 1 stack)"

definition span_turn :: "string \<Rightarrow> char list \<Rightarrow> span_step" where
  "span_turn rest stack =
     (case quote_at rest of
        Some (n, raw) \<Rightarrow>
          (case skip_literal n raw rest of None \<Rightarrow> Fail | Some m \<Rightarrow> Advance m stack)
      | None \<Rightarrow>
          if starts_with rest ''//'' then Advance (length (takeWhile (\<lambda>c. c \<noteq> CHR 0x0A) rest)) stack
          else bracket_turn (hd rest) stack)"

lemma take_three: "take 3 xs = [a, b, c] \<Longrightarrow> 3 \<le> length xs"
  using length_take [of 3 xs] by simp

lemma skip_string_bound: "skip_string raw q triple cs = Some m \<Longrightarrow> m \<le> length cs"
proof (induction raw q triple cs arbitrary: m rule: skip_string.induct)
  case (2 raw q triple c cs)
  have "3 \<le> length (c # cs)" if "take 3 (c # cs) = [q, q, q]"
    using take_three [OF that] .
  with 2 show ?case
    by (cases cs) (fastforce split: if_splits)+
qed simp

lemma quote_at_bound: "quote_at rest = Some (n, raw) \<Longrightarrow> n < length rest"
  by (auto simp: quote_at_def Let_def split: list.splits if_splits)

lemma skip_literal_bound:
  assumes "skip_literal n raw rest = Some m" and "n < length rest"
  shows "0 < m \<and> m \<le> length rest"
proof -
  let ?triple = "take 3 (drop n rest) = [rest ! n, rest ! n, rest ! n]"
  define width :: nat where "width = (if ?triple then 3 else 1)"
  obtain k where k: "skip_string raw (rest ! n) ?triple (drop (n + width) rest) = Some k" "m = n + width + k"
    using assms(1) by (auto simp: skip_literal_def Let_def width_def)
  have "n + width \<le> length rest"
    using assms(2) take_three [of "drop n rest"] by (auto simp: width_def)
  then show ?thesis
    using skip_string_bound [OF k(1)] k(2) by (auto simp: width_def)
qed

lemma span_turn_advances:
  assumes "span_turn rest stack = Advance n stack'" and "rest \<noteq> []"
  shows "0 < n \<and> n \<le> length rest"
proof (cases "quote_at rest")
  case None
  then show ?thesis
    using assms length_takeWhile_le [of "\<lambda>c. c \<noteq> CHR 0x0A" rest]
    by (cases rest) (auto simp: span_turn_def bracket_turn_def split: if_splits option.splits list.splits)
next
  case (Some nr)
  then show ?thesis
    using assms quote_at_bound skip_literal_bound
    by (cases nr) (fastforce simp: span_turn_def split: option.splits)
qed

text \<open>The loop, up to the brace that closes the expression.\<close>

function scan_span :: "nat \<Rightarrow> string \<Rightarrow> char list \<Rightarrow> (category, nat \<times> string) result" where
  "scan_span i rest stack =
     (if rest = [] then Err Invalid
      else case span_turn rest stack of
        Fail \<Rightarrow> Err Invalid
      | Close \<Rightarrow> Ok (i, rest)
      | Advance n stack' \<Rightarrow> scan_span (i + n) (drop n rest) stack')"
  by pat_completeness auto
termination
  by (relation "measure (\<lambda>(i, rest, stack). length rest)") (auto dest: span_turn_advances)

declare scan_span.simps [simp del]

lemma scan_span_stops:
  assumes "scan_span i rest stack = Ok (i', rest')"
  shows "\<exists>source cs. rest = source @ CHR ''}'' # cs \<and> rest' = CHR ''}'' # cs \<and> i' = i + length source"
  using assms
proof (induction i rest stack rule: scan_span.induct)
  case (1 i rest stack)
  then have ne: "rest \<noteq> []"
    by (auto simp: scan_span.simps)
  have turn: "(case span_turn rest stack of Fail \<Rightarrow> Err Invalid | Close \<Rightarrow> Ok (i, rest)
      | Advance n stack' \<Rightarrow> scan_span (i + n) (drop n rest) stack') = Ok (i', rest')"
    using "1.prems" ne by (simp add: scan_span.simps [of i rest])
  show ?case
  proof (cases "span_turn rest stack")
    case Fail
    then show ?thesis
      using turn by simp
  next
    case Close
    then have "hd rest = CHR ''}''"
      by (auto simp: span_turn_def bracket_turn_def split: option.splits if_splits list.splits)
    then obtain cs where cs: "rest = [] @ CHR ''}'' # cs"
      using ne by (cases rest) auto
    have "rest' = CHR ''}'' # cs" "i' = i + length []"
      using turn Close cs by auto
    with cs show ?thesis
      by blast
  next
    case (Advance n stack')
    then obtain source cs where "drop n rest = source @ CHR ''}'' # cs" "rest' = CHR ''}'' # cs"
        "i' = i + n + length source"
      using "1.IH" [OF ne Advance] turn by auto
    then have "rest = (take n rest @ source) @ CHR ''}'' # cs" "rest' = CHR ''}'' # cs"
        "i' = i + length (take n rest @ source)"
      using span_turn_advances [OF Advance ne] append_take_drop_id [of n rest] by (metis append.assoc, simp, simp)
    then show ?thesis
      by blast
  qed
qed

section \<open>Templates\<close>

definition flush_literal :: "string \<Rightarrow> nat \<Rightarrow> nat \<Rightarrow> scan_segment list \<Rightarrow> scan_segment list" where
  "flush_literal lit literal_start i segments =
     (if lit \<noteq> [] then segments @ [LiteralSegment lit literal_start i] else segments)"

text \<open>An expression at offset \<open>i\<close>: its source, the offset behind its closing brace and the bytes there.\<close>

definition take_span :: "nat \<Rightarrow> string \<Rightarrow> (category, string \<times> nat \<times> string) result" where
  "take_span i rest =
     (let inner = drop 2 rest
      in if starts_with inner ''{'' then Err Unsupported
         else rtry (scan_span (i + 2) inner []) (\<lambda>(j, rest').
           let source = take (j - (i + 2)) inner
           in if trim source = [] then Err Invalid else Ok (source, j + 1, drop 1 rest')))"

lemma take_span_Ok:
  assumes "take_span i (CHR ''$'' # CHR ''{'' # cs) = Ok (source, j, rest)"
  shows "cs = source @ CHR ''}'' # rest \<and> j = i + length source + 3"
proof -
  obtain k rest' where k: "scan_span (i + 2) cs [] = Ok (k, rest')"
      "source = take (k - (i + 2)) cs" "j = k + 1" "rest = drop 1 rest'"
    using assms by (auto simp: take_span_def Let_def rtry_eq_Ok_iff split: if_splits)
  from scan_span_stops [OF k(1)] k(2-4) show ?thesis
    by auto
qed

lemma take_span_shorter:
  "take_span i rest = Ok (source, j, rest') \<Longrightarrow> starts_with rest ''${'' \<Longrightarrow> length rest' < length rest"
  using take_span_Ok [of i "drop 2 rest" source j rest'] by (auto simp: prefix_def)

function scan_loop :: "string \<Rightarrow> nat \<Rightarrow> nat \<Rightarrow> string \<Rightarrow> nat \<Rightarrow> scan_segment list \<Rightarrow>
    (expression_error, scan_segment list) result" where
  "scan_loop rest i index lit literal_start segments =
     (if rest = []
      then Ok (if lit \<noteq> [] \<or> segments = [] then segments @ [LiteralSegment lit literal_start i] else segments)
      else if starts_with rest ''$${''
      then scan_loop (drop 3 rest) (i + 3) index (lit @ ''${'') literal_start segments
      else if \<not> starts_with rest ''${''
      then scan_loop (tl rest) (i + 1) index (lit @ [hd rest]) literal_start segments
      else case take_span i rest of
        Inl c \<Rightarrow> Err (error_at (admission c) index i)
      | Inr (source, j, rest') \<Rightarrow>
          scan_loop rest' j (index + 1) [] j
            (flush_literal lit literal_start i segments @ [SpanSegment source i (i + 2) j index]))"
  by pat_completeness auto
termination
  by (relation "measure (\<lambda>(rest, i, n, lit, literal_start, segments). length rest)")
    (auto dest: take_span_shorter)

declare scan_loop.simps [simp del]

definition scan :: "string \<Rightarrow> (expression_error, scan_segment list) result" where
  "scan template = scan_loop template 0 0 [] 0 []"

section \<open>Writing a template back\<close>

fun escape :: "string \<Rightarrow> string" where
  "escape [] = []"
| "escape (c # cs) =
     (if c = CHR ''$'' \<and> starts_with cs ''{'' then CHR ''$'' # CHR ''$'' # escape cs else c # escape cs)"

definition segment_source :: "scan_segment \<Rightarrow> string" where
  "segment_source s =
     (case s of LiteralSegment t _ _ \<Rightarrow> escape t | SpanSegment source _ _ _ _ \<Rightarrow> ''${'' @ source @ ''}'')"

definition unscan :: "scan_segment list \<Rightarrow> string" where
  "unscan segments = concat (map segment_source segments)"

lemma unscan_simps [simp]:
  "unscan [] = []" "unscan (segs @ [s]) = unscan segs @ segment_source s"
  by (simp_all add: unscan_def)

lemma unscan_flush: "unscan (flush_literal lit ls i segs) = unscan segs @ escape lit"
  by (simp add: flush_literal_def segment_source_def)

definition open_dollar :: "string \<Rightarrow> bool" where
  "open_dollar lit \<longleftrightarrow> lit \<noteq> [] \<and> last lit = CHR ''$''"

lemma escape_snoc:
  "\<not> (open_dollar lit \<and> c = CHR ''{'') \<Longrightarrow> escape (lit @ [c]) = escape lit @ [c]"
  by (induction lit) (auto simp: open_dollar_def prefix_Cons split: if_splits)

lemma escape_escaped: "escape (lit @ ''${'') = escape lit @ ''$${''"
proof (induction lit)
  case (Cons c lit)
  then show ?case
    by (cases lit) auto
qed simp

text \<open>A segment stands in the template at its offsets.\<close>

definition segment_at :: "string \<Rightarrow> scan_segment \<Rightarrow> bool" where
  "segment_at template s =
     (case s of
        LiteralSegment t a b \<Rightarrow> take (b - a) (drop a template) = escape t
      | SpanSegment source a m b _ \<Rightarrow>
          take (b - a) (drop a template) = ''${'' @ source @ ''}'' \<and> m = a + 2)"

text \<open>What holds when \<open>pre\<close> has been read.\<close>

definition scanned :: "string \<Rightarrow> string \<Rightarrow> nat \<Rightarrow> string \<Rightarrow> nat \<Rightarrow> scan_segment list \<Rightarrow> bool" where
  "scanned pre rest i lit ls segs \<longleftrightarrow>
     i = length pre \<and> ls \<le> i \<and> drop ls pre = escape lit \<and> unscan segs @ escape lit = pre
     \<and> list_all (segment_at (pre @ rest)) segs \<and> \<not> (open_dollar lit \<and> starts_with rest ''{'')"

lemma scanned_flush:
  assumes "scanned pre rest i lit ls segs"
  shows "list_all (segment_at (pre @ rest)) (segs @ [LiteralSegment lit ls i])"
proof -
  have "length (escape lit) = length pre - ls" if "drop ls pre = escape lit"
    using that length_drop by metis
  then show ?thesis
    using assms by (simp add: scanned_def segment_at_def)
qed

lemma scanned_escaped:
  "scanned pre (''$${'' @ cs) i lit ls segs \<Longrightarrow> scanned (pre @ ''$${'') cs (i + 3) (lit @ ''${'') ls segs"
  by (simp add: scanned_def escape_escaped open_dollar_def)

lemma scanned_plain:
  "scanned pre (c # cs) i lit ls segs \<Longrightarrow> \<not> starts_with (c # cs) ''${'' \<Longrightarrow>
   scanned (pre @ [c]) cs (i + 1) (lit @ [c]) ls segs"
  by (auto simp: scanned_def escape_snoc open_dollar_def)

lemma scanned_span:
  assumes "scanned pre (''${'' @ source @ ''}'' @ cs) i lit ls segs" and "j = i + length source + 3"
  shows "scanned (pre @ ''${'' @ source @ ''}'') cs j [] j
    (flush_literal lit ls i segs @ [SpanSegment source i (i + 2) j n])"
proof -
  have "list_all (segment_at (pre @ ''${'' @ source @ ''}'' @ cs)) (flush_literal lit ls i segs)"
    using scanned_flush [OF assms(1)] assms(1) by (simp add: flush_literal_def scanned_def)
  then show ?thesis
    using assms by (simp add: scanned_def unscan_flush segment_source_def segment_at_def open_dollar_def numeral_3_eq_3)
qed

lemma scan_loop_scanned:
  assumes "scan_loop rest i n lit ls segs = Ok out" and "scanned pre rest i lit ls segs"
  shows "unscan out = pre @ rest \<and> list_all (segment_at (pre @ rest)) out"
  using assms
proof (induction rest i n lit ls segs arbitrary: pre rule: scan_loop.induct)
  case (1 rest i n lit ls segs)
  note run = "1.prems"(1) [unfolded scan_loop.simps [of rest i]]
  consider (nil) "rest = []"
    | (escaped) "rest \<noteq> []" "starts_with rest ''$${''"
    | (plain) "rest \<noteq> []" "\<not> starts_with rest ''$${''" "\<not> starts_with rest ''${''"
    | (span) source j rest' where "rest \<noteq> []" "\<not> starts_with rest ''$${''" "\<not> \<not> starts_with rest ''${''"
        "take_span i rest = Ok (source, j, rest')"
    using run by (auto split: if_splits sum.splits)
  then show ?case
  proof cases
    case nil
    then show ?thesis
      using run "1.prems"(2) scanned_flush [OF "1.prems"(2)]
      by (auto simp: scanned_def segment_source_def unscan_def split: if_splits)
  next
    case escaped
    then obtain cs where cs: "rest = ''$${'' @ cs"
      by (auto simp: prefix_def)
    have "scan_loop (drop 3 rest) (i + 3) n (lit @ ''${'') ls segs = Ok out"
      using run escaped by simp
    from "1.IH"(1) [OF escaped this, of "pre @ ''$${''"] scanned_escaped [OF "1.prems"(2) [unfolded cs]]
    show ?thesis
      by (simp add: cs)
  next
    case plain
    then obtain c cs where cs: "rest = c # cs"
      by (cases rest) auto
    have "scan_loop (tl rest) (i + 1) n (lit @ [hd rest]) ls segs = Ok out"
      using run plain by simp
    from "1.IH"(2) [OF plain this, of "pre @ [c]"] scanned_plain [OF "1.prems"(2) [unfolded cs]] plain(3)
    show ?thesis
      by (simp add: cs)
  next
    case span
    then obtain cs where cs: "rest = ''${'' @ cs"
      by (auto simp: prefix_def)
    have rest: "rest = ''${'' @ source @ ''}'' @ rest'" "j = i + length source + 3"
      using take_span_Ok [of i cs source j rest'] span(4) by (simp_all add: cs)
    have "scan_loop rest' j (n + 1) [] j (flush_literal lit ls i segs @ [SpanSegment source i (i + 2) j n]) = Ok out"
      using run span by simp
    from "1.IH"(3) [OF span(1-4) refl refl this scanned_span [OF "1.prems"(2) [unfolded rest(1)] rest(2)]]
    show ?thesis
      by (simp add: rest(1))
  qed
qed

section \<open>Properties\<close>

text \<open>C22: Scanning loses nothing: writing the segments of a template back, literal text with its
  dollar-brace escaped and expressions in their braces, gives the template, and every segment stands in the
  template exactly at the offsets it carries.\<close>

theorem scan_roundtrip:
  assumes "scan template = Ok segs"
  shows "unscan segs = template \<and> list_all (segment_at template) segs"
  using scan_loop_scanned [OF assms [unfolded scan_def], of "[]"]
  by (simp add: scanned_def open_dollar_def)

theorem scan_roundtrip_witness:
  "\<exists>segs. scan ''a$${b ${ f('}') } c'' = Ok segs \<and> unscan segs = ''a$${b ${ f('}') } c''
     \<and> list_all (segment_at ''a$${b ${ f('}') } c'') segs \<and> length segs = 3"
proof -
  have "scan ''a$${b ${ f('}') } c'' = Ok [LiteralSegment ''a${b '' 0 6, SpanSegment '' f('}') '' 6 8 17 0,
      LiteralSegment '' c'' 17 19]"
    by code_simp
  from scan_roundtrip [OF this] this show ?thesis
    by simp
qed

end
