(* ===== verification/Expr_Uri.thy ===== *)
theory Expr_Uri
  imports Expr_Scanner Audit_Fields Net_Addr
begin

text \<open>
  Placeholders in URI paths, \<open>crates/workflow-expression/src/uri.rs\<close>: the substitution of context
  values, \<open>encode_path_placeholders\<close>, and the static check of a template,
  \<open>validate_path_placeholders\<close>.  A URI is its UTF-8 bytes.  The source repeats the location of the
  path in both functions; it is \<open>path_bounds\<close> here.  The loops run on the bytes of the path that
  remain, and copying a character is copying its bytes.
\<close>

section \<open>Where the path is\<close>

fun find_char :: "(char \<Rightarrow> bool) \<Rightarrow> string \<Rightarrow> nat option" where
  "find_char P [] = None"
| "find_char P (c # cs) = (if P c then Some 0 else map_option Suc (find_char P cs))"

fun find_str :: "string \<Rightarrow> string \<Rightarrow> nat option" where
  "find_str p [] = (if p = [] then Some 0 else None)"
| "find_str p (c # cs) = (if starts_with (c # cs) p then Some 0 else map_option Suc (find_str p cs))"

definition is_ascii_alphabetic :: "char \<Rightarrow> bool" where
  "is_ascii_alphabetic c =
     (let n = (of_char c :: nat) in (65 \<le> n \<and> n \<le> 90) \<or> (97 \<le> n \<and> n \<le> 122))"

definition is_brace :: "char \<Rightarrow> bool" where
  "is_brace c \<longleftrightarrow> c = CHR ''{'' \<or> c = CHR ''}''"

definition slice :: "string \<Rightarrow> nat \<Rightarrow> nat \<Rightarrow> string" where
  "slice s i j = drop i (take j s)"

definition uri_fail :: "(expression_error, 'a) result" where
  "uri_fail = Err (runtime Invalid)"

definition scheme_ok :: "string \<Rightarrow> bool" where
  "scheme_ok s \<longleftrightarrow>
     s \<noteq> [] \<and> is_ascii_alphabetic (hd s)
     \<and> list_all (\<lambda>b. is_ascii_alphanumeric b \<or> b \<in> set ''+-.'') s"

definition path_prefix_end :: "string \<Rightarrow> nat \<Rightarrow> (expression_error, nat) result" where
  "path_prefix_end uri suffix_start =
     (case find_str ''://'' (take suffix_start uri) of
        Some scheme \<Rightarrow>
          if \<not> scheme_ok (take scheme uri) then uri_fail
          else Ok (case find_char (\<lambda>c. c = CHR ''/'') (slice uri (scheme + 3) suffix_start) of
                     None \<Rightarrow> suffix_start | Some i \<Rightarrow> scheme + 3 + i)
      | None \<Rightarrow>
          if starts_with uri ''//''
          then Ok (case find_char (\<lambda>c. c = CHR ''/'') (slice uri 2 suffix_start) of
                     None \<Rightarrow> suffix_start | Some i \<Rightarrow> 2 + i)
          else if CHR '':'' \<in> set (hd (split_chars ''/'' (take suffix_start uri))) then uri_fail
          else Ok 0)"

definition path_bounds :: "string \<Rightarrow> (expression_error, nat \<times> nat) result" where
  "path_bounds uri =
     (if contains_str uri ''${'' then uri_fail
      else
        let suffix_start =
              (case find_char (\<lambda>c. c = CHR ''?'' \<or> c = CHR ''#'') uri of
                 None \<Rightarrow> length uri | Some i \<Rightarrow> i)
        in rtry (path_prefix_end uri suffix_start) (\<lambda>prefix_end.
             if list_ex is_brace (take prefix_end uri) \<or> list_ex is_brace (drop suffix_start uri)
             then uri_fail
             else Ok (prefix_end, suffix_start)))"

section \<open>Substitution\<close>

definition placeholder_name_ok :: "string \<Rightarrow> bool" where
  "placeholder_name_ok name \<longleftrightarrow>
     name \<noteq> [] \<and> (is_ascii_alphabetic (hd name) \<or> hd name = CHR ''_'')
     \<and> list_all (\<lambda>b. is_ascii_alphanumeric b \<or> b = CHR ''_'') name"

text \<open>The text a context value stands for.\<close>

definition placeholder_text :: "json \<Rightarrow> string \<Rightarrow> (expression_error, string) result" where
  "placeholder_text ctx name =
     (case json_get ctx name of
        None \<Rightarrow> uri_fail
      | Some value \<Rightarrow>
          rtry (case value of
                  JString s \<Rightarrow> Ok s
                | JNumber n \<Rightarrow> (case n of JFloat _ \<Rightarrow> uri_fail | _ \<Rightarrow> Ok (show_json_number n))
                | _ \<Rightarrow> uri_fail)
            (\<lambda>t. if t \<in> {[], ''.'', ''..''} then uri_fail else Ok t))"

definition hex_digit :: "nat \<Rightarrow> char" where
  "hex_digit n = ''0123456789ABCDEF'' ! n"

definition is_unreserved :: "char \<Rightarrow> bool" where
  "is_unreserved b \<longleftrightarrow> is_ascii_alphanumeric b \<or> b \<in> set ''-._~''"

definition encode_byte :: "char \<Rightarrow> string" where
  "encode_byte b =
     (if is_unreserved b then [b]
      else let n = (of_char b :: nat) in [CHR ''%'', hex_digit (n div 16), hex_digit (n mod 16)])"

definition encode_text :: "string \<Rightarrow> string" where
  "encode_text t = concat (map encode_byte t)"

function encode_path :: "json \<Rightarrow> string \<Rightarrow> (expression_error, string) result" where
  "encode_path ctx path =
     (case path of
        [] \<Rightarrow> Ok []
      | c # cs \<Rightarrow>
          if c = CHR ''}'' then uri_fail
          else if c \<noteq> CHR ''{'' then rtry (encode_path ctx cs) (\<lambda>out. Ok (c # out))
          else
            (case split_once (CHR ''}'') cs of
               None \<Rightarrow> uri_fail
             | Some (name, rest) \<Rightarrow>
                 if \<not> placeholder_name_ok name then uri_fail
                 else rtry (placeholder_text ctx name) (\<lambda>t.
                        rtry (encode_path ctx rest) (\<lambda>out. Ok (encode_text t @ out)))))"
  by pat_completeness auto
termination
  by (relation "measure (\<lambda>(ctx, path). length path)") (auto dest!: split_once_Some)

declare encode_path.simps [simp del]

definition encode_path_placeholders :: "string \<Rightarrow> json \<Rightarrow> (expression_error, string) result" where
  "encode_path_placeholders uri ctx =
     rtry (path_bounds uri) (\<lambda>(prefix_end, suffix_start).
       rtry (encode_path ctx (slice uri prefix_end suffix_start)) (\<lambda>out.
         Ok (take prefix_end uri @ out @ drop suffix_start uri)))"

function validate_path :: "string \<Rightarrow> (expression_error, unit) result" where
  "validate_path path =
     (case path of
        [] \<Rightarrow> Ok ()
      | c # cs \<Rightarrow>
          if c = CHR ''}'' then uri_fail
          else if c \<noteq> CHR ''{'' then validate_path cs
          else
            (case split_once (CHR ''}'') cs of
               None \<Rightarrow> uri_fail
             | Some (name, rest) \<Rightarrow>
                 if \<not> placeholder_name_ok name then uri_fail else validate_path rest))"
  by pat_completeness auto
termination
  by (relation "measure length") (auto dest!: split_once_Some)

declare validate_path.simps [simp del]

definition validate_path_placeholders :: "string \<Rightarrow> (expression_error, unit) result" where
  "validate_path_placeholders uri =
     rtry (path_bounds uri) (\<lambda>(prefix_end, suffix_start).
       validate_path (slice uri prefix_end suffix_start))"

section \<open>The path lies inside the URI\<close>

lemma find_char_Some:
  "find_char P s = Some i \<Longrightarrow> i < length s \<and> P (s ! i) \<and> (\<forall>c \<in> set (take i s). \<not> P c)"
  by (induction s arbitrary: i) (auto split: if_splits)

lemma find_char_None: "find_char P s = None \<longleftrightarrow> (\<forall>c \<in> set s. \<not> P c)"
  by (induction s) auto

lemma find_str_Some: "find_str p s = Some i \<Longrightarrow> i + length p \<le> length s"
  by (induction s arbitrary: i) (fastforce split: if_splits dest: prefix_length_le)+

lemma find_slash_le:
  assumes "k \<le> m" and "m \<le> length uri"
  shows "(case find_char P (slice uri k m) of None \<Rightarrow> m | Some i \<Rightarrow> k + i) \<le> m"
proof (cases "find_char P (slice uri k m)")
  case (Some i)
  from find_char_Some [OF this] have "i < m - k"
    using assms by (simp add: slice_def)
  with Some show ?thesis by simp
qed simp

lemma path_prefix_end_le:
  assumes "path_prefix_end uri m = Ok n" and m: "m \<le> length uri"
    and stop: "m < length uri \<Longrightarrow> uri ! m \<noteq> CHR ''/''"
  shows "n \<le> m"
proof (cases "find_str ''://'' (take m uri)")
  case None
  have "2 \<le> m" if "starts_with uri ''//''"
  proof -
    from that obtain t where t: "uri = ''//'' @ t" by (auto elim: prefixE)
    have "m \<noteq> 0" using stop t by (cases "m = 0") auto
    moreover have "m \<noteq> 1" using stop t by (cases "m = 1") auto
    ultimately show ?thesis by simp
  qed
  with None assms(1) find_slash_le [of 2 m uri] m show ?thesis
    unfolding path_prefix_end_def uri_fail_def by (auto split: if_splits)
next
  case (Some k)
  from find_str_Some [OF this] m have "k + 3 \<le> m" by simp
  with Some assms(1) find_slash_le [of "k + 3" m uri] m show ?thesis
    unfolding path_prefix_end_def uri_fail_def by (auto split: if_splits)
qed

lemma find_char_end:
  assumes "m = (case find_char P s of None \<Rightarrow> length s | Some i \<Rightarrow> i)"
  shows "m \<le> length s" "\<forall>c \<in> set (take m s). \<not> P c" "m < length s \<Longrightarrow> P (s ! m)"
proof -
  have "m \<le> length s \<and> (\<forall>c \<in> set (take m s). \<not> P c) \<and> (m < length s \<longrightarrow> P (s ! m))"
  proof (cases "find_char P s")
    case None
    with assms show ?thesis by (simp add: find_char_None)
  next
    case (Some i)
    with assms find_char_Some [OF this] show ?thesis by simp
  qed
  then show "m \<le> length s" "\<forall>c \<in> set (take m s). \<not> P c" "m < length s \<Longrightarrow> P (s ! m)" by blast+
qed

lemma path_bounds_Ok:
  assumes "path_bounds uri = Ok (i, j)"
  shows "i \<le> j \<and> j \<le> length uri
     \<and> (\<forall>c \<in> set (take j uri). c \<noteq> CHR ''?'' \<and> c \<noteq> CHR ''#'')
     \<and> \<not> list_ex is_brace (take i uri) \<and> \<not> list_ex is_brace (drop j uri)"
proof -
  define m where "m = (case find_char (\<lambda>c. c = CHR ''?'' \<or> c = CHR ''#'') uri of
                         None \<Rightarrow> length uri | Some i \<Rightarrow> i)"
  note m = find_char_end [OF m_def]
  from assms have p: "j = m" "path_prefix_end uri m = Ok i"
    "\<not> list_ex is_brace (take i uri)" "\<not> list_ex is_brace (drop m uri)"
    unfolding path_bounds_def m_def [symmetric] Let_def
    by (auto simp: rtry_eq_Ok_iff uri_fail_def split: if_splits)
  have "uri ! m \<noteq> CHR ''/''" if "m < length uri"
    using m(3) [OF that] by auto
  from path_prefix_end_le [OF p(2) m(1) this] have "i \<le> m" .
  with m(1,2) p show ?thesis by simp
qed

lemma slice_cut: "i \<le> j \<Longrightarrow> j \<le> length s \<Longrightarrow> s = take i s @ slice s i j @ drop j s"
  unfolding slice_def by (metis append.assoc append_take_drop_id min.absorb1 take_take)

section \<open>What a value can become\<close>



lemma hex_digit_alnum: "n < 16 \<Longrightarrow> is_ascii_alphanumeric (hex_digit n)"
proof -
  have "\<forall>n < 16. is_ascii_alphanumeric (hex_digit n)"
    by (simp add: hex_digit_def is_ascii_alphanumeric_def Let_def numeral_eq_Suc All_less_Suc)
  then show "n < 16 \<Longrightarrow> is_ascii_alphanumeric (hex_digit n)" by blast
qed

lemma encode_byte_chars:
  assumes "c \<in> set (encode_byte b)"
  shows "is_unreserved c \<or> c = CHR ''%''"
proof -
  have "(of_char b :: nat) div 16 < 16"
    using nat_of_char_less_256 [of b] by (simp add: div_less_iff_less_mult)
  with assms show ?thesis
    by (auto simp: encode_byte_def Let_def is_unreserved_def hex_digit_alnum split: if_splits)
qed

lemma encode_text_chars:
  "c \<in> set (encode_text t) \<Longrightarrow> c \<notin> set ''/?#{}:''"
  unfolding encode_text_def
  by (auto dest!: encode_byte_chars simp: is_unreserved_def is_ascii_alphanumeric_def)

lemma encode_byte_not_Nil [simp]: "encode_byte b \<noteq> []"
  by (simp add: encode_byte_def Let_def)

lemma encode_byte_dot: "encode_byte b = CHR ''.'' # u \<Longrightarrow> b = CHR ''.'' \<and> u = []"
  by (auto simp: encode_byte_def Let_def split: if_splits)

lemma encode_text_simps [simp]:
  "encode_text [] = []"
  "encode_text (b # t) = encode_byte b @ encode_text t"
  by (simp_all add: encode_text_def)

lemma encode_text_dots: "encode_text t = replicate n (CHR ''.'') \<Longrightarrow> t = replicate n (CHR ''.'')"
proof (induction t arbitrary: n)
  case (Cons b t)
  from Cons.prems obtain m where n: "n = Suc m" by (cases n) auto
  with Cons.prems have "hd (encode_byte b) = CHR ''.''" by (cases "encode_byte b") auto
  then have "encode_byte b = CHR ''.'' # tl (encode_byte b)" by (metis encode_byte_not_Nil list.collapse)
  then have b: "b = CHR ''.''" "tl (encode_byte b) = []" using encode_byte_dot by blast+
  then have "encode_byte b = ''.''" by (simp add: encode_byte_def is_unreserved_def)
  with Cons.prems n b Cons.IH [of m] show ?case by simp
qed simp

text \<open>No admitted value is encoded as an empty or a dot segment.\<close>

definition plain_text :: "string \<Rightarrow> bool" where
  "plain_text s \<longleftrightarrow> s \<notin> {[], ''.'', ''..''}"

lemma plain_text_encode: "plain_text t \<Longrightarrow> plain_text (encode_text t)"
  using encode_text_dots [of t 0] encode_text_dots [of t 1] encode_text_dots [of t 2]
  by (auto simp: plain_text_def numeral_2_eq_2)

lemma placeholder_text_plain: "placeholder_text ctx name = Ok t \<Longrightarrow> plain_text t"
  unfolding placeholder_text_def plain_text_def
  by (auto simp: rtry_eq_Ok_iff uri_fail_def split: option.splits if_splits)

lemma plain_text_Cons: "plain_text s \<Longrightarrow> plain_text (c # s)"
  by (auto simp: plain_text_def)

lemma plain_text_append: "plain_text s \<Longrightarrow> plain_text (s @ u)"
  by (cases s) (auto simp: plain_text_def append_eq_Cons_conv Cons_eq_append_conv)

text \<open>The substitution segment by segment: one without a placeholder is kept, one with a
  placeholder does not become an empty or a dot segment and gets no colon from a value.\<close>

definition segment_kept :: "string \<Rightarrow> string \<Rightarrow> bool" where
  "segment_kept p e \<longleftrightarrow>
     (if CHR ''{'' \<in> set p then plain_text e \<and> (CHR '':'' \<in> set e \<longrightarrow> CHR '':'' \<in> set p) else e = p)"

lemma split_chars_prepend:
  "set s \<inter> set cs = {} \<Longrightarrow>
   split_chars cs (s @ t) = (s @ hd (split_chars cs t)) # tl (split_chars cs t)"
proof (induction s)
  case Nil
  show ?case by simp
next
  case (Cons c s)
  then show ?case by simp
qed

lemma list_all2_hd_tl: "list_all2 R xs ys \<Longrightarrow> xs \<noteq> [] \<Longrightarrow> R (hd xs) (hd ys) \<and> list_all2 R (tl xs) (tl ys)"
  by (auto simp: list_all2_Cons1 neq_Nil_conv)

lemma placeholder_name_chars:
  "placeholder_name_ok name \<Longrightarrow> CHR ''/'' \<notin> set name"
  by (auto simp: placeholder_name_ok_def list_all_iff is_ascii_alphanumeric_def)

lemma encode_path_Nil [simp]: "encode_path ctx [] = Ok []"
  by (simp add: encode_path.simps)

lemmas encode_path_Cons = encode_path.simps [of _ "c # cs" for c cs, unfolded list.case]

lemma encode_path_ConsE:
  assumes "encode_path ctx (c # cs) = Ok out"
  obtains (literal) u where "c \<noteq> CHR ''{''" "c \<noteq> CHR ''}''" "encode_path ctx cs = Ok u" "out = c # u"
  | (placeholder) name rest t u where "c = CHR ''{''" "cs = name @ CHR ''}'' # rest"
      "placeholder_name_ok name" "placeholder_text ctx name = Ok t" "encode_path ctx rest = Ok u"
      "out = encode_text t @ u"
proof -
  note [simp] = encode_path_Cons rtry_eq_Ok_iff uri_fail_def
  show ?thesis
  proof (cases "c = CHR ''{''")
    case True
    with assms show ?thesis
      by (auto split: option.splits if_splits dest!: split_once_Some intro: placeholder)
  next
    case False
    with assms show ?thesis by (auto split: if_splits intro: literal)
  qed
qed

lemma encode_path_Ok_induct [consumes 1, case_names Nil Literal Placeholder]:
  assumes "encode_path ctx path = Ok out"
    and "P [] []"
    and "\<And>c cs u. c \<noteq> CHR ''{'' \<Longrightarrow> c \<noteq> CHR ''}'' \<Longrightarrow> encode_path ctx cs = Ok u \<Longrightarrow> P cs u \<Longrightarrow> P (c # cs) (c # u)"
    and "\<And>name rest t u. placeholder_name_ok name \<Longrightarrow> placeholder_text ctx name = Ok t \<Longrightarrow>
           encode_path ctx rest = Ok u \<Longrightarrow> P rest u \<Longrightarrow> P (CHR ''{'' # name @ CHR ''}'' # rest) (encode_text t @ u)"
  shows "P path out"
  using assms(1)
proof (induction path arbitrary: out rule: length_induct)
  case (1 path)
  show ?case
  proof (cases path)
    case Nil
    with "1.prems" assms(2) show ?thesis by simp
  next
    case (Cons c cs)
    with "1.prems" have "encode_path ctx (c # cs) = Ok out" by simp
    then show ?thesis
    proof (cases rule: encode_path_ConsE)
      case (literal u)
      with "1.IH" Cons show ?thesis by (auto intro: assms(3))
    next
      case (placeholder name rest t u)
      with "1.IH" Cons show ?thesis by (auto intro: assms(4))
    qed
  qed
qed

lemma placeholder_text_encoded:
  assumes "placeholder_text ctx name = Ok t"
  shows "plain_text (encode_text t)" "encode_text t \<noteq> []"
  using placeholder_text_plain [OF assms] plain_text_encode [of t] by (auto simp: plain_text_def)

lemma encode_path_segments:
  "encode_path ctx path = Ok out \<Longrightarrow>
   list_all2 segment_kept (split_chars ''/'' path) (split_chars ''/'' out)"
proof (induction rule: encode_path_Ok_induct)
  case Nil
  show ?case by (simp add: segment_kept_def)
next
  case (Literal c cs u)
  from list_all2_hd_tl [OF Literal(4)] Literal show ?case
    using split_chars_prepend [of "[c]" "''/''"]
    by (cases "c = CHR ''/''") (auto simp: segment_kept_def plain_text_Cons)
next
  case (Placeholder name rest t u)
  let ?p = "CHR ''{'' # name @ ''}''"
  have "split_chars ''/'' (?p @ rest) = (?p @ hd (split_chars ''/'' rest)) # tl (split_chars ''/'' rest)"
    using placeholder_name_chars [OF Placeholder(1)] by (intro split_chars_prepend) auto
  moreover have "split_chars ''/'' (encode_text t @ u) =
          (encode_text t @ hd (split_chars ''/'' u)) # tl (split_chars ''/'' u)"
    using encode_text_chars by (intro split_chars_prepend) auto
  ultimately show ?case
    using list_all2_hd_tl [OF Placeholder(4)] encode_text_chars [of "CHR '':''" t]
      placeholder_text_encoded(1) [OF Placeholder(2)]
    by (auto simp: segment_kept_def plain_text_append split: if_splits)
qed

lemma encode_path_chars:
  "encode_path ctx path = Ok out \<Longrightarrow> c \<in> set out \<Longrightarrow> c \<in> set ''?#{}'' \<Longrightarrow> c \<in> set path \<and> \<not> is_brace c"
proof (induction rule: encode_path_Ok_induct)
  case (Placeholder name rest t u)
  then show ?case using encode_text_chars [of c t] by auto
qed (auto simp: is_brace_def)

section \<open>The encoded URI has the structure of its template\<close>

text \<open>A slash or a colon of the encoded path is one of the template, at the same place.\<close>

lemma encode_path_literal:
  assumes "encode_path ctx path = Ok (c # out)" and "c \<in> set ''/:''"
  shows "\<exists>cs. path = c # cs \<and> encode_path ctx cs = Ok out"
proof (cases path)
  case Nil
  with assms show ?thesis by simp
next
  case (Cons x cs)
  with assms(1) have "encode_path ctx (x # cs) = Ok (c # out)" by simp
  then show ?thesis
  proof (cases rule: encode_path_ConsE)
    case (literal u)
    with Cons show ?thesis by simp
  next
    case (placeholder name rest t u)
    from placeholder(6) placeholder_text_encoded(2) [OF placeholder(4)]
    have "c \<in> set (encode_text t)" by (cases "encode_text t") auto
    with encode_text_chars [of c t] assms(2) show ?thesis by auto
  qed
qed

lemma encode_path_starts:
  "encode_path ctx path = Ok out \<Longrightarrow> prefix p out \<Longrightarrow> set p \<subseteq> set ''/:'' \<Longrightarrow> prefix p path"
proof (induction p arbitrary: path out)
  case (Cons c p)
  from Cons.prems(2) obtain u where u: "out = c # u" "prefix p u" by (auto elim!: prefixE)
  with Cons.prems obtain cs where "path = c # cs" "encode_path ctx cs = Ok u"
    using encode_path_literal [of ctx path c u] by auto
  with Cons u show ?case by auto
qed simp

lemma encode_path_no_braces:
  "\<not> list_ex is_brace pre \<Longrightarrow>
   encode_path ctx (pre @ path) = rtry (encode_path ctx path) (\<lambda>out. Ok (pre @ out))"
proof (induction pre)
  case Nil
  show ?case by (cases "encode_path ctx path") auto
next
  case (Cons c pre)
  then show ?case
    by (cases "encode_path ctx path") (auto simp: encode_path_Cons is_brace_def)
qed

lemma find_str_colon_append:
  "CHR '':'' \<notin> set s \<Longrightarrow>
   find_str (CHR '':'' # p) (s @ u) = None \<longleftrightarrow> find_str (CHR '':'' # p) u = None"
  by (induction s) auto

lemma find_str_suffix: "find_str p (s @ t) = None \<Longrightarrow> find_str p t = None"
  by (induction s) (auto split: if_splits)

lemma encode_path_no_scheme:
  "encode_path ctx path = Ok out \<Longrightarrow> find_str ''://'' path = None \<Longrightarrow> find_str ''://'' out = None"
proof (induction rule: encode_path_Ok_induct)
  case (Literal c cs u)
  then have "encode_path ctx (c # cs) = Ok (c # u)" by (simp add: encode_path_Cons)
  from encode_path_starts [OF this, of "''://''"] Literal show ?case by (auto split: if_splits)
next
  case (Placeholder name rest t u)
  have "find_str ''://'' ((CHR ''{'' # name @ ''}'') @ rest) = None"
    using Placeholder.prems by simp
  from find_str_suffix [OF this] Placeholder encode_text_chars [of "CHR '':''" t]
  show ?case by (subst find_str_colon_append) auto
qed simp

lemma find_str_keep:
  "find_str p (pre @ x) = Some k \<Longrightarrow> k + length p \<le> length pre \<Longrightarrow> find_str p (pre @ y) = Some k"
proof (induction pre arbitrary: k)
  case Nil
  then show ?case by (cases y) auto
next
  case (Cons c pre)
  have "prefix p (c # pre @ z) \<longleftrightarrow> prefix p (c # pre)" if "length p \<le> length (c # pre)" for z
    using that prefix_length_prefix [of p "c # pre @ z" "c # pre"] by (auto intro: prefix_prefix [of p "c # pre" z, simplified])
  with Cons show ?case by (auto split: if_splits)
qed

lemma find_char_skip:
  "(\<forall>c \<in> set s. \<not> P c) \<Longrightarrow> find_char P (s @ u) = map_option (\<lambda>i. length s + i) (find_char P u)"
  by (induction s; cases "find_char P u") auto

lemma find_char_stops:
  assumes "\<forall>c \<in> set s. \<not> P c" and "u = [] \<or> P (hd u)"
  shows "(case find_char P (s @ u) of None \<Rightarrow> length (s @ u) | Some i \<Rightarrow> i) = length s"
  using assms(2) find_char_skip [OF assms(1), of u] by (cases u) auto

text \<open>The path that begins at the first slash after position \<open>k\<close>.\<close>

lemma find_slash_cut:
  assumes "k \<le> length pre" and "path \<noteq> []"
  shows "(case find_char (\<lambda>c. c = CHR ''/'') (drop k pre @ path) of
            None \<Rightarrow> length (pre @ path) | Some i \<Rightarrow> k + i) = length pre
     \<longleftrightarrow> CHR ''/'' \<notin> set (drop k pre) \<and> hd path = CHR ''/''"
proof -
  let ?P = "\<lambda>c. c = CHR ''/''"
  have early: "\<exists>i < length s. find_char ?P (s @ path) = Some i" if "CHR ''/'' \<in> set s" for s
    using that by (induction s) auto
  show ?thesis
  proof (cases "CHR ''/'' \<in> set (drop k pre)")
    case True
    with early [of "drop k pre"] assms(1) show ?thesis by auto
  next
    case False
    from assms(2) obtain c cs where path: "path = c # cs" by (cases path) auto
    from False have "\<forall>c \<in> set (drop k pre). \<not> ?P c" by auto
    from find_char_skip [OF this, of path] False assms(1) path show ?thesis
      by (auto split: option.splits)
  qed
qed

lemma path_prefix_end_simps:
  "path_prefix_end (pre @ path @ suf) (length (pre @ path)) =
     (case find_str ''://'' (pre @ path) of
        Some k \<Rightarrow>
          if \<not> scheme_ok (take k (pre @ path @ suf)) then uri_fail
          else Ok (case find_char (\<lambda>c. c = CHR ''/'') (drop (k + 3) (pre @ path)) of
                     None \<Rightarrow> length (pre @ path) | Some i \<Rightarrow> k + 3 + i)
      | None \<Rightarrow>
          if starts_with (pre @ path @ suf) ''//''
          then Ok (case find_char (\<lambda>c. c = CHR ''/'') (drop 2 (pre @ path)) of
                     None \<Rightarrow> length (pre @ path) | Some i \<Rightarrow> 2 + i)
          else if CHR '':'' \<in> set (hd (split_chars ''/'' (pre @ path))) then uri_fail
          else Ok 0)"
proof -
  have cut: "take (length (pre @ path)) (pre @ path @ suf) = pre @ path" by simp
  show ?thesis unfolding path_prefix_end_def slice_def cut ..
qed

lemma find_slash_after: "(case find_char P s of None \<Rightarrow> n | Some i \<Rightarrow> k + i) = m \<Longrightarrow> m < n \<Longrightarrow> k \<le> m"
  by (auto split: option.splits)

lemma find_slash_encoded:
  assumes enc: "encode_path ctx path = Ok enc" and ne: "path \<noteq> []" and k: "k \<le> length pre"
    and cut: "(case find_char (\<lambda>c. c = CHR ''/'') (drop k (pre @ path)) of
                 None \<Rightarrow> length (pre @ path) | Some i \<Rightarrow> k + i) = length pre"
  shows "(case find_char (\<lambda>c. c = CHR ''/'') (drop k (pre @ enc)) of
            None \<Rightarrow> length (pre @ enc) | Some i \<Rightarrow> k + i) = length pre"
proof -
  have slash: "CHR ''/'' \<notin> set (drop k pre)" "hd path = CHR ''/''"
    using cut find_slash_cut [OF k ne] k by simp_all
  with ne enc have "hd enc = CHR ''/'' \<and> enc \<noteq> []"
    by (cases path) (auto elim: encode_path_ConsE)
  with slash show ?thesis using find_slash_cut [OF k, of enc] k by simp
qed

lemma path_prefix_end_relative:
  assumes enc: "encode_path ctx path = Ok enc" and suf: "suf = [] \<or> hd suf \<noteq> CHR ''/''"
    and "\<not> starts_with (path @ suf) ''//''" and "CHR '':'' \<notin> set (hd (split_chars ''/'' path))"
  shows "\<not> starts_with (enc @ suf) ''//''" "CHR '':'' \<notin> set (hd (split_chars ''/'' enc))"
proof -
  show "\<not> starts_with (enc @ suf) ''//''"
  proof
    assume "starts_with (enc @ suf) ''//''"
    with suf have "starts_with enc ''//''"
      by (cases enc rule: remdups_adj.cases; cases suf) auto
    from encode_path_starts [OF enc this] assms(3) show False by (auto elim!: prefixE)
  qed
  show "CHR '':'' \<notin> set (hd (split_chars ''/'' enc))"
    using list_all2_hd_tl [OF encode_path_segments [OF enc]] assms(4)
    by (auto simp: segment_kept_def split: if_splits)
qed

lemma path_prefix_end_encoded:
  assumes enc: "encode_path ctx path = Ok enc" and braces: "\<not> list_ex is_brace pre"
    and ends: "path_prefix_end (pre @ path @ suf) (length (pre @ path)) = Ok (length pre)"
    and suf: "suf = [] \<or> hd suf \<noteq> CHR ''/''" and ne: "path \<noteq> []"
  shows "path_prefix_end (pre @ enc @ suf) (length (pre @ enc)) = Ok (length pre)"
proof (cases "find_str ''://'' (pre @ path)")
  case (Some k)
  with ends have eq: "scheme_ok (take k (pre @ path @ suf))"
    "(case find_char (\<lambda>c. c = CHR ''/'') (drop (k + 3) (pre @ path)) of
        None \<Rightarrow> length (pre @ path) | Some i \<Rightarrow> k + 3 + i) = length pre"
    unfolding path_prefix_end_simps by (auto simp: uri_fail_def split: if_splits)
  from find_slash_after [OF eq(2)] ne have k: "k + 3 \<le> length pre" by simp
  with Some have "find_str ''://'' (pre @ enc) = Some k"
    by (auto intro: find_str_keep)
  then show ?thesis
    unfolding path_prefix_end_simps using find_slash_encoded [OF enc ne k eq(2)] eq(1) k by simp
next
  case None
  have none: "find_str ''://'' (pre @ enc) = None"
    using encode_path_no_scheme [OF _ None, of ctx "pre @ enc"] encode_path_no_braces [OF braces] enc
    by simp
  show ?thesis
  proof (cases "starts_with (pre @ path @ suf) ''//''")
    case True
    with None ends have eq: "(case find_char (\<lambda>c. c = CHR ''/'') (drop 2 (pre @ path)) of
        None \<Rightarrow> length (pre @ path) | Some i \<Rightarrow> 2 + i) = length pre"
      unfolding path_prefix_end_simps by simp
    from find_slash_after [OF eq] ne have k: "2 \<le> length pre" by simp
    with True have "starts_with (pre @ enc @ suf) ''//''"
      by (cases pre rule: remdups_adj.cases) auto
    with none find_slash_encoded [OF enc ne k eq] show ?thesis unfolding path_prefix_end_simps by simp
  next
    case False
    with None ends have "pre = []" "CHR '':'' \<notin> set (hd (split_chars ''/'' path))"
      unfolding path_prefix_end_simps by (auto simp: uri_fail_def split: if_splits)
    with path_prefix_end_relative [OF enc suf] False none show ?thesis
      unfolding path_prefix_end_simps by simp
  qed
qed

lemma contains_str_chars: "contains_str s p \<Longrightarrow> set p \<subseteq> set s"
  by (auto simp: contains_str_def list_ex_iff prefix_def suffix_def)

text \<open>The bounds of a URI that consists of a prefix, a path and a suffix.\<close>

definition uri_parts :: "string \<Rightarrow> string \<Rightarrow> string \<Rightarrow> string \<Rightarrow> bool" where
  "uri_parts uri pre path suf \<longleftrightarrow>
     uri = pre @ path @ suf \<and> path_bounds uri = Ok (length pre, length (pre @ path))"

lemma path_bounds_parts:
  assumes "path_bounds uri = Ok (i, j)"
  shows "uri_parts uri (take i uri) (slice uri i j) (drop j uri)"
  using path_bounds_Ok [OF assms] slice_cut [of i j uri] assms
  by (simp add: uri_parts_def slice_def)

lemma uri_partsD:
  assumes "uri_parts uri pre path suf"
  shows "\<forall>c \<in> set (pre @ path). c \<noteq> CHR ''?'' \<and> c \<noteq> CHR ''#''"
    "\<not> list_ex is_brace pre" "\<not> list_ex is_brace suf"
    "suf = [] \<or> hd suf = CHR ''?'' \<or> hd suf = CHR ''#''"
    "path_prefix_end uri (length (pre @ path)) = Ok (length pre)"
proof -
  note b = assms [unfolded uri_parts_def]
  from path_bounds_Ok [of uri "length pre" "length (pre @ path)"] b
  show "\<forall>c \<in> set (pre @ path). c \<noteq> CHR ''?'' \<and> c \<noteq> CHR ''#''"
    "\<not> list_ex is_brace pre" "\<not> list_ex is_brace suf" by auto
  define m where "m = (case find_char (\<lambda>c. c = CHR ''?'' \<or> c = CHR ''#'') uri of
                         None \<Rightarrow> length uri | Some i \<Rightarrow> i)"
  from b have p: "m = length (pre @ path)" "path_prefix_end uri m = Ok (length pre)"
    unfolding path_bounds_def m_def [symmetric] Let_def
    by (auto simp: rtry_eq_Ok_iff uri_fail_def split: if_splits)
  then show "path_prefix_end uri (length (pre @ path)) = Ok (length pre)" by simp
  show "suf = [] \<or> hd suf = CHR ''?'' \<or> hd suf = CHR ''#''"
    using find_char_end(3) [OF m_def] p(1) b by (cases suf) (auto simp: nth_append)
qed

lemma uri_parts_encoded:
  assumes parts: "uri_parts uri pre path suf" and enc: "encode_path ctx path = Ok enc"
  shows "uri_parts (pre @ enc @ suf) pre enc suf"
proof (cases "path = []")
  case True
  with assms show ?thesis by (auto simp: uri_parts_def)
next
  case False
  note d = uri_partsD [OF parts]
  have uri: "uri = pre @ path @ suf" using parts by (simp add: uri_parts_def)
  have braces: "CHR ''{'' \<notin> set (pre @ enc @ suf)"
    using d(2,3) encode_path_chars [OF enc, of "CHR ''{''"] by (auto simp: list_ex_iff is_brace_def)
  then have open_free: "\<not> contains_str (pre @ enc @ suf) ''${''"
    using contains_str_chars [of "pre @ enc @ suf" "''${''"] by auto
  have "\<forall>c \<in> set (pre @ enc). \<not> (c = CHR ''?'' \<or> c = CHR ''#'')"
    using d(1) encode_path_chars [OF enc] by auto
  from find_char_stops [OF this d(4)]
  have stop: "(case find_char (\<lambda>c. c = CHR ''?'' \<or> c = CHR ''#'') (pre @ enc @ suf) of
                 None \<Rightarrow> length (pre @ enc @ suf) | Some i \<Rightarrow> i) = length (pre @ enc)" by (simp only: append_assoc)
  from d(4) have "suf = [] \<or> hd suf \<noteq> CHR ''/''" by auto
  from path_prefix_end_encoded [OF enc d(2) d(5) [unfolded uri] this False]
  have "path_prefix_end (pre @ enc @ suf) (length (pre @ enc)) = Ok (length pre)" .
  then show ?thesis
    unfolding uri_parts_def path_bounds_def Let_def stop using open_free d(2,3) by simp
qed

lemma encode_path_placeholders_Ok:
  assumes "encode_path_placeholders uri ctx = Ok out"
  obtains pre path enc suf where "uri_parts uri pre path suf" "encode_path ctx path = Ok enc"
    "out = pre @ enc @ suf"
proof -
  from assms obtain i j enc where "path_bounds uri = Ok (i, j)"
    "encode_path ctx (slice uri i j) = Ok enc" "out = take i uri @ enc @ drop j uri"
    by (auto simp: encode_path_placeholders_def rtry_eq_Ok_iff)
  then show thesis using path_bounds_parts that by blast
qed

text \<open>C2: Placeholder values cannot change the structure of a URI.  When the substitution succeeds,
  the result read with the same rules has the prefix (scheme and authority) and the suffix (query
  and fragment) of the template, its path has as many segments, a segment without a placeholder is
  the one of the template, and a segment with a placeholder is neither empty nor a dot segment.\<close>

theorem placeholders_keep_structure:
  assumes "encode_path_placeholders uri ctx = Ok out"
  shows "\<exists>pre path enc suf.
           uri_parts uri pre path suf \<and> uri_parts out pre enc suf
           \<and> list_all2 segment_kept (split_chars ''/'' path) (split_chars ''/'' enc)"
  using assms
proof (rule encode_path_placeholders_Ok)
  fix pre path enc suf
  assume "uri_parts uri pre path suf" "encode_path ctx path = Ok enc" "out = pre @ enc @ suf"
  then show ?thesis using uri_parts_encoded encode_path_segments by blast
qed

theorem placeholders_keep_structure_witness:
  "encode_path_placeholders ''https://h/a/{id}?q'' (JObject [(''id'', JString ''../x?y'')])
     = Ok ''https://h/a/..%2Fx%3Fy?q''
   \<and> (\<exists>pre path enc suf.
        uri_parts ''https://h/a/{id}?q'' pre path suf
        \<and> uri_parts ''https://h/a/..%2Fx%3Fy?q'' pre enc suf
        \<and> list_all2 segment_kept (split_chars ''/'' path) (split_chars ''/'' enc))"
proof -
  have run: "encode_path_placeholders ''https://h/a/{id}?q'' (JObject [(''id'', JString ''../x?y'')])
     = Ok ''https://h/a/..%2Fx%3Fy?q''" by code_simp
  from run placeholders_keep_structure [OF run] show ?thesis by blast
qed

section \<open>Encoded values can be decoded\<close>

fun percent_decode :: "string \<Rightarrow> string" where
  "percent_decode (c # h # l # t) =
     (if c = CHR ''%'' then
        (case (hex_val h, hex_val l) of
           (Some a, Some b) \<Rightarrow> char_of (16 * a + b) # percent_decode t
         | _ \<Rightarrow> c # percent_decode (h # l # t))
      else c # percent_decode (h # l # t))"
| "percent_decode s = s"

lemma percent_decode_plain: "c \<noteq> CHR ''%'' \<Longrightarrow> percent_decode (c # t) = c # percent_decode t"
  by (cases t rule: remdups_adj.cases) auto

lemma hex_val_digit: "n < 16 \<Longrightarrow> hex_val (hex_digit n) = Some n"
proof -
  have "\<forall>n < 16. hex_val (hex_digit n) = Some n"
    by (simp add: hex_digit_def hex_val_def Let_def numeral_eq_Suc All_less_Suc)
  then show "n < 16 \<Longrightarrow> hex_val (hex_digit n) = Some n" by blast
qed

lemma decode_encode_text: "percent_decode (encode_text t) = t"
proof (induction t)
  case (Cons b t)
  have high: "(of_char b :: nat) div 16 < 16"
    using nat_of_char_less_256 [of b] by (simp add: div_less_iff_less_mult)
  show ?case
  proof (cases "is_unreserved b")
    case True
    then have "b \<noteq> CHR ''%''" by (auto simp: is_unreserved_def is_ascii_alphanumeric_def)
    with True Cons show ?thesis by (simp add: encode_byte_def percent_decode_plain)
  next
    case False
    with high Cons show ?thesis by (simp add: encode_byte_def Let_def hex_val_digit)
  qed
qed simp

section \<open>Admission and substitution agree\<close>

text \<open>The names a path asks for.\<close>

definition path_names :: "string \<Rightarrow> string list" where
  "path_names path = map fst (List.map_filter (split_once (CHR ''}'')) (tl (split_chars ''{'' path)))"

lemma path_names_literal: "c \<noteq> CHR ''{'' \<Longrightarrow> path_names (c # cs) = path_names cs"
  using split_chars_prepend [of "[c]" "''{''" cs] by (simp add: path_names_def)

lemma path_names_placeholder:
  assumes "set name \<inter> set ''{}'' = {}"
  shows "path_names (CHR ''{'' # name @ CHR ''}'' # rest) = name # path_names rest"
proof -
  have "split_chars ''{'' ((name @ ''}'') @ rest) =
          ((name @ ''}'') @ hd (split_chars ''{'' rest)) # tl (split_chars ''{'' rest)"
    using assms by (intro split_chars_prepend) auto
  then show ?thesis
    using assms by (simp add: path_names_def map_filter_simps split_once_append)
qed

lemma placeholder_name_braces: "placeholder_name_ok name \<Longrightarrow> set name \<inter> set ''{}'' = {}"
  by (auto simp: placeholder_name_ok_def list_all_iff is_ascii_alphanumeric_def)

lemmas validate_path_Cons = validate_path.simps [of "c # cs" for c cs, unfolded list.case]

lemma encode_path_iff_validate:
  "is_ok (encode_path ctx path) \<longleftrightarrow>
   validate_path path = Ok () \<and> (\<forall>name \<in> set (path_names path). is_ok (placeholder_text ctx name))"
proof (induction path rule: length_induct)
  case (1 path)
  show ?case
  proof (cases path)
    case Nil
    then show ?thesis by (simp add: validate_path.simps path_names_def map_filter_simps)
  next
    case (Cons c cs)
    note eqs = encode_path_Cons validate_path_Cons uri_fail_def
    show ?thesis
    proof (cases "c = CHR ''{''")
      case False
      with 1 Cons show ?thesis
        by (cases "encode_path ctx cs") (auto simp: eqs path_names_literal)
    next
      case open_brace: True
      show ?thesis
      proof (cases "\<exists>name rest. split_once (CHR ''}'') cs = Some (name, rest) \<and> placeholder_name_ok name")
        case True
        then obtain name rest where s: "split_once (CHR ''}'') cs = Some (name, rest)"
          and name: "placeholder_name_ok name" by blast
        from split_once_Some [OF s] have cs: "cs = name @ CHR ''}'' # rest" by simp
        with 1 Cons have "is_ok (encode_path ctx rest) \<longleftrightarrow> validate_path rest = Ok ()
            \<and> (\<forall>name \<in> set (path_names rest). is_ok (placeholder_text ctx name))" by simp
        moreover have "path_names path = name # path_names rest"
          using path_names_placeholder [OF placeholder_name_braces [OF name]] Cons open_brace cs by simp
        ultimately show ?thesis
          using Cons open_brace s name
          by (cases "placeholder_text ctx name"; cases "encode_path ctx rest") (auto simp: eqs)
      next
        case False
        with Cons open_brace show ?thesis by (auto simp: eqs split: option.splits)
      qed
    qed
  qed
qed

text \<open>A template that passes the static check fails at run time only for the value of one of its
  placeholders.\<close>

definition placeholder_names :: "string \<Rightarrow> string list" where
  "placeholder_names uri =
     (case path_bounds uri of Err _ \<Rightarrow> [] | Ok (i, j) \<Rightarrow> path_names (slice uri i j))"

lemma encode_iff_validate:
  "is_ok (encode_path_placeholders uri ctx) \<longleftrightarrow>
   validate_path_placeholders uri = Ok ()
   \<and> (\<forall>name \<in> set (placeholder_names uri). is_ok (placeholder_text ctx name))"
proof (cases "path_bounds uri")
  case (Inr b)
  obtain i j where "b = (i, j)" by (cases b)
  with Inr show ?thesis
    using encode_path_iff_validate [of ctx "slice uri i j"]
    by (cases "encode_path ctx (slice uri i j)")
       (simp_all add: encode_path_placeholders_def validate_path_placeholders_def placeholder_names_def)
qed (simp add: encode_path_placeholders_def validate_path_placeholders_def)

end
