(* ===== verification/Retry_Policy.thy ===== *)
theory Retry_Policy
  imports Expr_Scanner Security_Types
begin

text \<open>
  The retry policies of workflow tasks, \<open>crates/workflow-expression/src/retry_policy.rs\<close>, with the
  \<open>Diagnostic\<close> of \<open>validation.rs\<close>.  Whether the clock plus a delay can be represented is the answer
  of the \<open>chrono\<close> crate; it is the argument \<open>schedulable\<close>, a predicate on the delay.
\<close>

section \<open>Diagnostics and paths\<close>

record diagnostic =
  dg_error :: expression_error
  dg_task :: "string option"
  dg_field :: string

definition retry_error :: "string \<Rightarrow> string option \<Rightarrow> category \<Rightarrow> diagnostic" where
  "retry_error field task c =
     \<lparr>dg_error = \<lparr>ee_category = c, ee_phase = Admission, ee_span_index = None, ee_offset = None\<rparr>,
      dg_task = task, dg_field = field\<rparr>"

definition pointer_escape :: "string \<Rightarrow> string" where
  "pointer_escape key =
     concat (map (\<lambda>c. if c = CHR ''/'' then ''~1'' else [c])
       (concat (map (\<lambda>c. if c = CHR ''~'' then ''~0'' else [c]) key)))"

definition pointer_path :: "string \<Rightarrow> string \<Rightarrow> string" where
  "pointer_path parent key = parent @ ''/'' @ pointer_escape key"

section \<open>One policy\<close>

record fixed_retry =
  fr_attempts :: nat
  fr_delay_ms :: nat

definition MAX_RETRY_DELAY_MS :: nat where
  "MAX_RETRY_DELAY_MS = (2 ^ 63 - 1) div 1000"

definition policy_keys ::
  "json \<Rightarrow> string \<Rightarrow> string option \<Rightarrow> string list \<Rightarrow> (diagnostic, (string \<times> json) list) result" where
  "policy_keys value field task allowed =
     (case value of
        JObject kvs \<Rightarrow>
          rtry (try_each (\<lambda>(key, _).
                  if key \<notin> set allowed
                  then Err (retry_error (pointer_path field key) task Unsupported) else Ok ()) kvs)
            (\<lambda>_. Ok kvs)
      | _ \<Rightarrow> Err (retry_error field task Invalid))"

definition retry_count :: "json \<Rightarrow> nat option" where
  "retry_count count =
     Option.bind (json_as_u64 count) (\<lambda>n. if n < 2 ^ 16 \<and> 0 < n then Some n else None)"

definition retry_attempts ::
  "(string \<times> json) list \<Rightarrow> string \<Rightarrow> string option \<Rightarrow> (diagnostic, nat) result" where
  "retry_attempts policy field task =
     (case map_of policy ''limit'' of
        None \<Rightarrow> Ok 1
      | Some limit \<Rightarrow>
          let limit_path = pointer_path field ''limit'' in
          rtry (policy_keys limit limit_path task [''attempt'']) (\<lambda>limit.
            case map_of limit ''attempt'' of
              None \<Rightarrow> Ok 1
            | Some attempt \<Rightarrow>
                let attempt_path = pointer_path limit_path ''attempt'' in
                rtry (policy_keys attempt attempt_path task [''count'']) (\<lambda>attempt.
                  case map_of attempt ''count'' of
                    None \<Rightarrow> Ok 1
                  | Some count \<Rightarrow>
                      ok_or (retry_error (pointer_path attempt_path ''count'') task Invalid)
                        (retry_count count))))"

definition delay_units :: "(string \<times> nat) list" where
  "delay_units =
     [(''days'', 86400000), (''hours'', 3600000), (''minutes'', 60000), (''seconds'', 1000),
      (''milliseconds'', 1)]"

definition add_unit :: "nat \<Rightarrow> nat \<Rightarrow> json \<Rightarrow> nat option" where
  "add_unit delay_ms factor value =
     Option.bind (json_as_u64 value) (\<lambda>n.
     Option.bind (checked_mul n factor) (\<lambda>n.
     Option.bind (checked_add delay_ms n) (\<lambda>n.
       if n \<le> MAX_RETRY_DELAY_MS then Some n else None)))"

fun sum_units ::
  "(string \<times> json) list \<Rightarrow> string \<Rightarrow> string option \<Rightarrow> (string \<times> nat) list \<Rightarrow> nat \<Rightarrow> (diagnostic, nat) result"
where
  "sum_units delay delay_path task [] delay_ms = Ok delay_ms"
| "sum_units delay delay_path task ((unit_name, factor) # units) delay_ms =
     (case map_of delay unit_name of
        None \<Rightarrow> sum_units delay delay_path task units delay_ms
      | Some value \<Rightarrow>
          rtry (ok_or (retry_error (pointer_path delay_path unit_name) task Invalid)
                  (add_unit delay_ms factor value))
            (sum_units delay delay_path task units))"

definition retry_delay ::
  "(string \<times> json) list \<Rightarrow> string \<Rightarrow> string option \<Rightarrow> (diagnostic, nat) result" where
  "retry_delay policy field task =
     (case map_of policy ''delay'' of
        None \<Rightarrow> Ok 0
      | Some delay \<Rightarrow>
          let delay_path = pointer_path field ''delay'' in
          rtry (policy_keys delay delay_path task (map fst delay_units)) (\<lambda>delay.
            sum_units delay delay_path task delay_units 0))"

text \<open>A string names a component of \<open>/use/retries\<close>.\<close>

definition retry_source ::
  "json \<Rightarrow> json \<Rightarrow> string \<Rightarrow> string option \<Rightarrow> (diagnostic, json \<times> string) result" where
  "retry_source raw value field task =
     (case value of
        JString name \<Rightarrow>
          (case Option.bind (json_get2 raw ''use'' ''retries'') (\<lambda>v. json_get v name) of
             None \<Rightarrow> Err (retry_error field task Unsupported)
           | Some component \<Rightarrow> Ok (component, pointer_path ''/use/retries'' name))
      | _ \<Rightarrow> Ok (value, field))"

definition resolve_retry_policy ::
  "(nat \<Rightarrow> bool) \<Rightarrow> json \<Rightarrow> json \<Rightarrow> string \<Rightarrow> string option \<Rightarrow> (diagnostic, fixed_retry) result" where
  "resolve_retry_policy schedulable raw value field task =
     rtry (retry_source raw value field task) (\<lambda>(value, field).
     rtry (policy_keys value field task [''limit'', ''delay'']) (\<lambda>policy.
     rtry (retry_attempts policy field task) (\<lambda>attempts.
     rtry (retry_delay policy field task) (\<lambda>delay_ms.
       if \<not> schedulable delay_ms then Err (retry_error (pointer_path field ''delay'') task Invalid)
       else Ok \<lparr>fr_attempts = attempts, fr_delay_ms = delay_ms\<rparr>))))"

section \<open>Every policy of a definition\<close>

lemma enumerate_element: "(i, e) \<in> set (enumerate n es) \<Longrightarrow> e \<in> set es"
  by (induction es arbitrary: n) auto

lemma task_size:
  "(i, JObject kvs) \<in> set (enumerate n es) \<Longrightarrow> (name, t) \<in> set kvs \<Longrightarrow> size t < size (JArray es)"
  using element_size [OF enumerate_element, of i "JObject kvs" n es] member_size [of name t kvs] by simp

declare rtry_cong [fundef_cong] try_each_cong [fundef_cong]

definition task_retry ::
  "(nat \<Rightarrow> bool) \<Rightarrow> json \<Rightarrow> json \<Rightarrow> string \<Rightarrow> string \<Rightarrow> (diagnostic, unit) result" where
  "task_retry schedulable raw task field name =
     (case json_get task ''retry'' of
        None \<Rightarrow> Ok ()
      | Some retry \<Rightarrow>
          if Option.bind (json_get task ''call'') json_as_str \<noteq> Some ''http''
          then Err (retry_error (pointer_path field ''retry'') (Some name) Unsupported)
          else rtry (resolve_retry_policy schedulable raw retry (pointer_path field ''retry'') (Some name))
                 (\<lambda>_. Ok ()))"

function (sequential) retry_tasks ::
  "(nat \<Rightarrow> bool) \<Rightarrow> json \<Rightarrow> json \<Rightarrow> string \<Rightarrow> (diagnostic, unit) result" where
  "retry_tasks schedulable raw (JArray entries) field =
     try_each (\<lambda>(i, entry).
       case entry of
         JObject members \<Rightarrow>
           try_each (\<lambda>(name, task).
             let field = pointer_path (pointer_path field (show_nat i)) name in
             rtry (task_retry schedulable raw task field name) (\<lambda>_.
             rtry (try_each (\<lambda>key.
                     case json_get task key of
                       None \<Rightarrow> Ok ()
                     | Some children \<Rightarrow> retry_tasks schedulable raw children (pointer_path field key))
                   [''do'', ''try'']) (\<lambda>_.
             rtry (case json_get task ''catch'' of
                     None \<Rightarrow> Ok ()
                   | Some handler \<Rightarrow>
                       if json_get handler ''retry'' \<noteq> None
                       then Err (retry_error (pointer_path (pointer_path field ''catch'') ''retry'')
                                   (Some name) Unsupported)
                       else (case json_get2 task ''catch'' ''do'' of
                               None \<Rightarrow> Ok ()
                             | Some children \<Rightarrow>
                                 retry_tasks schedulable raw children
                                   (pointer_path (pointer_path field ''catch'') ''do''))) (\<lambda>_.
               case json_get2 task ''fork'' ''branches'' of
                 None \<Rightarrow> Ok ()
               | Some branches \<Rightarrow>
                   retry_tasks schedulable raw branches
                     (pointer_path (pointer_path field ''fork'') ''branches''))))) members
       | _ \<Rightarrow> Ok ()) (enumerate 0 entries)"
| "retry_tasks schedulable raw _ field = Ok ()"
  by pat_completeness auto
termination
  by (relation "measure (\<lambda>(schedulable, raw, entries, field). size entries)")
    (auto dest: json_get_size json_get2_size dest!: task_size)

declare retry_tasks.simps [simp del]

definition validate_retry_policies :: "(nat \<Rightarrow> bool) \<Rightarrow> json \<Rightarrow> (diagnostic, unit) result" where
  "validate_retry_policies schedulable raw =
     rtry (case json_get2 raw ''use'' ''retries'' of
             None \<Rightarrow> Ok ()
           | Some (JObject policies) \<Rightarrow>
               try_each (\<lambda>(name, policy).
                 case policy of
                   JObject _ \<Rightarrow>
                     rtry (resolve_retry_policy schedulable raw policy (pointer_path ''/use/retries'' name) None)
                       (\<lambda>_. Ok ())
                 | _ \<Rightarrow> Err (retry_error (pointer_path ''/use/retries'' name) None Unsupported)) policies
           | Some _ \<Rightarrow> Err (retry_error ''/use/retries'' None Invalid)) (\<lambda>_.
       case json_get raw ''do'' of
         None \<Rightarrow> Ok ()
       | Some entries \<Rightarrow> retry_tasks schedulable raw entries ''/do'')"

section \<open>What a policy means\<close>

lemma policy_keys_Ok:
  "policy_keys value field task allowed = Ok kvs \<longleftrightarrow> value = JObject kvs \<and> fst ` set kvs \<subseteq> set allowed"
proof (cases "value")
  case (JObject members)
  have "try_each (\<lambda>(key, _). if key \<notin> set allowed then Err (e key) else Ok ()) members = Ok () \<longleftrightarrow>
          fst ` set members \<subseteq> set allowed" for e :: "string \<Rightarrow> diagnostic"
    by (auto simp: try_each_Ok_iff split: if_splits)
  with JObject show ?thesis by (auto simp: policy_keys_def rtry_eq_Ok_iff)
qed (simp_all add: policy_keys_def)

lemma retry_count_Some: "retry_count count = Some n \<longleftrightarrow> count = JNumber (JU64 n) \<and> 0 < n \<and> n < 2 ^ 16"
  by (auto simp: retry_count_def json_as_u64_def bind_eq_Some_conv
      split: json.splits json_number.splits if_splits)

text \<open>The attempts and the delay an inline policy stands for.\<close>

definition policy_attempts :: "json \<Rightarrow> nat" where
  "policy_attempts policy =
     (case Option.bind (json_get2 policy ''limit'' ''attempt'') (\<lambda>a. json_get a ''count'') of
        Some (JNumber (JU64 n)) \<Rightarrow> n | _ \<Rightarrow> 1)"

definition unit_ms :: "json \<Rightarrow> string \<times> nat \<Rightarrow> nat" where
  "unit_ms delay u =
     (case json_get delay (fst u) of Some (JNumber (JU64 n)) \<Rightarrow> n * snd u | _ \<Rightarrow> 0)"

definition policy_delay :: "json \<Rightarrow> nat" where
  "policy_delay policy =
     (case json_get policy ''delay'' of None \<Rightarrow> 0 | Some delay \<Rightarrow> sum_list (map (unit_ms delay) delay_units))"

lemma retry_attempts_Ok:
  assumes "retry_attempts kvs field task = Ok n"
  shows "n = policy_attempts (JObject kvs) \<and> 0 < n \<and> n < 2 ^ 16"
proof (cases "map_of kvs ''limit''")
  case None
  with assms show ?thesis
    by (simp add: retry_attempts_def policy_attempts_def json_get2_def json_get_def)
next
  case (Some limit)
  with assms obtain ls where ls: "limit = JObject ls"
    by (auto simp: retry_attempts_def Let_def rtry_eq_Ok_iff policy_keys_Ok)
  show ?thesis
  proof (cases "map_of ls ''attempt''")
    case None
    with assms Some ls show ?thesis
      by (simp add: retry_attempts_def policy_attempts_def json_get2_def json_get_def Let_def
          rtry_eq_Ok_iff policy_keys_Ok)
  next
    case attempt: (Some a)
    with assms Some ls obtain as where "a = JObject as"
      "(case map_of as ''count'' of None \<Rightarrow> n = 1 | Some count \<Rightarrow> retry_count count = Some n)"
      by (auto simp: retry_attempts_def Let_def rtry_eq_Ok_iff policy_keys_Ok split: option.splits)
    with Some ls attempt show ?thesis
      by (auto simp: policy_attempts_def json_get2_def json_get_def retry_count_Some split: option.splits)
  qed
qed

lemma add_unit_Some:
  "add_unit acc factor value = Some n \<Longrightarrow>
   \<exists>k. value = JNumber (JU64 k) \<and> n = acc + k * factor \<and> n \<le> MAX_RETRY_DELAY_MS"
  by (auto simp: add_unit_def json_as_u64_def bind_eq_Some_conv checked_add_def checked_mul_def
      split: json.splits json_number.splits if_splits)

lemma sum_units_Ok:
  "sum_units kvs path task units acc = Ok n \<Longrightarrow>
   n = acc + sum_list (map (unit_ms (JObject kvs)) units)
   \<and> (acc \<le> MAX_RETRY_DELAY_MS \<longrightarrow> n \<le> MAX_RETRY_DELAY_MS)"
proof (induction units arbitrary: acc)
  case (Cons u units)
  obtain name factor where u: "u = (name, factor)" by (cases u)
  show ?case
  proof (cases "map_of kvs name")
    case None
    with Cons u show ?thesis by (simp add: unit_ms_def json_get_def)
  next
    case (Some x)
    with Cons.prems u obtain m where m: "add_unit acc factor x = Some m"
      and rest: "sum_units kvs path task units m = Ok n"
      by (auto simp: rtry_eq_Ok_iff)
    from add_unit_Some [OF m] Cons.IH [OF rest] Some u show ?thesis
      by (auto simp: unit_ms_def json_get_def)
  qed
qed simp

lemma retry_delay_Ok:
  assumes "retry_delay kvs field task = Ok n"
  shows "n = policy_delay (JObject kvs) \<and> n \<le> MAX_RETRY_DELAY_MS"
proof (cases "map_of kvs ''delay''")
  case None
  with assms show ?thesis by (simp add: retry_delay_def policy_delay_def json_get_def)
next
  case (Some delay)
  with assms obtain members where "delay = JObject members"
    "sum_units members (pointer_path field ''delay'') task delay_units 0 = Ok n"
    by (auto simp: retry_delay_def Let_def rtry_eq_Ok_iff policy_keys_Ok)
  with Some sum_units_Ok [OF this(2)] show ?thesis
    by (simp add: policy_delay_def json_get_def)
qed

text \<open>The object a policy reference denotes.\<close>

definition policy_object :: "json \<Rightarrow> json \<Rightarrow> json option" where
  "policy_object raw value =
     (case value of
        JString name \<Rightarrow> Option.bind (json_get2 raw ''use'' ''retries'') (\<lambda>v. json_get v name)
      | _ \<Rightarrow> Some value)"

lemma retry_source_Ok:
  "retry_source raw value field task = Ok (v, f) \<Longrightarrow> policy_object raw value = Some v"
  by (auto simp: retry_source_def policy_object_def split: json.splits option.splits)

lemma resolve_retry_exact:
  assumes "resolve_retry_policy schedulable raw value field task = Ok r"
  shows "\<exists>policy. policy_object raw value = Some policy
     \<and> fr_attempts r = policy_attempts policy \<and> fr_delay_ms r = policy_delay policy
     \<and> 0 < fr_attempts r \<and> fr_attempts r < 2 ^ 16
     \<and> fr_delay_ms r \<le> MAX_RETRY_DELAY_MS \<and> schedulable (fr_delay_ms r)"
proof -
  from assms obtain v f kvs n d where "retry_source raw value field task = Ok (v, f)"
    "v = JObject kvs" "retry_attempts kvs f task = Ok n" "retry_delay kvs f task = Ok d"
    "schedulable d" "r = \<lparr>fr_attempts = n, fr_delay_ms = d\<rparr>"
    by (auto simp: resolve_retry_policy_def rtry_eq_Ok_iff policy_keys_Ok split: if_splits)
  then show ?thesis
    using retry_source_Ok retry_attempts_Ok retry_delay_Ok by auto
qed

section \<open>The label of an error does not decide whether a policy resolves\<close>

lemma policy_keys_label:
  "policy_keys value field task allowed = Ok kvs \<Longrightarrow> policy_keys value field' task' allowed = Ok kvs"
  by (simp add: policy_keys_Ok)

lemma retry_attempts_label:
  "retry_attempts kvs field task = Ok n \<Longrightarrow> retry_attempts kvs field' task' = Ok n"
  unfolding retry_attempts_def Let_def
  by (cases "map_of kvs ''limit''")
     (auto elim!: rtry_label policy_keys_label split: option.split_asm option.split)

lemma sum_units_label:
  "sum_units kvs path task units acc = Ok n \<Longrightarrow> sum_units kvs path' task' units acc = Ok n"
proof (induction units arbitrary: acc)
  case (Cons u units)
  then show ?case by (cases u) (auto simp: rtry_eq_Ok_iff split: option.splits)
qed simp

lemma retry_delay_label:
  "retry_delay kvs field task = Ok n \<Longrightarrow> retry_delay kvs field' task' = Ok n"
  by (auto simp: retry_delay_def Let_def rtry_eq_Ok_iff policy_keys_Ok split: option.splits
      intro: sum_units_label)

lemma resolve_retry_label:
  assumes "resolve_retry_policy schedulable raw value field task = Ok r"
  shows "resolve_retry_policy schedulable raw value field' task' = Ok r"
proof -
  from assms obtain v f kvs n d where s: "retry_source raw value field task = Ok (v, f)"
    and p: "policy_keys v f task [''limit'', ''delay''] = Ok kvs" "retry_attempts kvs f task = Ok n"
      "retry_delay kvs f task = Ok d" "schedulable d" "r = \<lparr>fr_attempts = n, fr_delay_ms = d\<rparr>"
    by (auto simp: resolve_retry_policy_def rtry_eq_Ok_iff split: if_splits)
  from s obtain f' where "retry_source raw value field' task' = Ok (v, f')"
    by (auto simp: retry_source_def split: json.splits option.splits)
  with policy_keys_label [OF p(1)] retry_attempts_label [OF p(2)] retry_delay_label [OF p(3)] p(4,5)
  show ?thesis by (simp add: resolve_retry_policy_def)
qed

section \<open>Admitted definitions\<close>

text \<open>The task lists of a task, and the tasks of a task list at any depth.\<close>

definition task_children :: "json \<Rightarrow> json list" where
  "task_children task =
     List.map_filter id
       [json_get task ''do'', json_get task ''try'', json_get2 task ''catch'' ''do'',
        json_get2 task ''fork'' ''branches'']"

inductive task_in :: "json \<Rightarrow> string \<Rightarrow> json \<Rightarrow> bool" where
  here: "JObject members \<in> set entries \<Longrightarrow> (name, task) \<in> set members \<Longrightarrow>
         task_in (JArray entries) name task"
| nested: "task_in entries n t \<Longrightarrow> c \<in> set (task_children t) \<Longrightarrow> task_in c name task \<Longrightarrow>
           task_in entries name task"

text \<open>What admission has checked of a task.\<close>

definition task_checked :: "(nat \<Rightarrow> bool) \<Rightarrow> json \<Rightarrow> json \<Rightarrow> bool" where
  "task_checked schedulable raw task \<longleftrightarrow>
     (\<exists>field name. task_retry schedulable raw task field name = Ok ())
     \<and> json_get2 task ''catch'' ''retry'' = None
     \<and> (\<forall>c \<in> set (task_children task). \<exists>field. retry_tasks schedulable raw c field = Ok ())"

lemma enumerate_index: "e \<in> set es \<Longrightarrow> \<exists>i. (i, e) \<in> set (enumerate n es)"
  by (induction es arbitrary: n) auto

lemma retry_tasks_direct:
  assumes ok: "retry_tasks schedulable raw (JArray entries) field = Ok ()"
    and e: "JObject members \<in> set entries" and t: "(name, task) \<in> set members"
  shows "task_checked schedulable raw task"
proof -
  from enumerate_index [OF e, of 0] obtain i where "(i, JObject members) \<in> set (enumerate 0 entries)" ..
  note turn = ok [unfolded retry_tasks.simps try_each_Ok_iff, rule_format, OF this, simplified,
      unfolded try_each_Ok_iff, rule_format, OF t, simplified Let_def rtry_unit_Ok prod.case]
  then have "\<exists>field name. task_retry schedulable raw task field name = Ok ()" by blast
  moreover from turn have "json_get2 task ''catch'' ''retry'' = None"
    by (auto simp: json_get2_def split: option.splits if_splits)
  moreover from turn have "\<exists>field. retry_tasks schedulable raw c field = Ok ()"
    if "c \<in> set (task_children task)" for c
    using that
    by (auto simp: task_children_def map_filter_simps rtry_eq_Ok_iff json_get2_def
        split: option.splits if_splits)
  ultimately show ?thesis by (simp add: task_checked_def)
qed

lemma retry_tasks_everywhere:
  "task_in entries name task \<Longrightarrow> retry_tasks schedulable raw entries field = Ok () \<Longrightarrow>
   task_checked schedulable raw task"
proof (induction arbitrary: field rule: task_in.induct)
  case (here members entries name task)
  then show ?case by (auto intro: retry_tasks_direct)
next
  case (nested entries n t c name task)
  then show ?case unfolding task_checked_def [of _ _ t] by blast
qed

text \<open>C23: An admitted definition has no retry policy that cannot be applied.  At every depth a task
  with a retry policy is an HTTP call, the policy resolves to the same bounded number of attempts
  and the same delay under every error label, these are the numbers its object states, with the
  delay units summed without overflow, and no catch clause carries a retry policy.\<close>

theorem admitted_retries_resolve:
  assumes "validate_retry_policies schedulable raw = Ok ()" and "json_get raw ''do'' = Some entries"
    and "task_in entries name task"
  shows "json_get2 task ''catch'' ''retry'' = None
     \<and> (\<forall>retry. json_get task ''retry'' = Some retry \<longrightarrow>
          json_get task ''call'' = Some (JString ''http'')
          \<and> (\<exists>r policy. (\<forall>field label. resolve_retry_policy schedulable raw retry field label = Ok r)
               \<and> policy_object raw retry = Some policy
               \<and> fr_attempts r = policy_attempts policy \<and> fr_delay_ms r = policy_delay policy
               \<and> 0 < fr_attempts r \<and> fr_attempts r < 2 ^ 16
               \<and> fr_delay_ms r \<le> MAX_RETRY_DELAY_MS \<and> schedulable (fr_delay_ms r)))"
proof -
  from assms(1,2) have "retry_tasks schedulable raw entries ''/do'' = Ok ()"
    by (auto simp: validate_retry_policies_def rtry_eq_Ok_iff)
  from retry_tasks_everywhere [OF assms(3) this] obtain field n
    where checked: "task_retry schedulable raw task field n = Ok ()"
      and no_catch: "json_get2 task ''catch'' ''retry'' = None"
    by (auto simp: task_checked_def)
  have "json_get task ''call'' = Some (JString ''http'')
        \<and> (\<exists>r. resolve_retry_policy schedulable raw retry (pointer_path field ''retry'') (Some n) = Ok r)"
    if "json_get task ''retry'' = Some retry" for retry
    using checked that
    by (auto simp: task_retry_def rtry_eq_Ok_iff bind_eq_Some_conv json_as_str_Some split: if_splits)
  with no_catch show ?thesis using resolve_retry_label resolve_retry_exact by meson
qed

definition retry_example :: json where
  "retry_example =
     JObject
       [(''do'', JArray [JObject [(''a'', JObject [(''fork'', JObject [(''branches'', JArray [JObject
            [(''b'', JObject [(''call'', JString ''http''), (''retry'', JString ''fast'')])]])])])]]),
        (''use'', JObject [(''retries'', JObject [(''fast'', JObject
            [(''delay'', JObject [(''milliseconds'', JNumber (JU64 5)), (''seconds'', JNumber (JU64 2))]),
             (''limit'', JObject [(''attempt'', JObject [(''count'', JNumber (JU64 3))])])])])])]"

definition retry_example_entries :: json where
  "retry_example_entries =
     JArray [JObject [(''a'', JObject [(''fork'', JObject [(''branches'', JArray [JObject
            [(''b'', JObject [(''call'', JString ''http''), (''retry'', JString ''fast'')])]])])])]]"

theorem admitted_retries_resolve_witness:
  "validate_retry_policies (\<lambda>d. d < 10000) retry_example = Ok ()
   \<and> task_in retry_example_entries ''b''
       (JObject [(''call'', JString ''http''), (''retry'', JString ''fast'')])
   \<and> (\<exists>r. (\<forall>field label.
           resolve_retry_policy (\<lambda>d. d < 10000) retry_example (JString ''fast'') field label = Ok r)
        \<and> fr_attempts r = 3 \<and> fr_delay_ms r = 2005)"
proof -
  let ?b = "JObject [(''call'', JString ''http''), (''retry'', JString ''fast'')]"
  have run: "validate_retry_policies (\<lambda>d. d < 10000) retry_example = Ok ()"
    and entries: "json_get retry_example ''do'' = Some retry_example_entries"
    and policy: "map_option policy_attempts (policy_object retry_example (JString ''fast'')) = Some 3
      \<and> map_option policy_delay (policy_object retry_example (JString ''fast'')) = Some 2005"
    by code_simp+
  have "task_in (JArray [JObject [(''b'', ?b)]]) ''b'' ?b"
    by (rule task_in.here) auto
  then have inside: "task_in retry_example_entries ''b'' ?b"
    unfolding retry_example_entries_def
    by (rule task_in.nested [OF task_in.here, rotated 3])
       (auto simp: task_children_def map_filter_simps json_get2_def json_get_def)
  from admitted_retries_resolve [OF run entries inside] policy
  obtain r where "\<forall>field label.
           resolve_retry_policy (\<lambda>d. d < 10000) retry_example (JString ''fast'') field label = Ok r"
    "fr_attempts r = 3" "fr_delay_ms r = 2005"
    by (auto simp: json_get_def)
  with run inside show ?thesis by blast
qed

end
