(* ===== verification/Workflow_Policy.thy ===== *)
theory Workflow_Policy
  imports Gateway_Config Security_Types
begin

text \<open>
  The security policy of workflow tasks, \<open>crates/workflow-policy/src/lib.rs\<close>: parsing, resolution
  against the execution profiles of the operator and matching of a runner backend, with the protocol
  types and the canonical JSON digest of \<open>crates/execution-runner-protocol/src/lib.rs\<close> it uses.

  Derived (de)serialization and SHA-256 are library code: \<open>decode\<close> reads a policy from a YAML value,
  \<open>to_value\<close> writes a resolved policy as JSON and \<open>sha\<close> digests a JSON document.
\<close>

section \<open>Types\<close>

datatype isolation_boundary = ProcessBoundary | ContainerBoundary | UserNamespace | MicroVm | RemoteSandbox

datatype host_exposure = NoExposure | ReadOnlyWorkspace | ExplicitMounts

fun boundary_index :: "isolation_boundary \<Rightarrow> nat" where
  "boundary_index ProcessBoundary = 0"
| "boundary_index ContainerBoundary = 1"
| "boundary_index UserNamespace = 2"
| "boundary_index MicroVm = 3"
| "boundary_index RemoteSandbox = 4"

fun exposure_index :: "host_exposure \<Rightarrow> nat" where
  "exposure_index NoExposure = 0"
| "exposure_index ReadOnlyWorkspace = 1"
| "exposure_index ExplicitMounts = 2"

instantiation isolation_boundary :: linorder
begin

definition less_eq_isolation_boundary :: "isolation_boundary \<Rightarrow> isolation_boundary \<Rightarrow> bool" where
  "less_eq_isolation_boundary a b \<longleftrightarrow> boundary_index a \<le> boundary_index b"

definition less_isolation_boundary :: "isolation_boundary \<Rightarrow> isolation_boundary \<Rightarrow> bool" where
  "less_isolation_boundary a b \<longleftrightarrow> boundary_index a < boundary_index b"

instance
proof
  fix a b :: isolation_boundary
  show "a \<le> b \<Longrightarrow> b \<le> a \<Longrightarrow> a = b"
    by (cases a; cases b) (simp_all add: less_eq_isolation_boundary_def)
qed (auto simp: less_eq_isolation_boundary_def less_isolation_boundary_def)

end

instantiation host_exposure :: linorder
begin

definition less_eq_host_exposure :: "host_exposure \<Rightarrow> host_exposure \<Rightarrow> bool" where
  "less_eq_host_exposure a b \<longleftrightarrow> exposure_index a \<le> exposure_index b"

definition less_host_exposure :: "host_exposure \<Rightarrow> host_exposure \<Rightarrow> bool" where
  "less_host_exposure a b \<longleftrightarrow> exposure_index a < exposure_index b"

instance
proof
  fix a b :: host_exposure
  show "a \<le> b \<Longrightarrow> b \<le> a \<Longrightarrow> a = b"
    by (cases a; cases b) (simp_all add: less_eq_host_exposure_def)
qed (auto simp: less_eq_host_exposure_def less_host_exposure_def)

end

datatype execution_placement = Host | Runner

datatype task_kind =
    Ask | Assert | Fork | SetTask | Switch | Wait | CallAgent | CallA2a | CallHttp | CallMcp
  | RunShell | RunContainer | RunScript

datatype workload_trust = TrustedTemplate | TenantAuthored | ModelGenerated

datatype network_mode = DenyAll | Allowlisted

datatype persistence_mode = Ephemeral | Session

datatype agent_execution_mode = NativeAgent | RunnerAgent | AgentService

record approval_binding =
  ab_operation :: string
  ab_target :: string
  ab_ttl_seconds :: nat

record workflow_security_policy =
  sp_version :: nat
  sp_placement :: "execution_placement option"
  sp_execution_profile_id :: "string option"
  sp_minimum_boundary :: "isolation_boundary option"
  sp_maximum_host_exposure :: "host_exposure option"
  sp_workload_trust :: "workload_trust option"
  sp_network :: network_mode
  sp_credential_classes :: "string list"
  sp_persistence :: persistence_mode
  sp_artifact_export :: bool
  sp_approval_required :: bool
  sp_approval :: "approval_binding option"
  sp_protected_paths :: "string list"
  sp_agent_mode :: "agent_execution_mode option"

record execution_profile =
  ep_id :: string
  ep_version :: nat
  ep_boundary :: isolation_boundary
  ep_host_exposure :: host_exposure
  ep_maximum_workload_trust :: workload_trust
  ep_network :: network_mode
  ep_credential_classes :: "string list"
  ep_persistence :: persistence_mode
  ep_artifact_export :: bool
  ep_approval_supported :: bool
  ep_protected_paths :: "string list"
  ep_compatibility_digest :: string
  ep_allowed_actions :: "string list"

record resolved_execution_policy =
  rp_policy_version :: nat
  rp_placement :: execution_placement
  rp_profile :: "execution_profile option"
  rp_action_kind :: string
  rp_minimum_boundary :: isolation_boundary
  rp_maximum_host_exposure :: host_exposure
  rp_workload_trust :: workload_trust
  rp_network :: network_mode
  rp_credential_classes :: "string list"
  rp_persistence :: persistence_mode
  rp_artifact_export :: bool
  rp_approval_required :: bool
  rp_approval :: "approval_binding option"
  rp_protected_paths :: "string list"
  rp_policy_digest :: string

record execution_requirements =
  er_action_kind :: string
  er_minimum_boundary :: isolation_boundary
  er_maximum_host_exposure :: host_exposure
  er_network_enabled :: bool
  er_credential_classes :: "string list"
  er_persistent_workspace :: bool
  er_required_features :: "string list"
  er_policy_digest :: string
  er_compatibility_digest :: string

record backend_capability =
  bc_backend_id :: string
  bc_backend_version :: string
  bc_boundary :: isolation_boundary
  bc_host_exposure :: host_exposure
  bc_actions :: "string list"
  bc_features :: "string list"
  bc_compatibility_digest :: string
  bc_healthy :: bool
  bc_available_slots :: nat

datatype policy_error =
    InvalidSecurityObject
  | PolicyParse string
  | UnsupportedVersion nat
  | RunnerRequired string
  | MissingProfile
  | UnknownProfile string
  | ActionDenied string string
  | BoundaryTooWeak string
  | HostExposureTooBroad string
  | WorkloadTrustTooWeak string
  | NetworkDenied string
  | CredentialDenied string string
  | PersistenceDenied string
  | ArtifactExportDenied string
  | ApprovalDenied string
  | MissingApprovalBinding
  | InvalidApprovalBinding
  | UnexpectedApprovalBinding
  | ProtectedPathMissing string string
  | DigestError string
  | AgentModeOnNonAgent
  | AgentPlacementConflict

definition POLICY_VERSION :: nat where
  "POLICY_VERSION = 1"

section \<open>Parsing\<close>

fun yaml_untag :: "yaml \<Rightarrow> yaml" where
  "yaml_untag (YTagged _ v) = yaml_untag v"
| "yaml_untag v = v"

definition mapping_value :: "yaml \<Rightarrow> string \<Rightarrow> yaml option" where
  "mapping_value v key =
     (case yaml_untag v of YMapping kvs \<Rightarrow> map_of kvs (YString key) | _ \<Rightarrow> None)"

definition is_mapping :: "yaml \<Rightarrow> bool" where
  "is_mapping v = (case yaml_untag v of YMapping _ \<Rightarrow> True | _ \<Rightarrow> False)"

definition parse_security_policy ::
  "(yaml \<Rightarrow> (string, workflow_security_policy) result) \<Rightarrow> yaml
     \<Rightarrow> (policy_error, workflow_security_policy option) result" where
  "parse_security_policy decode workflow_document =
     (case mapping_value workflow_document ''metadata'' of
        None \<Rightarrow> Ok None
      | Some metadata \<Rightarrow>
          (case mapping_value metadata ''lightWorkflow'' of
             None \<Rightarrow> Ok None
           | Some light_workflow \<Rightarrow>
               (case mapping_value light_workflow ''security'' of
                  None \<Rightarrow> Ok None
                | Some security \<Rightarrow>
                    if \<not> is_mapping security then Err InvalidSecurityObject
                    else
                      (case decode security of
                         Err e \<Rightarrow> Err (PolicyParse e)
                       | Ok policy \<Rightarrow>
                           if sp_version policy \<noteq> POLICY_VERSION
                           then Err (UnsupportedVersion (sp_version policy))
                           else Ok (Some policy)))))"

section \<open>Protected paths\<close>

fun path_components :: "string list \<Rightarrow> string list option" where
  "path_components [] = Some []"
| "path_components (c # cs) =
     (if c = [] \<or> c = ''.'' then path_components cs
      else if c = ''..'' then None
      else map_option ((#) c) (path_components cs))"

definition normalized_workspace_path :: "string \<Rightarrow> string list option" where
  "normalized_workspace_path value =
     (let path = trim value in
      if path = [] then None
      else map_option (\<lambda>cs. (if hd path = CHR ''/'' then [] else [''workspace'']) @ cs)
             (path_components (split_chars ''/'' path)))"

definition protected_path_covers :: "string \<Rightarrow> string \<Rightarrow> bool" where
  "protected_path_covers profile_path requested_path =
     (case (normalized_workspace_path profile_path, normalized_workspace_path requested_path) of
        (Some profile, Some requested) \<Rightarrow> prefix profile requested
      | _ \<Rightarrow> False)"

section \<open>Resolution\<close>

definition workload_trust_rank :: "workload_trust \<Rightarrow> nat" where
  "workload_trust_rank trust =
     (case trust of TrustedTemplate \<Rightarrow> 0 | TenantAuthored \<Rightarrow> 1 | ModelGenerated \<Rightarrow> 2)"

definition normalized_strings :: "string list \<Rightarrow> string list" where
  "normalized_strings values = sort (remdups (filter (\<lambda>v. v \<noteq> []) (map trim values)))"

definition action_kind :: "task_kind \<Rightarrow> string" where
  "action_kind task_kind =
     (case task_kind of
        Ask \<Rightarrow> ''ask'' | Assert \<Rightarrow> ''assert'' | Fork \<Rightarrow> ''fork'' | SetTask \<Rightarrow> ''set'' | Switch \<Rightarrow> ''switch''
      | Wait \<Rightarrow> ''wait'' | CallAgent \<Rightarrow> ''call.agent'' | CallA2a \<Rightarrow> ''call.a2a'' | CallHttp \<Rightarrow> ''call.http''
      | CallMcp \<Rightarrow> ''call.mcp'' | RunShell \<Rightarrow> ''run.shell'' | RunContainer \<Rightarrow> ''run.container''
      | RunScript \<Rightarrow> ''run.script'')"

definition requires_runner :: "task_kind \<Rightarrow> bool" where
  "requires_runner task_kind \<longleftrightarrow> task_kind \<in> {RunShell, RunContainer, RunScript}"

definition is_pure_orchestration :: "task_kind \<Rightarrow> bool" where
  "is_pure_orchestration task_kind \<longleftrightarrow> task_kind \<in> {Ask, Assert, Fork, SetTask, Switch, Wait}"

definition default_placement :: "task_kind \<Rightarrow> execution_placement" where
  "default_placement task_kind = (if requires_runner task_kind then Runner else Host)"

definition validate_profile ::
  "execution_profile \<Rightarrow> string \<Rightarrow> isolation_boundary \<Rightarrow> host_exposure \<Rightarrow> workload_trust \<Rightarrow> network_mode
     \<Rightarrow> string list \<Rightarrow> persistence_mode \<Rightarrow> bool \<Rightarrow> bool \<Rightarrow> string list \<Rightarrow> (policy_error, unit) result" where
  "validate_profile p action minimum_boundary maximum_host_exposure trust network credential_classes
     persistence artifact_export approval_required protected_paths =
     (if \<not> list_ex (\<lambda>allowed. allowed = action) (ep_allowed_actions p)
      then Err (ActionDenied (ep_id p) action)
      else if ep_boundary p < minimum_boundary then Err (BoundaryTooWeak (ep_id p))
      else if maximum_host_exposure < ep_host_exposure p then Err (HostExposureTooBroad (ep_id p))
      else if workload_trust_rank (ep_maximum_workload_trust p) < workload_trust_rank trust
      then Err (WorkloadTrustTooWeak (ep_id p))
      else if network = Allowlisted \<and> ep_network p = DenyAll then Err (NetworkDenied (ep_id p))
      else
        rtry (try_each (\<lambda>credential.
                if credential \<notin> set (ep_credential_classes p)
                then Err (CredentialDenied (ep_id p) credential) else Ok ()) credential_classes) (\<lambda>_.
        if persistence = Session \<and> ep_persistence p \<noteq> Session then Err (PersistenceDenied (ep_id p))
        else if artifact_export \<and> \<not> ep_artifact_export p then Err (ArtifactExportDenied (ep_id p))
        else if approval_required \<and> \<not> ep_approval_supported p then Err (ApprovalDenied (ep_id p))
        else
          try_each (\<lambda>path.
            if \<not> list_ex (\<lambda>profile_path. protected_path_covers profile_path path) (ep_protected_paths p)
            then Err (ProtectedPathMissing (ep_id p) path) else Ok ()) protected_paths))"

definition approval_operations :: "string list" where
  "approval_operations =
     [''apply-patch'', ''create-branch'', ''push-commit'', ''open-pr'', ''publish'', ''sign'']"

definition check_approval :: "bool \<Rightarrow> approval_binding option \<Rightarrow> (policy_error, unit) result" where
  "check_approval approval_required approval =
     (if approval_required then
        (case approval of
           None \<Rightarrow> Err MissingApprovalBinding
         | Some b \<Rightarrow>
             if ab_operation b \<notin> set approval_operations \<or> trim (ab_target b) = []
                \<or> \<not> (60 \<le> ab_ttl_seconds b \<and> ab_ttl_seconds b \<le> 604800)
             then Err InvalidApprovalBinding
             else Ok ())
      else if approval \<noteq> None then Err UnexpectedApprovalBinding
      else Ok ())"

definition resolved_action :: "task_kind \<Rightarrow> agent_execution_mode option \<Rightarrow> string" where
  "resolved_action task_kind agent_mode =
     (if task_kind = CallAgent \<and> agent_mode = Some RunnerAgent then ''call.agent.runner''
      else if task_kind = CallAgent \<and> agent_mode = Some AgentService then ''call.agent-service''
      else action_kind task_kind)"

definition requested_placement ::
  "task_kind \<Rightarrow> agent_execution_mode option \<Rightarrow> execution_placement option \<Rightarrow> execution_placement" where
  "requested_placement task_kind agent_mode placement =
     (if task_kind = CallAgent then (if agent_mode = Some RunnerAgent then Runner else Host)
      else if is_pure_orchestration task_kind then Host
      else case placement of Some p \<Rightarrow> p | None \<Rightarrow> default_placement task_kind)"

definition select_profile ::
  "workflow_security_policy option \<Rightarrow> (string, execution_profile) btree
     \<Rightarrow> (policy_error, execution_profile) result" where
  "select_profile security profiles =
     (case Option.bind security sp_execution_profile_id of
        None \<Rightarrow> Err MissingProfile
      | Some profile_id \<Rightarrow>
          if trim profile_id = [] then Err MissingProfile
          else ok_or (UnknownProfile profile_id) (bt_get profiles profile_id))"

text \<open>The values of the policy with their defaults, before a profile is chosen.\<close>

definition base_policy ::
  "workflow_security_policy option \<Rightarrow> string \<Rightarrow> execution_placement \<Rightarrow> resolved_execution_policy" where
  "base_policy security action placement =
     \<lparr>rp_policy_version = POLICY_VERSION, rp_placement = placement, rp_profile = None,
      rp_action_kind = action,
      rp_minimum_boundary =
        (case Option.bind security sp_minimum_boundary of None \<Rightarrow> ProcessBoundary | Some b \<Rightarrow> b),
      rp_maximum_host_exposure =
        (case Option.bind security sp_maximum_host_exposure of None \<Rightarrow> NoExposure | Some h \<Rightarrow> h),
      rp_workload_trust =
        (case Option.bind security sp_workload_trust of None \<Rightarrow> TrustedTemplate | Some t \<Rightarrow> t),
      rp_network = (case security of None \<Rightarrow> DenyAll | Some s \<Rightarrow> sp_network s),
      rp_credential_classes =
        normalized_strings (case security of None \<Rightarrow> [] | Some s \<Rightarrow> sp_credential_classes s),
      rp_persistence = (case security of None \<Rightarrow> Ephemeral | Some s \<Rightarrow> sp_persistence s),
      rp_artifact_export = (case security of None \<Rightarrow> False | Some s \<Rightarrow> sp_artifact_export s),
      rp_approval_required = (case security of None \<Rightarrow> False | Some s \<Rightarrow> sp_approval_required s),
      rp_approval = Option.bind security sp_approval,
      rp_protected_paths =
        normalized_strings (case security of None \<Rightarrow> [] | Some s \<Rightarrow> sp_protected_paths s),
      rp_policy_digest = []\<rparr>"

definition policy_profile ::
  "workflow_security_policy option \<Rightarrow> (string, execution_profile) btree \<Rightarrow> resolved_execution_policy
     \<Rightarrow> (policy_error, execution_profile option) result" where
  "policy_profile security profiles base =
     (if rp_placement base = Runner then
        rtry (select_profile security profiles) (\<lambda>p.
        rtry (validate_profile p (rp_action_kind base) (rp_minimum_boundary base)
                (rp_maximum_host_exposure base) (rp_workload_trust base) (rp_network base)
                (rp_credential_classes base) (rp_persistence base) (rp_artifact_export base)
                (rp_approval_required base) (rp_protected_paths base)) (\<lambda>_.
          Ok (Some p)))
      else Ok None)"

definition clear_wait :: "task_kind \<Rightarrow> resolved_execution_policy \<Rightarrow> resolved_execution_policy" where
  "clear_wait task_kind r =
     (if task_kind = Wait
      then r\<lparr>rp_network := DenyAll, rp_credential_classes := [], rp_persistence := Ephemeral,
             rp_artifact_export := False, rp_approval_required := False, rp_approval := None,
             rp_protected_paths := []\<rparr>
      else r)"

fun canonicalize :: "json \<Rightarrow> json" where
  "canonicalize (JArray vs) = JArray (map canonicalize vs)"
| "canonicalize (JObject kvs) =
     JObject (fold (\<lambda>(k, v) m. bt_insert k v m) (map (\<lambda>(k, v). (k, canonicalize v)) kvs) [])"
| "canonicalize v = v"

definition canonical_sha256 ::
  "('a \<Rightarrow> (string, json) result) \<Rightarrow> (json \<Rightarrow> string) \<Rightarrow> 'a \<Rightarrow> (string, string) result" where
  "canonical_sha256 to_value sha x = rtry (to_value x) (\<lambda>v. Ok (sha (canonicalize v)))"

definition resolve_policy ::
  "(resolved_execution_policy \<Rightarrow> (string, json) result) \<Rightarrow> (json \<Rightarrow> string) \<Rightarrow> task_kind
     \<Rightarrow> workflow_security_policy option \<Rightarrow> (string, execution_profile) btree
     \<Rightarrow> (policy_error, resolved_execution_policy) result" where
  "resolve_policy to_value sha task_kind security profiles =
     (let security = (if task_kind = Wait then None else security);
          agent_mode = Option.bind security sp_agent_mode
      in
      if task_kind \<noteq> CallAgent \<and> agent_mode \<noteq> None then Err AgentModeOnNonAgent
      else
        let action = resolved_action task_kind agent_mode;
            authored = Option.bind security sp_placement;
            placement = requested_placement task_kind agent_mode authored
        in
        if task_kind = CallAgent \<and> authored \<noteq> None \<and> authored \<noteq> Some placement
        then Err AgentPlacementConflict
        else if requires_runner task_kind \<and> placement \<noteq> Runner then Err (RunnerRequired action)
        else
          let base = base_policy security action placement in
          rtry (check_approval (rp_approval_required base) (rp_approval base)) (\<lambda>_.
          rtry (policy_profile security profiles base) (\<lambda>p.
            let resolved = clear_wait task_kind (base\<lparr>rp_profile := p\<rparr>) in
            (case canonical_sha256 to_value sha resolved of
               Err e \<Rightarrow> Err (DigestError e)
             | Ok digest \<Rightarrow> Ok (resolved\<lparr>rp_policy_digest := digest\<rparr>)))))"

section \<open>Matching a backend\<close>

definition required_features :: "resolved_execution_policy \<Rightarrow> string list" where
  "required_features policy =
     sort ((if rp_network policy = Allowlisted then [''network-allowlist''] else [])
       @ (if rp_credential_classes policy \<noteq> [] then [''credential-broker''] else [])
       @ (if rp_persistence policy = Session then [''session-workspace''] else [])
       @ (if rp_artifact_export policy then [''artifact-export''] else []))"

definition requirements :: "resolved_execution_policy \<Rightarrow> execution_requirements option" where
  "requirements policy =
     map_option (\<lambda>p.
       \<lparr>er_action_kind = rp_action_kind policy, er_minimum_boundary = rp_minimum_boundary policy,
        er_maximum_host_exposure = rp_maximum_host_exposure policy,
        er_network_enabled = (rp_network policy \<noteq> DenyAll),
        er_credential_classes = rp_credential_classes policy,
        er_persistent_workspace = (rp_persistence policy = Session),
        er_required_features = required_features policy, er_policy_digest = rp_policy_digest policy,
        er_compatibility_digest = ep_compatibility_digest p\<rparr>) (rp_profile policy)"

record incompatibility_reason =
  ir_code :: string
  ir_message :: string

definition match_backend ::
  "execution_requirements \<Rightarrow> backend_capability \<Rightarrow> (incompatibility_reason, unit) result" where
  "match_backend req b =
     (let refuse = (\<lambda>code text. Err \<lparr>ir_code = code, ir_message = ''backend '' @ bc_backend_id b @ text\<rparr>) in
      if \<not> bc_healthy b \<or> bc_available_slots b = 0 then refuse ''backend_unavailable'' '' has no healthy capacity''
      else if bc_boundary b < er_minimum_boundary req then refuse ''boundary_too_weak'' '' isolation is too weak''
      else if er_maximum_host_exposure req < bc_host_exposure b
      then refuse ''host_exposure_too_broad'' '' exposes too much host state''
      else if bc_compatibility_digest b \<noteq> er_compatibility_digest req
      then refuse ''compatibility_digest_mismatch'' '' compatibility digest differs''
      else if \<not> list_ex (\<lambda>action. action = er_action_kind req) (bc_actions b)
      then refuse ''action_unsupported'' ('' does not support '' @ er_action_kind req)
      else
        try_each (\<lambda>feature.
          if \<not> list_ex (\<lambda>available. available = feature) (bc_features b)
          then refuse ''feature_unsupported'' ('' lacks feature '' @ feature) else Ok ())
          (er_required_features req))"

section \<open>What a resolved policy guarantees\<close>

text \<open>The profile grants everything the policy asks for and is nowhere weaker than it demands.\<close>

definition profile_meets :: "execution_profile \<Rightarrow> resolved_execution_policy \<Rightarrow> bool" where
  "profile_meets p r \<longleftrightarrow>
     rp_action_kind r \<in> set (ep_allowed_actions p)
     \<and> rp_minimum_boundary r \<le> ep_boundary p
     \<and> ep_host_exposure p \<le> rp_maximum_host_exposure r
     \<and> workload_trust_rank (rp_workload_trust r) \<le> workload_trust_rank (ep_maximum_workload_trust p)
     \<and> (rp_network r = Allowlisted \<longrightarrow> ep_network p = Allowlisted)
     \<and> set (rp_credential_classes r) \<subseteq> set (ep_credential_classes p)
     \<and> (rp_persistence r = Session \<longrightarrow> ep_persistence p = Session)
     \<and> (rp_artifact_export r \<longrightarrow> ep_artifact_export p)
     \<and> (rp_approval_required r \<longrightarrow> ep_approval_supported p)
     \<and> (\<forall>path \<in> set (rp_protected_paths r).
          \<exists>granted \<in> set (ep_protected_paths p). protected_path_covers granted path)"


lemma network_mode_other [simp]: "n \<noteq> DenyAll \<longleftrightarrow> n = Allowlisted"
  by (cases n) auto






lemma normalized_strings_set: "set (normalized_strings xs) = {trim x | x. x \<in> set xs \<and> trim x \<noteq> []}"
  by (auto simp: normalized_strings_def)





lemma profile_meets_profile [simp]:
  "profile_meets p (r\<lparr>rp_profile := q, rp_policy_digest := d\<rparr>) = profile_meets p r"
  by (simp add: profile_meets_def)



definition profile_example :: execution_profile where
  "profile_example =
     \<lparr>ep_id = ''vm'', ep_version = 1, ep_boundary = MicroVm, ep_host_exposure = NoExposure,
      ep_maximum_workload_trust = TenantAuthored, ep_network = DenyAll,
      ep_credential_classes = [''git''], ep_persistence = Ephemeral, ep_artifact_export = False,
      ep_approval_supported = False, ep_protected_paths = [''.github''], ep_compatibility_digest = ''d'',
      ep_allowed_actions = [''run.shell'']\<rparr>"

definition security_example :: workflow_security_policy where
  "security_example =
     \<lparr>sp_version = 1, sp_placement = None, sp_execution_profile_id = Some ''vm'',
      sp_minimum_boundary = Some ContainerBoundary, sp_maximum_host_exposure = None,
      sp_workload_trust = Some TenantAuthored, sp_network = DenyAll, sp_credential_classes = ['' git''],
      sp_persistence = Ephemeral, sp_artifact_export = False, sp_approval_required = False,
      sp_approval = None, sp_protected_paths = [''/workspace/.github/workflows''], sp_agent_mode = None\<rparr>"


definition backend_example :: backend_capability where
  "backend_example =
     \<lparr>bc_backend_id = ''b'', bc_backend_version = ''1'', bc_boundary = ProcessBoundary,
      bc_host_exposure = NoExposure, bc_actions = [''run.shell''], bc_features = [''credential-broker''],
      bc_compatibility_digest = ''d'', bc_healthy = True, bc_available_slots = 1\<rparr>"


text \<open>The requirements carry the boundary the policy names, not the one of the profile: a policy that
  names none is matched by a backend with the boundary of a process, although its profile promises
  a virtual machine.\<close>

lemma weaker_backend_matches:
  "\<exists>r req. resolve_policy (\<lambda>_. Ok JNull) (\<lambda>_. ''x'') RunShell
       (Some (security_example\<lparr>sp_minimum_boundary := None\<rparr>)) [(''vm'', profile_example)] = Ok r
     \<and> rp_profile r = Some profile_example \<and> requirements r = Some req
     \<and> match_backend req backend_example = Ok () \<and> bc_boundary backend_example < ep_boundary profile_example"
proof -
  let ?r = "resolve_policy (\<lambda>_. Ok JNull) (\<lambda>_. ''x'') RunShell
       (Some (security_example\<lparr>sp_minimum_boundary := None\<rparr>)) [(''vm'', profile_example)]"
  have "(case ?r of Err _ \<Rightarrow> False | Ok r \<Rightarrow> rp_profile r = Some profile_example
      \<and> (case requirements r of None \<Rightarrow> False | Some req \<Rightarrow> match_backend req backend_example = Ok ()))"
    "bc_boundary backend_example < ep_boundary profile_example"
    by code_simp+
  then show ?thesis by (auto split: sum.splits option.splits)
qed

section \<open>Canonical documents\<close>

text \<open>Two trees of the same entries are the same list.\<close>

lemma bt_ok_unique:
  assumes "bt_ok m" and "bt_ok m'" and "\<And>k. bt_get m k = bt_get m' k"
  shows "m = m'"
proof -
  have "set m = set m'"
    using assms bt_ok_distinct by (metis bt_get_def map_of_inject_set ext)
  moreover have "sorted_wrt (<) (map fst m)" "sorted_wrt (<) (map fst m')"
    using assms(1,2) by (simp_all add: bt_ok_def)
  ultimately have keys: "map fst m = map fst m'"
    by (metis list.set_map strict_sorted_equal)
  show ?thesis
  proof (rule nth_equalityI)
    show len: "length m = length m'" using keys by (metis length_map)
    fix i assume i: "i < length m"
    have at: "bt_get xs (fst (xs ! i)) = Some (snd (xs ! i))" if "bt_ok xs" "i < length xs" for xs
      using that bt_ok_distinct [OF that(1)] by (simp add: bt_get_def map_of_eq_Some_iff)
    from i len have "bt_get m (fst (m ! i)) = Some (snd (m ! i))" "bt_get m' (fst (m' ! i)) = Some (snd (m' ! i))"
      using at [OF assms(1)] at [OF assms(2)] by simp_all
    moreover have "fst (m ! i) = fst (m' ! i)" using keys i len by (metis nth_map)
    ultimately show "m ! i = m' ! i" using assms(3) by (metis option.inject prod.collapse)
  qed
qed

lemma bt_collect:
  "bt_ok m \<Longrightarrow> bt_ok (fold (\<lambda>(k, v) m. bt_insert k v m) kvs m)
     \<and> bt_get (fold (\<lambda>(k, v) m. bt_insert k v m) kvs m) k =
         (case map_of (rev kvs) k of None \<Rightarrow> bt_get m k | Some v \<Rightarrow> Some v)"
proof (induction kvs arbitrary: m)
  case (Cons kv kvs)
  then show ?case
    by (cases kv) (auto simp: bt_ok_insert bt_get_insert map_add_def split: option.splits)
qed simp

lemma canonicalize_member_order:
  assumes "distinct (map fst kvs)" and "distinct (map fst kvs')" and "set kvs = set kvs'"
  shows "canonicalize (JObject kvs) = canonicalize (JObject kvs')"
proof -
  let ?c = "map (\<lambda>(k, v). (k, canonicalize v))"
  have eq: "map_of (rev (?c kvs)) = map_of (rev (?c kvs'))"
    by (rule map_of_inject_set [THEN iffD2])
       (use assms in \<open>auto simp: rev_map [symmetric] comp_def case_prod_beta\<close>)
  have "bt_ok ([] :: (string, json) btree)" by (simp add: bt_ok_def)
  from bt_collect [OF this] eq show ?thesis by (auto intro!: bt_ok_unique)
qed

end
