(* ===== verification/Expr_Compiler.thy ===== *)
theory Expr_Compiler
  imports Expr_Scanner Security_Types
begin

text \<open>
  The profile, positions and limits of workflow expressions (\<open>crates/workflow-expression/src/lib.rs\<close>),
  and the audit of a parsed expression (\<open>compiler.rs\<close>).  An expression is the part of the syntax tree
  of the CEL parser, which is library code, that the audit looks at.
\<close>

section \<open>Profiles and positions\<close>

datatype profile = LegacyV1 | CelWorkflowV2

definition json_pointer :: "json \<Rightarrow> string list \<Rightarrow> json option" where
  "json_pointer raw ks = fold (\<lambda>k v. Option.bind v (\<lambda>w. json_get w k)) ks (Some raw)"

definition resolve_profile :: "json \<Rightarrow> (expression_error, profile) result" where
  "resolve_profile raw =
     (case json_pointer raw [''document'', ''metadata'', ''lightExpressionProfile''] of
        None \<Rightarrow> Ok LegacyV1
      | Some selector \<Rightarrow>
          if json_as_str selector \<noteq> Some ''cel-workflow-v2'' then Err (admission ProfileUnsupported)
          else
            (case json_get raw ''evaluate'' of
               Some (JObject evaluate) \<Rightarrow>
                 if Option.bind (map_of evaluate ''language'') json_as_str \<noteq> Some ''cel''
                    \<or> map_of evaluate ''mode'' \<noteq> None
                 then Err (admission ProfileUnsupported)
                 else Ok CelWorkflowV2
             | _ \<Rightarrow> Err (admission ProfileUnsupported)))"

datatype kind = KindJson | KindString | KindPredicate | KindExport

datatype position =
    PosSet | HttpBody | HttpQuery | HttpHeader | IdempotencyKey | JsonRpcUri | JsonRpcParams
  | JsonRpcHeader | OpenRpcEndpoint | McpParams | McpResourceUri | A2aParameters | AgentInput
  | AgentMockOutput | AgentInstructions | AgentPrompt | AskCategory | AskReason | AskAssignee
  | AskRole | SwitchWhen | AssertValue | AssertEquals | AssertContains | AssertJsonEquals
  | AssertJsonContains | AssertJsonPredicate | PosExport | RunnerExport | WorkflowOutput

definition position_kind :: "position \<Rightarrow> kind" where
  "position_kind p =
     (if p \<in> {HttpQuery, HttpHeader, IdempotencyKey, JsonRpcUri, OpenRpcEndpoint, McpResourceUri,
              AgentInstructions, AgentPrompt, AskCategory, AskReason, AskAssignee, AskRole}
      then KindString
      else if p \<in> {SwitchWhen, AssertJsonPredicate} then KindPredicate
      else if p \<in> {PosExport, RunnerExport} then KindExport
      else KindJson)"

definition position_allows :: "position \<Rightarrow> string \<Rightarrow> bool" where
  "position_allows p name \<longleftrightarrow>
     name \<in> {''context'', ''workflow''}
     \<or> name = ''output'' \<and> p \<in> {PosExport, RunnerExport}
     \<or> name = ''value'' \<and> p = AssertJsonPredicate"

record limits =
  source_bytes :: nat
  ast_nodes :: nat
  ast_depth :: nat
  comprehension_depth :: nat
  input_bytes :: nat
  input_nodes :: nat
  input_depth :: nat
  output_bytes :: nat
  output_nodes :: nat
  output_depth :: nat

definition default_limits :: limits where
  "default_limits =
     \<lparr>source_bytes = 16 * 1024, ast_nodes = 2048, ast_depth = 64, comprehension_depth = 2,
      input_bytes = 2 * 1024 * 1024, input_nodes = 100000, input_depth = 64,
      output_bytes = 1024 * 1024, output_nodes = 100000, output_depth = 64\<rparr>"

section \<open>The audit\<close>

datatype cel_expr =
    Unspecified
  | Struct
  | Literal string
  | Ident string
  | Call string "cel_expr option" "cel_expr list"
  | Select cel_expr string
  | ListExpr "cel_expr list" "nat list"
  | MapExpr "cel_entry list"
  | Comprehension (iter_range: cel_expr) (iter_var: string) (iter_var2: "string option")
      (accu_var: string) (accu_init: cel_expr) (loop_cond: cel_expr) (loop_step: cel_expr)
      (comp_result: cel_expr)
and cel_entry =
    StructField
  | MapEntry cel_expr cel_expr bool

definition FUNCTIONS :: "string list" where
  "FUNCTIONS =
     [''_?_:_'', ''_&&_'', ''_||_'', ''!_'', ''@not_strictly_false'', ''_+_'', ''_-_'', ''-_'', ''_*_'',
      ''_/_'', ''_%_'', ''_==_'', ''_!=_'', ''_>_'', ''_>=_'', ''_<_'', ''_<=_'', ''_[_]'', ''@in'', ''size'',
      ''contains'', ''startsWith'', ''endsWith'', ''int'', ''uint'', ''double'', ''string'', ''bytes'', ''split'',
      ''substring'', ''join'', ''indexOf'', ''jsonEncode'']"

definition MACROS :: "string list" where
  "MACROS = [''map'', ''filter'', ''all'', ''exists'', ''exists_one'', ''has'']"

text \<open>An item of the work list: an expression, its depth, how many comprehensions enclose it and
  the variables they bind.\<close>

type_synonym audit_item = "cel_expr \<times> nat \<times> nat \<times> string list"

fun entry_children :: "cel_entry list \<Rightarrow> (expression_error, cel_expr list) result" where
  "entry_children [] = Ok []"
| "entry_children (StructField # es) = Err (admission Unsupported)"
| "entry_children (MapEntry k v opt # es) =
     (if opt then Err (admission Unsupported)
      else rtry (entry_children es) (\<lambda>cs. Ok (k # v # cs)))"

text \<open>One turn of the loop: the items that are visited next, in the order they are popped.\<close>

definition audit_children ::
  "position \<Rightarrow> limits \<Rightarrow> audit_item \<Rightarrow> (expression_error, audit_item list) result" where
  "audit_children position lim item =
     (case item of (e, depth, nesting, locals) \<Rightarrow>
        let under = map (\<lambda>c. (c, depth + 1, nesting, locals)) in
        (case e of
           Ident name \<Rightarrow>
             if \<not> position_allows position name \<and> name \<notin> set locals
             then Err (admission Invalid) else Ok []
         | Call func_name target args \<Rightarrow>
             if func_name \<in> set MACROS then Err (admission Invalid)
             else if func_name \<notin> set FUNCTIONS then Err (admission Unsupported)
             else Ok (under ((case target of None \<Rightarrow> [] | Some t \<Rightarrow> [t]) @ args))
         | Select operand _ \<Rightarrow> Ok (under [operand])
         | ListExpr elements optional_indices \<Rightarrow>
             if optional_indices \<noteq> [] then Err (admission Unsupported) else Ok (under elements)
         | MapExpr entries \<Rightarrow> rtry (entry_children entries) (\<lambda>cs. Ok (under cs))
         | Comprehension rng var var2 accu init cond step res \<Rightarrow>
             if comprehension_depth lim \<le> nesting then Err (admission Limit)
             else
               let result_scope = locals @ [accu];
                   loop_scope = result_scope @ [var] @ (case var2 of None \<Rightarrow> [] | Some v \<Rightarrow> [v])
               in Ok [(rng, depth + 1, nesting + 1, locals), (init, depth + 1, nesting + 1, locals),
                      (cond, depth + 1, nesting + 1, loop_scope), (step, depth + 1, nesting + 1, loop_scope),
                      (res, depth + 1, nesting + 1, result_scope)]
         | Struct \<Rightarrow> Err (admission Unsupported)
         | Unspecified \<Rightarrow> Err (admission Unsupported)
         | Literal _ \<Rightarrow> Ok []))"

definition audit_turn ::
  "position \<Rightarrow> limits \<Rightarrow> nat \<Rightarrow> audit_item \<Rightarrow> (expression_error, audit_item list) result" where
  "audit_turn position lim nodes item =
     (if nodes > ast_nodes lim \<or> fst (snd item) > ast_depth lim then Err (admission Limit)
      else audit_children position lim item)"

text \<open>A weight that decreases from an expression to the expressions visited next.\<close>

definition expr_weight :: "cel_expr \<Rightarrow> nat" where
  "expr_weight e = 5 * size e + 1"

definition item_weight :: "audit_item \<Rightarrow> nat" where
  "item_weight item = expr_weight (fst item)"

lemma list_weight: "(\<Sum>x\<leftarrow>xs. Suc (5 * size x)) \<le> 5 * size_list size xs"
  by (induction xs) auto

lemma entry_weight: "entry_children es = Ok cs \<Longrightarrow> (\<Sum>x\<leftarrow>cs. Suc (5 * size x)) \<le> 5 * size_list size es"
  by (induction es arbitrary: cs rule: entry_children.induct) (auto simp: rtry_eq_Ok_iff split: if_splits)

lemma audit_children_weight:
  assumes "audit_children position lim (e, d, n, ls) = Ok items"
  shows "sum_list (map item_weight items) < expr_weight e"
proof (cases e)
  case (Call f target args)
  with assms list_weight [of args] show ?thesis
    by (auto simp: audit_children_def expr_weight_def comp_def item_weight_def split: if_splits option.splits)
next
  case (ListExpr xs opts)
  with assms list_weight [of xs] show ?thesis
    by (auto simp: audit_children_def expr_weight_def comp_def item_weight_def split: if_splits)
next
  case (MapExpr es)
  with assms obtain cs where "entry_children es = Ok cs" "items = map (\<lambda>c. (c, d + 1, n, ls)) cs"
    by (auto simp: audit_children_def rtry_eq_Ok_iff)
  with MapExpr entry_weight [of es cs] show ?thesis by (simp add: comp_def expr_weight_def item_weight_def)
qed (use assms in \<open>auto simp: audit_children_def expr_weight_def item_weight_def Let_def split: if_splits\<close>)

declare rtry_cong [fundef_cong]

function audit_loop ::
  "position \<Rightarrow> limits \<Rightarrow> nat \<Rightarrow> audit_item list \<Rightarrow> (expression_error, nat) result" where
  "audit_loop position lim nodes todo =
     (case todo of
        [] \<Rightarrow> Ok nodes
      | item # rest \<Rightarrow>
          rtry (audit_turn position lim (nodes + 1) item) (\<lambda>children.
            audit_loop position lim (nodes + 1) (children @ rest)))"
  by pat_completeness auto
termination
proof (relation "measure (\<lambda>(position, lim, nodes, todo). sum_list (map item_weight todo))", goal_cases)
  case (2 position lim nodes todo item rest children)
  then show ?case
    using audit_children_weight [of position lim "fst item"]
    by (cases item) (auto simp: audit_turn_def item_weight_def split: if_splits)
qed simp

declare audit_loop.simps [simp del]

definition audit :: "cel_expr \<Rightarrow> position \<Rightarrow> limits \<Rightarrow> (expression_error, nat) result" where
  "audit root position lim = audit_loop position lim 0 [(root, 1, 0, [])]"

section \<open>What the audit accepts\<close>

text \<open>The reading of an expression by recursion on its structure: its size, its depth, how deep its
  comprehensions nest, whether it uses only supported forms, the functions it calls and the
  identifiers that are free in it.\<close>

fun expr_nodes :: "cel_expr \<Rightarrow> nat" and entry_nodes :: "cel_entry \<Rightarrow> nat" where
  "expr_nodes (Call f t args) =
     1 + (case t of None \<Rightarrow> 0 | Some e \<Rightarrow> expr_nodes e) + (\<Sum>e\<leftarrow>args. expr_nodes e)"
| "expr_nodes (Select e _) = 1 + expr_nodes e"
| "expr_nodes (ListExpr es _) = 1 + (\<Sum>e\<leftarrow>es. expr_nodes e)"
| "expr_nodes (MapExpr es) = 1 + (\<Sum>e\<leftarrow>es. entry_nodes e)"
| "expr_nodes (Comprehension rng v v2 a i c s r) =
     1 + expr_nodes rng + expr_nodes i + expr_nodes c + expr_nodes s + expr_nodes r"
| "expr_nodes _ = 1"
| "entry_nodes StructField = 0"
| "entry_nodes (MapEntry k v _) = expr_nodes k + expr_nodes v"

fun depth_within :: "nat \<Rightarrow> cel_expr \<Rightarrow> bool" and entry_depth_within :: "nat \<Rightarrow> cel_entry \<Rightarrow> bool" where
  "depth_within 0 _ = False"
| "depth_within (Suc n) (Call f t args) =
     ((case t of None \<Rightarrow> True | Some e \<Rightarrow> depth_within n e) \<and> list_all (\<lambda>e. depth_within n e) args)"
| "depth_within (Suc n) (Select e _) = depth_within n e"
| "depth_within (Suc n) (ListExpr es _) = list_all (\<lambda>e. depth_within n e) es"
| "depth_within (Suc n) (MapExpr es) = list_all (\<lambda>e. entry_depth_within n e) es"
| "depth_within (Suc n) (Comprehension rng v v2 a i c s r) =
     (depth_within n rng \<and> depth_within n i \<and> depth_within n c \<and> depth_within n s \<and> depth_within n r)"
| "depth_within (Suc n) _ = True"
| "entry_depth_within n StructField = True"
| "entry_depth_within n (MapEntry k v _) = (depth_within n k \<and> depth_within n v)"

fun nesting_within :: "nat \<Rightarrow> cel_expr \<Rightarrow> bool" and entry_nesting_within :: "nat \<Rightarrow> cel_entry \<Rightarrow> bool" where
  "nesting_within n (Call f t args) =
     ((case t of None \<Rightarrow> True | Some e \<Rightarrow> nesting_within n e) \<and> list_all (\<lambda>e. nesting_within n e) args)"
| "nesting_within n (Select e _) = nesting_within n e"
| "nesting_within n (ListExpr es _) = list_all (\<lambda>e. nesting_within n e) es"
| "nesting_within n (MapExpr es) = list_all (\<lambda>e. entry_nesting_within n e) es"
| "nesting_within n (Comprehension rng v v2 a i c s r) =
     (case n of
        0 \<Rightarrow> False
      | Suc m \<Rightarrow> nesting_within m rng \<and> nesting_within m i \<and> nesting_within m c \<and> nesting_within m s
          \<and> nesting_within m r)"
| "nesting_within n _ = True"
| "entry_nesting_within n StructField = True"
| "entry_nesting_within n (MapEntry k v _) = (nesting_within n k \<and> nesting_within n v)"

fun supported :: "cel_expr \<Rightarrow> bool" and entry_supported :: "cel_entry \<Rightarrow> bool" where
  "supported Unspecified = False"
| "supported Struct = False"
| "supported (Literal _) = True"
| "supported (Ident _) = True"
| "supported (Call f t args) =
     (f \<in> set FUNCTIONS \<and> (case t of None \<Rightarrow> True | Some e \<Rightarrow> supported e) \<and> list_all supported args)"
| "supported (Select e _) = supported e"
| "supported (ListExpr es opts) = (opts = [] \<and> list_all supported es)"
| "supported (MapExpr es) = list_all entry_supported es"
| "supported (Comprehension rng v v2 a i c s r) =
     (supported rng \<and> supported i \<and> supported c \<and> supported s \<and> supported r)"
| "entry_supported StructField = False"
| "entry_supported (MapEntry k v opt) = (\<not> opt \<and> supported k \<and> supported v)"

fun free_idents :: "cel_expr \<Rightarrow> string set" and entry_idents :: "cel_entry \<Rightarrow> string set" where
  "free_idents (Ident name) = {name}"
| "free_idents (Call f t args) =
     (case t of None \<Rightarrow> {} | Some e \<Rightarrow> free_idents e) \<union> \<Union> (set (map free_idents args))"
| "free_idents (Select e _) = free_idents e"
| "free_idents (ListExpr es _) = \<Union> (set (map free_idents es))"
| "free_idents (MapExpr es) = \<Union> (set (map entry_idents es))"
| "free_idents (Comprehension rng v v2 a i c s r) =
     free_idents rng \<union> free_idents i
     \<union> (free_idents c \<union> free_idents s - ({a, v} \<union> set_option v2)) \<union> (free_idents r - {a})"
| "free_idents _ = {}"
| "entry_idents StructField = {}"
| "entry_idents (MapEntry k v _) = free_idents k \<union> free_idents v"

definition item_good :: "position \<Rightarrow> limits \<Rightarrow> audit_item \<Rightarrow> bool" where
  "item_good position lim item \<longleftrightarrow>
     (case item of (e, depth, nesting, locals) \<Rightarrow>
        depth_within (Suc (ast_depth lim) - depth) e
        \<and> nesting \<le> comprehension_depth lim \<and> nesting_within (comprehension_depth lim - nesting) e
        \<and> supported e \<and> free_idents e \<subseteq> {x. position_allows position x} \<union> set locals)"

lemma macros_not_functions: "f \<in> set FUNCTIONS \<Longrightarrow> f \<notin> set MACROS"
proof -
  have "list_all (\<lambda>f. f \<notin> set MACROS) FUNCTIONS" by code_simp
  then show "f \<in> set FUNCTIONS \<Longrightarrow> f \<notin> set MACROS" by (simp add: list_all_iff)
qed

lemma entry_children_all:
  "(\<exists>cs. entry_children es = Ok cs \<and> (\<forall>c \<in> set cs. P c)) \<longleftrightarrow>
   (\<forall>e \<in> set es. case e of StructField \<Rightarrow> False | MapEntry k v opt \<Rightarrow> \<not> opt \<and> P k \<and> P v)"
proof (induction es rule: entry_children.induct)
  case (3 k v opt es)
  then show ?case by (cases opt; cases "entry_children es") auto
qed auto

lemma entry_children_nodes:
  "entry_children es = Ok cs \<Longrightarrow> (\<Sum>e\<leftarrow>es. entry_nodes e) = (\<Sum>c\<leftarrow>cs. expr_nodes c)"
  by (induction es arbitrary: cs rule: entry_children.induct) (auto simp: rtry_eq_Ok_iff split: if_splits)

lemma audit_children_nodes:
  assumes "audit_children position lim (e, d, n, ls) = Ok items"
  shows "expr_nodes e = 1 + (\<Sum>item\<leftarrow>items. expr_nodes (fst item))"
  using assms
  by (cases e)
     (auto simp: audit_children_def rtry_eq_Ok_iff Let_def comp_def entry_children_nodes
       split: if_splits option.splits)

lemma item_good_map:
  "item_good position lim (MapExpr es, d, n, ls) \<longleftrightarrow>
   d \<le> ast_depth lim \<and> n \<le> comprehension_depth lim
   \<and> (\<forall>e \<in> set es. case e of StructField \<Rightarrow> False
        | MapEntry k v opt \<Rightarrow> \<not> opt \<and> item_good position lim (k, d + 1, n, ls)
            \<and> item_good position lim (v, d + 1, n, ls))"
proof (cases "d \<le> ast_depth lim \<and> n \<le> comprehension_depth lim")
  case True
  then have depth: "Suc (ast_depth lim) - d = Suc (ast_depth lim - d)" by (simp add: Suc_diff_le)
  let ?X = "{x. position_allows position x} \<union> set ls"
  have "item_good position lim (MapExpr es, d, n, ls) \<longleftrightarrow>
      (\<forall>e \<in> set es. entry_depth_within (ast_depth lim - d) e
         \<and> entry_nesting_within (comprehension_depth lim - n) e \<and> entry_supported e \<and> entry_idents e \<subseteq> ?X)"
    unfolding item_good_def prod.case depth depth_within.simps nesting_within.simps supported.simps
      free_idents.simps list_all_iff UN_subset_iff set_map image_image
    using True by blast
  also have "\<dots> \<longleftrightarrow> (\<forall>e \<in> set es. case e of StructField \<Rightarrow> False
        | MapEntry k v opt \<Rightarrow> \<not> opt \<and> item_good position lim (k, d + 1, n, ls)
            \<and> item_good position lim (v, d + 1, n, ls))"
  proof (rule ball_cong [OF refl])
    fix e assume "e \<in> set es"
    show "(entry_depth_within (ast_depth lim - d) e
         \<and> entry_nesting_within (comprehension_depth lim - n) e \<and> entry_supported e \<and> entry_idents e \<subseteq> ?X)
      \<longleftrightarrow> (case e of StructField \<Rightarrow> False
        | MapEntry k v opt \<Rightarrow> \<not> opt \<and> item_good position lim (k, d + 1, n, ls)
            \<and> item_good position lim (v, d + 1, n, ls))"
      using True by (cases e) (auto simp: item_good_def)
  qed
  finally show ?thesis using True by simp
qed (auto simp: item_good_def not_le)

lemma item_good_step:
  "item_good position lim (e, d, n, ls) \<longleftrightarrow>
   d \<le> ast_depth lim \<and> n \<le> comprehension_depth lim
   \<and> (\<exists>cs. audit_children position lim (e, d, n, ls) = Ok cs \<and> (\<forall>c \<in> set cs. item_good position lim c))"
proof (cases "d \<le> ast_depth lim \<and> n \<le> comprehension_depth lim")
  case True
  then have depth: "Suc (ast_depth lim) - d = Suc (ast_depth lim - d)" by (simp add: Suc_diff_le)
  show ?thesis
  proof (cases e)
    case (MapExpr es)
    have "(\<exists>cs. audit_children position lim (e, d, n, ls) = Ok cs \<and> (\<forall>c \<in> set cs. item_good position lim c))
        \<longleftrightarrow> (\<exists>cs. entry_children es = Ok cs \<and> (\<forall>c \<in> set cs. item_good position lim (c, d + 1, n, ls)))"
      using MapExpr by (auto simp: audit_children_def rtry_eq_Ok_iff)
    then show ?thesis unfolding entry_children_all using MapExpr item_good_map by simp
  next
    case (Comprehension rng v v2 a i c s r)
    show ?thesis
    proof (cases "comprehension_depth lim - n")
      case 0
      with Comprehension True depth show ?thesis by (simp add: item_good_def audit_children_def)
    next
      case (Suc m)
      then have "comprehension_depth lim - Suc n = m" "n < comprehension_depth lim" by simp_all
      with Suc Comprehension True depth show ?thesis
        by (cases v2) (auto simp: item_good_def audit_children_def Let_def)
    qed
  qed (use True depth in \<open>auto simp: item_good_def audit_children_def list_all_iff macros_not_functions
          split: option.splits\<close>)
next
  case False
  then show ?thesis by (auto simp: item_good_def not_le)
qed

lemma audit_turn_exact:
  assumes "n \<le> comprehension_depth lim"
  shows "audit_turn position lim nodes (e, d, n, ls) = Ok cs \<longleftrightarrow>
     nodes \<le> ast_nodes lim \<and> d \<le> ast_depth lim \<and> audit_children position lim (e, d, n, ls) = Ok cs"
  by (auto simp: audit_turn_def)

lemma audit_children_nesting:
  "audit_children position lim (e, d, n, ls) = Ok items \<Longrightarrow> n \<le> comprehension_depth lim \<Longrightarrow>
   \<forall>(e, d, n, ls) \<in> set items. n \<le> comprehension_depth lim"
  by (cases e) (auto simp: audit_children_def rtry_eq_Ok_iff Let_def split: if_splits option.splits)

lemma audit_loop_Nil [simp]: "audit_loop position lim nodes [] = Ok nodes"
  by (simp add: audit_loop.simps)

lemmas audit_loop_Cons =
  audit_loop.simps [of _ _ _ "item # rest" for item rest, unfolded list.case]

lemma audit_loop_exact:
  "\<forall>(e, d, n, ls) \<in> set todo. n \<le> comprehension_depth lim \<Longrightarrow> nodes \<le> ast_nodes lim \<Longrightarrow>
   audit_loop position lim nodes todo = Ok m \<longleftrightarrow>
   (\<forall>item \<in> set todo. item_good position lim item)
   \<and> m = nodes + (\<Sum>item\<leftarrow>todo. expr_nodes (fst item)) \<and> m \<le> ast_nodes lim"
proof (induction position lim nodes todo arbitrary: m rule: audit_loop.induct)
  case (1 position lim nodes todo)
  show ?case
  proof (cases todo)
    case Nil
    with "1.prems" show ?thesis by auto
  next
    case (Cons item rest)
    obtain e d n ls where item: "item = (e, d, n, ls)" by (cases item)
    with Cons "1.prems" have n: "n \<le> comprehension_depth lim" by simp
    show ?thesis
    proof (cases "audit_turn position lim (nodes + 1) item")
      case (Inl err)
      then have "\<not> (nodes + 1 \<le> ast_nodes lim \<and> item_good position lim item)"
        using item n by (auto simp: item_good_step audit_turn_def split: if_splits)
      moreover have "1 \<le> expr_nodes e" by (cases e) simp_all
      ultimately show ?thesis
        using Inl Cons item by (auto simp: audit_loop_Cons)
    next
      case (Inr cs)
      with item n have turn: "nodes + 1 \<le> ast_nodes lim" "d \<le> ast_depth lim"
        "audit_children position lim (e, d, n, ls) = Ok cs"
        by (auto simp: audit_turn_exact)
      have "\<forall>(e, d, n, ls) \<in> set (cs @ rest). n \<le> comprehension_depth lim"
        using audit_children_nesting [OF turn(3) n] "1.prems"(1) Cons unfolding set_append ball_Un by simp
      note ih = "1.IH" [OF Cons Inr this turn(1)]
      have "audit_loop position lim (nodes + 1) (cs @ rest) = Ok m \<longleftrightarrow>
          (\<forall>item \<in> set (cs @ rest). item_good position lim item)
          \<and> m = nodes + 1 + (\<Sum>item\<leftarrow>cs @ rest. expr_nodes (fst item)) \<and> m \<le> ast_nodes lim"
        by (rule ih)
      moreover have "item_good position lim item \<longleftrightarrow> (\<forall>c \<in> set cs. item_good position lim c)"
        using item n turn(2,3) by (simp add: item_good_step)
      ultimately show ?thesis
        using Inr Cons item audit_children_nodes [OF turn(3)]
        by (auto simp: audit_loop_Cons)
    qed
  qed
qed

text \<open>C6: The audit of a parsed expression accepts exactly the expressions that keep the limits on
  size, depth and nested comprehensions, call only functions of the fixed list, use only supported
  forms and whose free identifiers are the ones the position binds; a variable of a comprehension
  counts as bound only where it is in scope.  The number it returns is the size of the expression.\<close>

theorem audit_exact:
  "audit root position lim = Ok m \<longleftrightarrow>
     depth_within (ast_depth lim) root \<and> nesting_within (comprehension_depth lim) root
     \<and> supported root \<and> free_idents root \<subseteq> {x. position_allows position x}
     \<and> m = expr_nodes root \<and> m \<le> ast_nodes lim"
  using audit_loop_exact [of "[(root, 1, 0, [])]" lim 0 position m]
  by (simp add: audit_def item_good_def)

end
