(* ===== verification/Expr_Cache.thy ===== *)
theory Expr_Cache
  imports Expr_Compiler
begin

text \<open>
  The cache of compiled programs, \<open>crates/workflow-expression/src/compiler.rs\<close>.  A program carries a
  number that stands for its allocation; \<open>held\<close> says of an allocation whether someone other than the
  cache owns it, which is what the reference count tells the source.  A \<open>usize\<close> is a natural number:
  the sums stay below the budget, and the products saturate.
\<close>

section \<open>Compilation\<close>

record program =
  pr_id :: nat
  pr_expr :: cel_expr

record compiled =
  co_program :: program
  co_position :: position
  co_limits :: limits

definition compile_with_limits ::
  "(string \<Rightarrow> cel_expr option) \<Rightarrow> nat \<Rightarrow> string \<Rightarrow> position \<Rightarrow> limits \<Rightarrow> (expression_error, compiled) result" where
  "compile_with_limits parse fresh source position lim =
     (if length source > source_bytes lim then Err (admission Limit)
      else
        rtry (ok_or (admission Invalid) (parse source)) (\<lambda>e.
        rtry (audit e position lim) (\<lambda>_.
          Ok \<lparr>co_program = \<lparr>pr_id = fresh, pr_expr = e\<rparr>, co_position = position, co_limits = lim\<rparr>)))"

section \<open>The cache\<close>

record cache_entry =
  ce_profile :: profile
  ce_hash :: string
  ce_program :: program
  ce_bytes :: nat

record compile_cache =
  cc_entries :: "cache_entry list"
  cc_retired :: "cache_entry list"
  cc_bytes :: nat
  cc_max_entries :: nat
  cc_max_bytes :: nat

definition MAX_ENTRIES :: nat where
  "MAX_ENTRIES = 128"

definition MAX_BYTES :: nat where
  "MAX_BYTES = 16 * 1024 * 1024"

definition with_budget :: "nat \<Rightarrow> nat \<Rightarrow> compile_cache" where
  "with_budget max_entries max_bytes =
     \<lparr>cc_entries = [], cc_retired = [], cc_bytes = 0,
      cc_max_entries = min max_entries MAX_ENTRIES, cc_max_bytes = min max_bytes MAX_BYTES\<rparr>"

definition cache_len :: "compile_cache \<Rightarrow> nat" where
  "cache_len cache = length (cc_entries cache) + length (cc_retired cache)"

definition swap_remove :: "nat \<Rightarrow> 'a list \<Rightarrow> 'a list" where
  "swap_remove i xs = (if i = length xs - 1 then butlast xs else (butlast xs)[i := last xs])"

function collect_loop ::
  "(nat \<Rightarrow> bool) \<Rightarrow> nat \<Rightarrow> cache_entry list \<Rightarrow> nat \<Rightarrow> cache_entry list \<times> nat" where
  "collect_loop held i retired bytes =
     (if i < length retired then
        if \<not> held (pr_id (ce_program (retired ! i)))
        then collect_loop held i (swap_remove i retired) (bytes - ce_bytes (retired ! i))
        else collect_loop held (i + 1) retired bytes
      else (retired, bytes))"
  by pat_completeness auto
termination
  by (relation "measure (\<lambda>(held, i, retired, bytes). length retired - i)") (auto simp: swap_remove_def)

declare collect_loop.simps [simp del]

definition collect :: "(nat \<Rightarrow> bool) \<Rightarrow> compile_cache \<Rightarrow> compile_cache" where
  "collect held cache =
     (case collect_loop held 0 (cc_retired cache) (cc_bytes cache) of
        (retired, bytes) \<Rightarrow> cache\<lparr>cc_retired := retired, cc_bytes := bytes\<rparr>)"

definition cache_over_budget :: "compile_cache \<Rightarrow> nat \<Rightarrow> bool" where
  "cache_over_budget cache bytes \<longleftrightarrow>
     cc_max_entries cache \<le> cache_len cache \<or> cc_max_bytes cache < cc_bytes cache + bytes"

definition retire_first :: "(nat \<Rightarrow> bool) \<Rightarrow> cache_entry \<Rightarrow> cache_entry list \<Rightarrow> compile_cache \<Rightarrow> compile_cache" where
  "retire_first held entry rest cache =
     collect held (cache\<lparr>cc_entries := rest, cc_retired := cc_retired cache @ [entry]\<rparr>)"

lemma collect_keeps [simp]:
  "cc_entries (collect held cache) = cc_entries cache"
  "cc_max_entries (collect held cache) = cc_max_entries cache"
  "cc_max_bytes (collect held cache) = cc_max_bytes cache"
  by (simp_all add: collect_def split: prod.splits)

lemma retire_first_keeps [simp]:
  "cc_entries (retire_first held entry rest cache) = rest"
  "cc_max_entries (retire_first held entry rest cache) = cc_max_entries cache"
  "cc_max_bytes (retire_first held entry rest cache) = cc_max_bytes cache"
  by (simp_all add: retire_first_def)

function evict :: "(nat \<Rightarrow> bool) \<Rightarrow> nat \<Rightarrow> compile_cache \<Rightarrow> compile_cache" where
  "evict held bytes cache =
     (if cache_over_budget cache bytes then
        (case cc_entries cache of
           [] \<Rightarrow> cache
         | entry # rest \<Rightarrow> evict held bytes (retire_first held entry rest cache))
      else cache)"
  by pat_completeness auto
termination
  by (relation "measure (\<lambda>(held, bytes, cache). length (cc_entries cache))") auto

declare evict.simps [simp del]

definition entry_charge :: "nat \<Rightarrow> string \<Rightarrow> nat" where
  "entry_charge nodes source =
     sat_add (sat_mul nodes (sat_add 512 (sat_mul (length source) 4))) 256"

definition retain ::
  "(nat \<Rightarrow> bool) \<Rightarrow> cache_entry \<Rightarrow> compile_cache \<Rightarrow> compile_cache" where
  "retain held entry cache =
     (if 0 < cc_max_entries cache \<and> ce_bytes entry \<le> cc_max_bytes cache then
        let cache = evict held (ce_bytes entry) cache in
        if cache_over_budget cache (ce_bytes entry) then cache
        else cache\<lparr>cc_bytes := cc_bytes cache + ce_bytes entry, cc_entries := cc_entries cache @ [entry]\<rparr>
      else cache)"

definition cached_compile ::
  "(string \<Rightarrow> cel_expr option) \<Rightarrow> (string \<Rightarrow> string) \<Rightarrow> (nat \<Rightarrow> bool) \<Rightarrow> nat \<Rightarrow> profile \<Rightarrow> string \<Rightarrow> position
     \<Rightarrow> limits \<Rightarrow> compile_cache \<Rightarrow> (expression_error, compiled) result \<times> compile_cache" where
  "cached_compile parse hash held fresh profile source position lim cache =
     (let cache = collect held cache in
      if profile \<noteq> CelWorkflowV2 then (Err (admission ProfileUnsupported), cache)
      else if length source > source_bytes lim then (Err (admission Limit), cache)
      else
        case find (\<lambda>entry. ce_profile entry = profile \<and> ce_hash entry = hash source) (cc_entries cache) of
          Some entry \<Rightarrow>
            (rtry (audit (pr_expr (ce_program entry)) position lim) (\<lambda>_.
               Ok \<lparr>co_program = ce_program entry, co_position = position, co_limits = lim\<rparr>), cache)
        | None \<Rightarrow>
            (case compile_with_limits parse fresh source position lim of
               Err e \<Rightarrow> (Err e, cache)
             | Ok compiled \<Rightarrow>
                 (case audit (pr_expr (co_program compiled)) position lim of
                    Err e \<Rightarrow> (Err e, cache)
                  | Ok nodes \<Rightarrow>
                      (Ok compiled,
                       retain held
                         \<lparr>ce_profile = profile, ce_hash = hash source, ce_program = co_program compiled,
                          ce_bytes = entry_charge nodes source\<rparr> cache))))"

section \<open>Sequences of requests\<close>

record compile_request =
  rq_held :: "nat \<Rightarrow> bool"
  rq_profile :: profile
  rq_source :: string
  rq_position :: position
  rq_limits :: limits

fun serve ::
  "(string \<Rightarrow> cel_expr option) \<Rightarrow> (string \<Rightarrow> string) \<Rightarrow> nat \<Rightarrow> compile_request list \<Rightarrow> compile_cache
     \<Rightarrow> (expression_error, compiled) result list \<times> compile_cache" where
  "serve parse hash fresh [] cache = ([], cache)"
| "serve parse hash fresh (r # rs) cache =
     (case cached_compile parse hash (rq_held r) fresh (rq_profile r) (rq_source r) (rq_position r)
             (rq_limits r) cache of
        (answer, cache) \<Rightarrow>
          (case serve parse hash (fresh + 1) rs cache of (answers, cache) \<Rightarrow> (answer # answers, cache)))"

section \<open>Accounting\<close>

abbreviation charges :: "cache_entry list \<Rightarrow> nat" where
  "charges es \<equiv> sum_list (map ce_bytes es)"

lemma sum_list_butlast_last:
  "xs \<noteq> [] \<Longrightarrow> sum_list (map f xs) = sum_list (map f (butlast xs)) + (f (last xs) :: nat)"
  by (induction xs) auto

lemma sum_list_nth_update:
  "i < length ys \<Longrightarrow> sum_list (map f (ys[i := y])) + f (ys ! i) = sum_list (map f ys) + (f y :: nat)"
  by (induction ys arbitrary: i) (auto split: nat.splits)

lemma swap_remove:
  assumes "i < length xs"
  shows "sum_list (map f (swap_remove i xs)) + f (xs ! i) = sum_list (map (f :: 'a \<Rightarrow> nat) xs)"
    "length (swap_remove i xs) = length xs - 1" "set (swap_remove i xs) \<subseteq> set xs"
proof -
  have ne: "xs \<noteq> []" using assms by auto
  show "sum_list (map f (swap_remove i xs)) + f (xs ! i) = sum_list (map f xs)"
  proof (cases "i = length xs - 1")
    case True
    with ne sum_list_butlast_last [OF ne, of f] show ?thesis by (simp add: swap_remove_def last_conv_nth)
  next
    case False
    with assms have "i < length (butlast xs)" by simp
    with False assms sum_list_nth_update [OF this, of f "last xs"] sum_list_butlast_last [OF ne, of f]
    show ?thesis by (simp add: swap_remove_def nth_butlast)
  qed
  show "length (swap_remove i xs) = length xs - 1" by (simp add: swap_remove_def)
  show "set (swap_remove i xs) \<subseteq> set xs"
    using ne by (auto simp: swap_remove_def dest: in_set_butlastD dest!: set_update_subset_insert [THEN subsetD])
qed

lemma collect_loop_accounts:
  "collect_loop held i retired bytes = (retired', bytes') \<Longrightarrow> charges retired \<le> bytes \<Longrightarrow>
   bytes' + charges retired = bytes + charges retired' \<and> bytes' \<le> bytes \<and> length retired' \<le> length retired"
proof (induction held i retired bytes rule: collect_loop.induct)
  case (1 held i retired bytes)
  show ?case
  proof (cases "i < length retired \<and> \<not> held (pr_id (ce_program (retired ! i)))")
    case True
    then have run: "collect_loop held i (swap_remove i retired) (bytes - ce_bytes (retired ! i)) = (retired', bytes')"
      using "1.prems"(1) by (simp add: collect_loop.simps [of held i retired])
    have sum: "charges (swap_remove i retired) + ce_bytes (retired ! i) = charges retired"
      "length (swap_remove i retired) = length retired - 1"
      using True swap_remove(1) [of i retired ce_bytes] swap_remove(2) [of i retired] by simp_all
    then have "bytes' + charges (swap_remove i retired) = bytes - ce_bytes (retired ! i) + charges retired'
        \<and> bytes' \<le> bytes - ce_bytes (retired ! i) \<and> length retired' \<le> length (swap_remove i retired)"
      using "1.IH"(1) [OF _ _ run] True "1.prems"(2) by simp
    with sum "1.prems"(2) show ?thesis by linarith
  next
    case False
    with 1 show ?thesis by (auto simp: collect_loop.simps [of held i retired] split: if_splits)
  qed
qed

definition cache_bounded :: "compile_cache \<Rightarrow> bool" where
  "cache_bounded cache \<longleftrightarrow>
     cc_bytes cache = charges (cc_entries cache) + charges (cc_retired cache)
     \<and> cache_len cache \<le> cc_max_entries cache \<and> cc_bytes cache \<le> cc_max_bytes cache"

lemma collect_accounts:
  assumes "cc_bytes cache = charges (cc_entries cache) + charges (cc_retired cache)"
  shows "cc_bytes (collect held cache) = charges (cc_entries cache) + charges (cc_retired (collect held cache))"
    "cc_bytes (collect held cache) \<le> cc_bytes cache" "cache_len (collect held cache) \<le> cache_len cache"
proof -
  obtain retired bytes where run: "collect_loop held 0 (cc_retired cache) (cc_bytes cache) = (retired, bytes)"
    by (meson surj_pair)
  from collect_loop_accounts [OF run] assms
  have *: "bytes + charges (cc_retired cache) = cc_bytes cache + charges retired"
    "bytes \<le> cc_bytes cache" "length retired \<le> length (cc_retired cache)" by simp_all
  with run assms
  show "cc_bytes (collect held cache) = charges (cc_entries cache) + charges (cc_retired (collect held cache))"
    "cc_bytes (collect held cache) \<le> cc_bytes cache" "cache_len (collect held cache) \<le> cache_len cache"
    by (simp_all add: collect_def cache_len_def)
qed

lemma collect_bounded: "cache_bounded cache \<Longrightarrow> cache_bounded (collect held cache)"
  using collect_accounts [of cache held] by (auto simp: cache_bounded_def)

lemma retire_first_bounded:
  assumes "cache_bounded cache" and "cc_entries cache = entry # rest"
  shows "cache_bounded (retire_first held entry rest cache)"
  unfolding retire_first_def
  by (rule collect_bounded) (use assms in \<open>simp add: cache_bounded_def cache_len_def\<close>)

lemma evict_keeps:
  "cc_max_entries (evict held bytes cache) = cc_max_entries cache
   \<and> cc_max_bytes (evict held bytes cache) = cc_max_bytes cache
   \<and> set (cc_entries (evict held bytes cache)) \<subseteq> set (cc_entries cache)
   \<and> (cache_bounded cache \<longrightarrow> cache_bounded (evict held bytes cache))"
proof (induction held bytes cache rule: evict.induct)
  case (1 held bytes cache)
  show ?case
  proof (cases "cache_over_budget cache bytes \<and> cc_entries cache \<noteq> []")
    case True
    then obtain entry rest where e: "cc_entries cache = entry # rest" by (cases "cc_entries cache") auto
    with True have "evict held bytes cache = evict held bytes (retire_first held entry rest cache)"
      by (simp add: evict.simps [of held bytes cache])
    with "1.IH" [OF _ e] True e retire_first_bounded [OF _ e, of held] show ?thesis by auto
  next
    case False
    then show ?thesis by (auto simp: evict.simps [of held bytes cache] split: list.splits)
  qed
qed

lemma retain_cache_keeps:
  "cc_max_entries (retain held entry cache) = cc_max_entries cache"
  "cc_max_bytes (retain held entry cache) = cc_max_bytes cache"
  "set (cc_entries (retain held entry cache)) \<subseteq> insert entry (set (cc_entries cache))"
  "cache_bounded cache \<Longrightarrow> cache_bounded (retain held entry cache)"
proof -
  note keeps = evict_keeps [of held "ce_bytes entry" cache]
  show "cc_max_entries (retain held entry cache) = cc_max_entries cache"
    "cc_max_bytes (retain held entry cache) = cc_max_bytes cache"
    "set (cc_entries (retain held entry cache)) \<subseteq> insert entry (set (cc_entries cache))"
    using keeps by (auto simp: retain_def Let_def)
  assume "cache_bounded cache"
  with keeps show "cache_bounded (retain held entry cache)"
    by (auto simp: retain_def Let_def cache_bounded_def cache_over_budget_def cache_len_def)
qed

section \<open>The cache answers as the compiler does\<close>

text \<open>An answer without the allocation of its program, and the answer of a compiler without a cache.\<close>

type_synonym answer = "(expression_error, cel_expr \<times> position \<times> limits) result"

definition forget :: "(expression_error, compiled) result \<Rightarrow> answer" where
  "forget r = map_sum id (\<lambda>c. (pr_expr (co_program c), co_position c, co_limits c)) r"

definition direct_compile :: "(string \<Rightarrow> cel_expr option) \<Rightarrow> compile_request \<Rightarrow> answer" where
  "direct_compile parse r =
     (if rq_profile r \<noteq> CelWorkflowV2 then Err (admission ProfileUnsupported)
      else forget (compile_with_limits parse 0 (rq_source r) (rq_position r) (rq_limits r)))"

definition collision_free :: "(string \<Rightarrow> cel_expr option) \<Rightarrow> (string \<Rightarrow> string) \<Rightarrow> bool" where
  "collision_free parse hash \<longleftrightarrow> (\<forall>s t. hash s = hash t \<longrightarrow> parse s = parse t)"

definition entry_sound :: "(string \<Rightarrow> cel_expr option) \<Rightarrow> (string \<Rightarrow> string) \<Rightarrow> cache_entry \<Rightarrow> bool" where
  "entry_sound parse hash entry \<longleftrightarrow>
     (\<exists>s. hash s = ce_hash entry \<and> parse s = Some (pr_expr (ce_program entry)))"

lemma compile_with_limits_Ok:
  "compile_with_limits parse fresh source position lim = Ok c \<longleftrightarrow>
   length source \<le> source_bytes lim \<and> parse source = Some (pr_expr (co_program c))
   \<and> is_ok (audit (pr_expr (co_program c)) position lim)
   \<and> pr_id (co_program c) = fresh \<and> co_position c = position \<and> co_limits c = lim"
  by (auto simp: compile_with_limits_def rtry_eq_Ok_iff is_ok_iff)

lemma forget_compile:
  "forget (compile_with_limits parse fresh source position lim) =
   forget (compile_with_limits parse 0 source position lim)"
  by (cases "parse source"; cases "audit (the (parse source)) position lim")
     (auto simp: compile_with_limits_def forget_def)

definition new_entry :: "(string \<Rightarrow> string) \<Rightarrow> string \<Rightarrow> compiled \<Rightarrow> nat \<Rightarrow> cache_entry" where
  "new_entry hash source c n =
     \<lparr>ce_profile = CelWorkflowV2, ce_hash = hash source, ce_program = co_program c,
      ce_bytes = entry_charge n source\<rparr>"

lemma cached_compile_cases:
  "snd (cached_compile parse hash held fresh profile source position lim cache) = collect held cache
   \<or> (\<exists>c n. snd (cached_compile parse hash held fresh profile source position lim cache) =
           retain held (new_entry hash source c n) (collect held cache)
         \<and> compile_with_limits parse fresh source position lim = Ok c)"
  by (auto simp: cached_compile_def new_entry_def Let_def split: option.split sum.split)

lemma cached_compile_invariant:
  assumes "\<forall>e \<in> set (cc_entries cache). entry_sound parse hash e"
    and "cached_compile parse hash held fresh profile source position lim cache = (answer, cache')"
  shows "\<forall>e \<in> set (cc_entries cache'). entry_sound parse hash e"
    "cc_max_entries cache' = cc_max_entries cache" "cc_max_bytes cache' = cc_max_bytes cache"
    "cache_bounded cache \<Longrightarrow> cache_bounded cache'"
proof -
  have "(\<forall>e \<in> set (cc_entries cache'). entry_sound parse hash e)
    \<and> cc_max_entries cache' = cc_max_entries cache \<and> cc_max_bytes cache' = cc_max_bytes cache
    \<and> (cache_bounded cache \<longrightarrow> cache_bounded cache')"
    using cached_compile_cases [of parse hash held fresh profile source position lim cache]
  proof (elim disjE exE conjE)
    assume "snd (cached_compile parse hash held fresh profile source position lim cache) = collect held cache"
    with assms show ?thesis by (auto intro: collect_bounded)
  next
    fix c n
    assume step: "snd (cached_compile parse hash held fresh profile source position lim cache) =
        retain held (new_entry hash source c n) (collect held cache)"
      and "compile_with_limits parse fresh source position lim = Ok c"
    then have "entry_sound parse hash (new_entry hash source c n)"
      by (auto simp: entry_sound_def compile_with_limits_Ok new_entry_def)
    moreover have "cache' = retain held (new_entry hash source c n) (collect held cache)"
      using step assms(2) by simp
    ultimately show ?thesis
      using assms(1)
        retain_cache_keeps [where held = held and entry = "new_entry hash source c n" and cache = "collect held cache"]
        collect_bounded [of cache held] by auto
  qed
  then show "\<forall>e \<in> set (cc_entries cache'). entry_sound parse hash e"
    "cc_max_entries cache' = cc_max_entries cache" "cc_max_bytes cache' = cc_max_bytes cache"
    "cache_bounded cache \<Longrightarrow> cache_bounded cache'" by blast+
qed

lemma cached_compile_answer:
  assumes free: "collision_free parse hash"
    and sound: "\<forall>e \<in> set (cc_entries cache). entry_sound parse hash e"
  shows "forget (fst (cached_compile parse hash held fresh profile source position lim cache)) =
     (if profile \<noteq> CelWorkflowV2 then Err (admission ProfileUnsupported)
      else forget (compile_with_limits parse 0 source position lim))"
proof (cases "profile = CelWorkflowV2 \<and> length source \<le> source_bytes lim")
  case False
  then show ?thesis
    by (auto simp: cached_compile_def compile_with_limits_def forget_def Let_def)
next
  case True
  show ?thesis
  proof (cases "find (\<lambda>e. ce_profile e = profile \<and> ce_hash e = hash source) (cc_entries cache)")
    case None
    with True have "fst (cached_compile parse hash held fresh profile source position lim cache) =
        compile_with_limits parse fresh source position lim"
    proof (cases "compile_with_limits parse fresh source position lim")
      case (Inr c)
      then obtain n where "audit (pr_expr (co_program c)) position lim = Ok n"
        by (auto simp: compile_with_limits_Ok is_ok_iff)
      with Inr None True show ?thesis by (simp add: cached_compile_def Let_def)
    qed (simp add: cached_compile_def Let_def)
    with True show ?thesis using forget_compile [of parse fresh] by simp
  next
    case (Some e)
    then have "e \<in> set (cc_entries cache)" "ce_hash e = hash source"
      by (auto simp: find_Some_iff)
    with sound free have "parse source = Some (pr_expr (ce_program e))"
      unfolding entry_sound_def collision_free_def by metis
    with True Some show ?thesis
      by (cases "audit (pr_expr (ce_program e)) position lim")
         (auto simp: cached_compile_def compile_with_limits_def forget_def Let_def)
  qed
qed

lemma serve_invariant:
  "\<forall>e \<in> set (cc_entries cache). entry_sound parse hash e \<Longrightarrow>
   cc_max_entries (snd (serve parse hash fresh rs cache)) = cc_max_entries cache
   \<and> cc_max_bytes (snd (serve parse hash fresh rs cache)) = cc_max_bytes cache
   \<and> (cache_bounded cache \<longrightarrow> cache_bounded (snd (serve parse hash fresh rs cache)))
   \<and> (collision_free parse hash \<longrightarrow>
        map forget (fst (serve parse hash fresh rs cache)) = map (direct_compile parse) rs)"
proof (induction rs arbitrary: fresh cache)
  case (Cons r rs)
  obtain answer cache' where run: "cached_compile parse hash (rq_held r) fresh (rq_profile r) (rq_source r)
      (rq_position r) (rq_limits r) cache = (answer, cache')" by (meson surj_pair)
  note inv = cached_compile_invariant [OF Cons.prems run]
  have "forget answer = direct_compile parse r" if "collision_free parse hash"
    using cached_compile_answer [OF that Cons.prems, of "rq_held r" fresh "rq_profile r" "rq_source r"
        "rq_position r" "rq_limits r"] run by (simp add: direct_compile_def)
  with Cons.IH [OF inv(1), of "fresh + 1"] inv(2-4) run show ?case
    by (auto split: prod.split)
qed simp

text \<open>The cache is invisible in the answers.  If sources with the same digest parse alike, a
  sequence of requests is answered as a compiler without a cache answers it: errors in the same
  place, and the same program, position and limits otherwise, whatever the budget and whichever
  programs are still in use.\<close>

theorem cache_transparent:
  assumes "collision_free parse hash"
  shows "map forget (fst (serve parse hash fresh rs (with_budget max_entries max_bytes))) =
         map (direct_compile parse) rs"
  using assms serve_invariant [of "with_budget max_entries max_bytes" parse hash fresh rs]
  by (simp add: with_budget_def)

definition parse_example :: "string \<Rightarrow> cel_expr option" where
  "parse_example s = (if s = ''context'' then Some (Ident s) else if s = ''x'' then Some (Ident s) else None)"

definition requests_example :: "compile_request list" where
  "requests_example =
     map (\<lambda>s. \<lparr>rq_held = (\<lambda>_. False), rq_profile = CelWorkflowV2, rq_source = s, rq_position = HttpBody,
               rq_limits = default_limits\<rparr>) [''context'', ''context'', ''x'', ''?'']"

theorem cache_transparent_witness:
  "collision_free parse_example id
   \<and> map forget (fst (serve parse_example id 0 requests_example (with_budget 1 5000))) =
       map (direct_compile parse_example) requests_example
   \<and> map is_ok (fst (serve parse_example id 0 requests_example (with_budget 1 5000))) = [True, True, False, False]"
proof -
  have free: "collision_free parse_example id" by (simp add: collision_free_def)
  have "map is_ok (fst (serve parse_example id 0 requests_example (with_budget 1 5000))) =
      [True, True, False, False]" by code_simp
  with free cache_transparent [OF free] show ?thesis by blast
qed

text \<open>The cache keeps its budget.  After any sequence of requests the entries and the retired
  entries that are still in use are no more than the configured number, their charges add up to the
  recorded bytes, and these are within the configured bytes; the configuration never exceeds the
  fixed maxima.\<close>

theorem cache_within_budget:
  "let cache = snd (serve parse hash fresh rs (with_budget max_entries max_bytes)) in
   cc_bytes cache = charges (cc_entries cache) + charges (cc_retired cache)
   \<and> cache_len cache \<le> min max_entries 128 \<and> cc_bytes cache \<le> min max_bytes 16777216"
proof -
  have "cache_bounded (with_budget max_entries max_bytes)"
    by (simp add: cache_bounded_def with_budget_def cache_len_def)
  moreover define cache where "cache = snd (serve parse hash fresh rs (with_budget max_entries max_bytes))"
  ultimately have "cache_bounded cache" "cc_max_entries cache = min max_entries 128"
    "cc_max_bytes cache = min max_bytes 16777216"
    using serve_invariant [of "with_budget max_entries max_bytes" parse hash fresh rs]
    by (simp_all add: with_budget_def MAX_ENTRIES_def MAX_BYTES_def)
  then show ?thesis unfolding Let_def cache_def [symmetric] cache_bounded_def by simp
qed

end
