(* ===== verification/Expr_Json.thy ===== *)
theory Expr_Json
  imports Expr_Cache "HOL-Library.Multiset"
begin

text \<open>
  JSON values at the boundary of the expression engine, \<open>crates/workflow-expression/src/json.rs\<close>:
  the limits on documents, the conversion to and from the values of the engine, and the evaluation
  of a compiled expression.

  The engine and the JSON writer are library code.  \<open>execute\<close> runs a program on bound variables with
  the functions for the limits of the bindings, and \<open>writes\<close> gives the pieces in which the writer
  emits a document.  A value of the engine is one of the forms the source distinguishes; a map lists
  its entries in the order of their keys, where the keys that are not strings come first, and a
  float is its display form or not finite.
\<close>

section \<open>Limits on documents\<close>

text \<open>A writer that refuses to grow past its capacity.\<close>

definition capped_write :: "nat \<Rightarrow> string \<Rightarrow> string \<Rightarrow> string option" where
  "capped_write cap bytes piece =
     (if length piece > cap - length bytes then None else Some (bytes @ piece))"

fun capped_writes :: "nat \<Rightarrow> string \<Rightarrow> string list \<Rightarrow> string option" where
  "capped_writes cap bytes [] = Some bytes"
| "capped_writes cap bytes (p # ps) = Option.bind (capped_write cap bytes p) (\<lambda>b. capped_writes cap b ps)"

definition encode :: "(json \<Rightarrow> string list) \<Rightarrow> json \<Rightarrow> nat \<Rightarrow> (expression_error, string) result" where
  "encode writes v cap = ok_or (runtime Limit) (capped_writes cap [] (writes v))"

definition json_children :: "json \<Rightarrow> json list" where
  "json_children v =
     (case v of JArray vs \<Rightarrow> vs | JObject kvs \<Rightarrow> map snd (sort_key fst kvs) | _ \<Rightarrow> [])"

lemma sum_list_sort_key: "sum_list (map f (sort_key k xs)) = sum_list (map (f :: 'a \<Rightarrow> nat) xs)"
  by (metis mset_map mset_sort sum_mset_sum_list)

lemma size_members: "(\<Sum>kv\<leftarrow>kvs. Suc (size (snd kv))) \<le> size (JObject kvs)"
  by (induction kvs) auto

lemma size_elements: "(\<Sum>v\<leftarrow>vs. Suc (size v)) \<le> size (JArray vs)"
  by (induction vs) auto

lemma json_children_size: "(\<Sum>v\<leftarrow>json_children v. Suc (size v)) \<le> size v"
proof (cases v)
  case (JArray vs)
  then show ?thesis using size_elements [of vs] by (simp add: json_children_def)
next
  case (JObject kvs)
  then show ?thesis
    using size_members [of kvs] by (simp add: json_children_def comp_def sum_list_sort_key)
qed (simp_all add: json_children_def)

function measure_loop :: "limits \<Rightarrow> nat \<Rightarrow> (json \<times> nat) list \<Rightarrow> (expression_error, nat) result" where
  "measure_loop lim nodes todo =
     (case todo of
        [] \<Rightarrow> Ok nodes
      | (v, depth) # rest \<Rightarrow>
          if nodes + 1 > input_nodes lim \<or> depth > input_depth lim then Err (runtime Limit)
          else measure_loop lim (nodes + 1) (map (\<lambda>c. (c, depth + 1)) (json_children v) @ rest))"
  by pat_completeness auto
termination
proof (relation "measure (\<lambda>(lim, nodes, todo). \<Sum>item\<leftarrow>todo. Suc (size (fst item)))", goal_cases)
  case (2 lim nodes todo item rest v depth)
  then show ?case using json_children_size [of v] by (cases item) (simp add: comp_def)
qed simp

declare measure_loop.simps [simp del]

definition measure_json :: "json \<Rightarrow> nat \<Rightarrow> nat \<Rightarrow> limits \<Rightarrow> (expression_error, nat) result" where
  "measure_json v start_depth nodes lim = measure_loop lim nodes [(v, start_depth)]"

definition output_limits :: "limits \<Rightarrow> limits" where
  "output_limits lim = lim\<lparr>input_nodes := output_nodes lim, input_depth := output_depth lim\<rparr>"

definition validate_output :: "(json \<Rightarrow> string list) \<Rightarrow> json \<Rightarrow> limits \<Rightarrow> (expression_error, unit) result" where
  "validate_output writes v lim =
     rtry (measure_json v 0 0 (output_limits lim)) (\<lambda>_.
     rtry (encode writes v (output_bytes lim)) (\<lambda>_. Ok ()))"

record output_budget =
  ob_nodes :: nat
  ob_bytes :: nat

definition output_budget_new :: output_budget where
  "output_budget_new = \<lparr>ob_nodes = 0, ob_bytes = 0\<rparr>"

definition budget_add ::
  "(json \<Rightarrow> string list) \<Rightarrow> json \<Rightarrow> limits \<Rightarrow> output_budget \<Rightarrow> (expression_error, output_budget) result" where
  "budget_add writes v lim b =
     rtry (measure_json v 0 (ob_nodes b) (output_limits lim)) (\<lambda>nodes.
     rtry (encode writes v (output_bytes lim - ob_bytes b)) (\<lambda>text.
     rtry (ok_or (runtime Limit) (checked_add (ob_bytes b) (length text))) (\<lambda>bytes.
       if bytes > output_bytes lim then Err (runtime Limit)
       else Ok \<lparr>ob_nodes = nodes, ob_bytes = bytes\<rparr>)))"

definition validate_bindings ::
  "(json \<Rightarrow> string list) \<Rightarrow> json \<Rightarrow> json \<Rightarrow> json option \<Rightarrow> json option \<Rightarrow> limits
     \<Rightarrow> (expression_error, unit) result" where
  "validate_bindings writes ctx workflow_input out val lim =
     (case ctx of
        JObject _ \<Rightarrow>
          if 2 > input_nodes lim \<or> input_depth lim < 1 then Err (runtime Limit)
          else
            rtry (measure_json ctx 1 2 lim) (\<lambda>nodes.
            rtry (measure_json workflow_input 2 nodes lim) (\<lambda>nodes.
            rtry (case out of None \<Rightarrow> Ok nodes | Some v \<Rightarrow> measure_json v 1 nodes lim) (\<lambda>nodes.
            rtry (case val of None \<Rightarrow> Ok nodes | Some v \<Rightarrow> measure_json v 1 nodes lim) (\<lambda>nodes.
            rtry (ok_or (runtime Limit)
                    (capped_writes (input_bytes lim) []
                       ([''{\"context\":''] @ writes ctx @ ['',\"workflow\":{\"input\":''] @ writes workflow_input
                        @ [''}''] @ (case out of None \<Rightarrow> [] | Some v \<Rightarrow> '',\"output\":'' # writes v)
                        @ (case val of None \<Rightarrow> [] | Some v \<Rightarrow> '',\"value\":'' # writes v) @ [''}'']))) (\<lambda>_.
              Ok ())))))
      | _ \<Rightarrow> Err (runtime Evaluation))"

section \<open>Conversion\<close>

datatype cel_key = KeyInt int | KeyUint nat | KeyBool bool | KeyString string

datatype cel_value =
    CelNull
  | CelBool bool
  | CelInt int
  | CelUInt nat
  | CelFloat "string option"
  | CelString string
  | CelList "cel_value list"
  | CelMap "(cel_key \<times> cel_value) list"
  | CelBytes string
  | CelOther

fun from_number :: "json_number \<Rightarrow> cel_value" where
  "from_number (JU64 n) = (if n < 2 ^ 63 then CelInt (int n) else CelUInt n)"
| "from_number (JNeg n) = CelInt (- int n)"
| "from_number (JFloat s) = CelFloat (Some s)"

function (sequential) from_json :: "json \<Rightarrow> cel_value" where
  "from_json JNull = CelNull"
| "from_json (JBool b) = CelBool b"
| "from_json (JNumber n) = from_number n"
| "from_json (JString s) = CelString s"
| "from_json (JArray vs) = CelList (map from_json vs)"
| "from_json (JObject kvs) = CelMap (map (\<lambda>(k, v). (KeyString k, from_json v)) (sort_key fst kvs))"
  by pat_completeness auto
termination
  by (relation "measure size") (auto dest: element_size member_size)

definition int_json :: "int \<Rightarrow> json" where
  "int_json v = JNumber (if 0 \<le> v then JU64 (nat v) else JNeg (nat (- v)))"

text \<open>The conversion back counts the values it visits.\<close>

type_synonym 'a counted = "nat \<Rightarrow> (expression_error, 'a \<times> nat) result"

fun count_each :: "('a \<Rightarrow> 'b counted) \<Rightarrow> 'a list \<Rightarrow> 'b list counted" where
  "count_each f [] nodes = Ok ([], nodes)"
| "count_each f (x # xs) nodes =
     rtry (f x nodes) (\<lambda>(y, nodes). rtry (count_each f xs nodes) (\<lambda>(ys, nodes). Ok (y # ys, nodes)))"

lemma count_each_cong:
  "xs = ys \<Longrightarrow> n = m \<Longrightarrow> (\<And>x k. x \<in> set ys \<Longrightarrow> f x k = g x k) \<Longrightarrow> count_each f xs n = count_each g ys m"
proof (induction ys arbitrary: xs n m)
  case (Cons y ys)
  then show ?case by (cases "g y m") auto
qed simp

declare count_each_cong [fundef_cong]

lemma cel_element_size: "v \<in> set vs \<Longrightarrow> size v < size (CelList vs)"
  by (induction vs) auto

lemma cel_member_size: "(k, v) \<in> set kvs \<Longrightarrow> size v < size (CelMap kvs)"
  by (induction kvs) auto

function (sequential) to_json :: "limits \<Rightarrow> nat \<Rightarrow> cel_value \<Rightarrow> json counted" where
  "to_json lim depth v nodes =
     (let nodes = nodes + 1 in
      if nodes > output_nodes lim \<or> depth > output_depth lim then Err (runtime Limit)
      else
        (case v of
           CelNull \<Rightarrow> Ok (JNull, nodes)
         | CelBool b \<Rightarrow> Ok (JBool b, nodes)
         | CelInt i \<Rightarrow> Ok (int_json i, nodes)
         | CelUInt n \<Rightarrow> Ok (JNumber (JU64 n), nodes)
         | CelFloat f \<Rightarrow>
             (case f of None \<Rightarrow> Err (runtime JsonProfile) | Some s \<Rightarrow> Ok (JNumber (JFloat s), nodes))
         | CelString s \<Rightarrow>
             if length s > output_bytes lim then Err (runtime Limit) else Ok (JString s, nodes)
         | CelList vs \<Rightarrow>
             rtry (count_each (\<lambda>v. to_json lim (depth + 1) v) vs nodes) (\<lambda>(vs, nodes). Ok (JArray vs, nodes))
         | CelMap kvs \<Rightarrow>
             rtry (count_each (\<lambda>(k, v) nodes.
                     case k of
                       KeyString k \<Rightarrow>
                         rtry (to_json lim (depth + 1) v nodes) (\<lambda>(v, nodes). Ok ((k, v), nodes))
                     | _ \<Rightarrow> Err (runtime JsonProfile)) kvs nodes)
               (\<lambda>(kvs, nodes). Ok (JObject kvs, nodes))
         | CelBytes _ \<Rightarrow> Err (runtime JsonProfile)
         | CelOther \<Rightarrow> Err (runtime JsonProfile)))"
  by pat_completeness auto
termination
proof (relation "measure (\<lambda>(lim, depth, v, nodes). size v)", goal_cases)
  case (2 lim depth v nodes n vs x k)
  then show ?case using cel_element_size [of x vs] by simp
next
  case (3 lim depth v nodes n kvs x k a b s)
  then show ?case using cel_member_size [of a b kvs] by simp
qed simp

declare to_json.simps [simp del]

section \<open>Evaluation\<close>

datatype execution_error = FunctionError string | OtherExecutionError

definition report_execution :: "execution_error \<Rightarrow> expression_error" where
  "report_execution e =
     runtime
       (case e of
          FunctionError message \<Rightarrow>
            if message = ''EXPRESSION_LIMIT'' then Limit
            else if message = ''EXPRESSION_JSON_PROFILE'' then JsonProfile else Evaluation
        | OtherExecutionError \<Rightarrow> Evaluation)"

record cel_bindings =
  cb_variables :: "(string \<times> cel_value) list"
  cb_output :: bool
  cb_value :: bool
  cb_limits :: limits

definition bind_value :: "json \<Rightarrow> cel_bindings \<Rightarrow> cel_bindings" where
  "bind_value v b =
     b\<lparr>cb_variables := (''value'', from_json v) # cb_variables b, cb_value := True\<rparr>"

definition bindings_with_limits ::
  "(json \<Rightarrow> string list) \<Rightarrow> json \<Rightarrow> json \<Rightarrow> json option \<Rightarrow> json option \<Rightarrow> limits
     \<Rightarrow> (expression_error, cel_bindings) result" where
  "bindings_with_limits writes ctx workflow_input out val lim =
     rtry (validate_bindings writes ctx workflow_input out val lim) (\<lambda>_.
       Ok \<lparr>cb_variables =
             (case val of None \<Rightarrow> [] | Some v \<Rightarrow> [(''value'', from_json v)])
             @ (case out of None \<Rightarrow> [] | Some v \<Rightarrow> [(''output'', from_json v)])
             @ [(''workflow'', CelMap [(KeyString ''input'', from_json workflow_input)]),
                (''context'', from_json ctx)],
           cb_output = (out \<noteq> None), cb_value = (val \<noteq> None),
           cb_limits = lim\<rparr>)"

type_synonym cel_execute = "cel_expr \<Rightarrow> limits \<Rightarrow> (string \<times> cel_value) list \<Rightarrow> (execution_error, cel_value) result"

definition json_is_object :: "json \<Rightarrow> bool" where
  "json_is_object v = (case v of JObject _ \<Rightarrow> True | _ \<Rightarrow> False)"

definition json_is_string :: "json \<Rightarrow> bool" where
  "json_is_string v = (case v of JString _ \<Rightarrow> True | _ \<Rightarrow> False)"

definition kind_mismatch :: "kind \<Rightarrow> cel_value \<Rightarrow> bool" where
  "kind_mismatch k v \<longleftrightarrow>
     k = KindString \<and> (case v of CelString _ \<Rightarrow> False | _ \<Rightarrow> True)
     \<or> k = KindPredicate \<and> (case v of CelBool _ \<Rightarrow> False | _ \<Rightarrow> True)"

definition evaluate ::
  "(json \<Rightarrow> string list) \<Rightarrow> cel_execute \<Rightarrow> compiled \<Rightarrow> cel_bindings \<Rightarrow> kind \<Rightarrow> (expression_error, json) result" where
  "evaluate writes execute c bindings k =
     rtry (audit (pr_expr (co_program c)) (co_position c) (co_limits c)) (\<lambda>_.
     rtry (audit (pr_expr (co_program c)) (co_position c) (co_limits c)) (\<lambda>_.
     if k \<noteq> position_kind (co_position c)
        \<and> \<not> (position_kind (co_position c) = KindExport \<and> k = KindJson)
     then Err (runtime ResultType)
     else if co_position c \<in> {PosExport, RunnerExport} \<and> \<not> cb_output bindings
             \<or> co_position c = AssertJsonPredicate \<and> \<not> cb_value bindings
     then Err (runtime Evaluation)
     else
       (case execute (pr_expr (co_program c)) (cb_limits bindings) (cb_variables bindings) of
          Err e \<Rightarrow> Err (report_execution e)
        | Ok v \<Rightarrow>
            if kind_mismatch k v then Err (runtime ResultType)
            else
              rtry (to_json (co_limits c) 0 v 0) (\<lambda>(json, _).
              if co_position c = WorkflowOutput \<and> \<not> json_is_object json then Err (runtime ResultType)
              else rtry (encode writes json (output_bytes (co_limits c))) (\<lambda>_. Ok json)))))"

section \<open>The limits are exact\<close>

fun json_nodes :: "json \<Rightarrow> nat" where
  "json_nodes (JArray vs) = 1 + (\<Sum>v\<leftarrow>vs. json_nodes v)"
| "json_nodes (JObject kvs) = 1 + (\<Sum>kv\<leftarrow>kvs. json_nodes (snd kv))"
| "json_nodes _ = 1"

fun json_within :: "nat \<Rightarrow> json \<Rightarrow> bool" where
  "json_within n (JArray vs) = list_all (\<lambda>v. 0 < n \<and> json_within (n - 1) v) vs"
| "json_within n (JObject kvs) = list_all (\<lambda>kv. 0 < n \<and> json_within (n - 1) (snd kv)) kvs"
| "json_within n _ = True"

lemma json_nodes_children: "json_nodes v = 1 + (\<Sum>c\<leftarrow>json_children v. json_nodes c)"
  by (cases v) (simp_all add: json_children_def comp_def sum_list_sort_key)

lemma json_within_children:
  "json_within n v \<longleftrightarrow> (\<forall>c \<in> set (json_children v). 0 < n \<and> json_within (n - 1) c)"
  by (cases v) (auto simp: json_children_def list_all_iff)

lemma measure_loop_Nil [simp]: "measure_loop lim nodes [] = Ok nodes"
  by (simp add: measure_loop.simps)

lemma measure_loop_Cons:
  "measure_loop lim nodes ((v, depth) # rest) =
     (if nodes + 1 > input_nodes lim \<or> depth > input_depth lim then Err (runtime Limit)
      else measure_loop lim (nodes + 1) (map (\<lambda>c. (c, depth + 1)) (json_children v) @ rest))"
  by (simp add: measure_loop.simps [of lim nodes "(v, depth) # rest"])

definition depth_good :: "limits \<Rightarrow> json \<times> nat \<Rightarrow> bool" where
  "depth_good lim item \<longleftrightarrow> snd item \<le> input_depth lim \<and> json_within (input_depth lim - snd item) (fst item)"

lemma depth_good_step:
  "depth_good lim (v, d) \<longleftrightarrow>
   d \<le> input_depth lim \<and> (\<forall>c \<in> set (json_children v). depth_good lim (c, d + 1))"
  unfolding depth_good_def by (subst json_within_children) auto

lemma measure_loop_exact:
  "measure_loop lim nodes todo = Ok m \<longleftrightarrow>
   (\<forall>item \<in> set todo. depth_good lim item) \<and> m = nodes + (\<Sum>item\<leftarrow>todo. json_nodes (fst item))
   \<and> (todo \<noteq> [] \<longrightarrow> m \<le> input_nodes lim)"
proof (induction lim nodes todo arbitrary: m rule: measure_loop.induct)
  case (1 lim nodes todo)
  show ?case
  proof (cases todo)
    case (Cons item rest)
    obtain v d where item: "item = (v, d)" by (cases item)
    let ?next = "map (\<lambda>c. (c, d + 1)) (json_children v) @ rest"
    show ?thesis
    proof (cases "nodes + 1 > input_nodes lim \<or> d > input_depth lim")
      case True
      have "1 \<le> json_nodes v" by (simp add: json_nodes_children [of v])
      with True Cons item show ?thesis by (auto simp: measure_loop_Cons depth_good_def)
    next
      case False
      note ih = "1.IH" [OF Cons item [symmetric] False, of m]
      have "(\<forall>item \<in> set todo. depth_good lim item) \<longleftrightarrow> (\<forall>item \<in> set ?next. depth_good lim item)"
        using Cons item False depth_good_step [of lim v d] by auto
      moreover have "nodes + (\<Sum>item\<leftarrow>todo. json_nodes (fst item)) =
          nodes + 1 + (\<Sum>item\<leftarrow>?next. json_nodes (fst item))"
        using Cons item json_nodes_children [of v] by (simp add: comp_def)
      moreover have "measure_loop lim nodes todo = measure_loop lim (nodes + 1) ?next"
        using Cons item False by (simp add: measure_loop_Cons)
      ultimately show ?thesis using ih False Cons by (cases "?next = []") auto
    qed
  qed auto
qed

lemma measure_json_exact:
  "measure_json v d nodes lim = Ok m \<longleftrightarrow>
   d \<le> input_depth lim \<and> json_within (input_depth lim - d) v \<and> m = nodes + json_nodes v
   \<and> m \<le> input_nodes lim"
  by (auto simp: measure_json_def measure_loop_exact depth_good_def)

lemma capped_writes_exact:
  "length bytes \<le> cap \<Longrightarrow>
   capped_writes cap bytes ps =
     (if length bytes + length (concat ps) \<le> cap then Some (bytes @ concat ps) else None)"
  by (induction ps arbitrary: bytes) (auto simp: capped_write_def)

lemma encode_exact:
  "encode writes v cap = Ok text \<longleftrightarrow> text = concat (writes v) \<and> length text \<le> cap"
  by (auto simp: encode_def capped_writes_exact)

lemma validate_output_exact:
  "validate_output writes v lim = Ok () \<longleftrightarrow>
   json_within (output_depth lim) v \<and> json_nodes v \<le> output_nodes lim
   \<and> length (concat (writes v)) \<le> output_bytes lim"
  by (auto simp: validate_output_def rtry_eq_Ok_iff measure_json_exact encode_exact output_limits_def)

section \<open>Values survive the engine\<close>

text \<open>A document with the members of every object in key order.\<close>

function (sequential) json_canon :: "json \<Rightarrow> json" where
  "json_canon (JArray vs) = JArray (map json_canon vs)"
| "json_canon (JObject kvs) = JObject (map (\<lambda>(k, v). (k, json_canon v)) (sort_key fst kvs))"
| "json_canon v = v"
  by pat_completeness auto
termination
  by (relation "measure size") (auto dest: element_size member_size)

fun number_ok :: "json_number \<Rightarrow> bool" where
  "number_ok (JU64 n) \<longleftrightarrow> n < 2 ^ 64"
| "number_ok (JNeg n) \<longleftrightarrow> 0 < n"
| "number_ok (JFloat s) \<longleftrightarrow> True"

fun json_ok :: "nat \<Rightarrow> json \<Rightarrow> bool" where
  "json_ok b (JNumber n) = number_ok n"
| "json_ok b (JString s) = (length s \<le> b)"
| "json_ok b (JArray vs) = list_all (\<lambda>v. json_ok b v) vs"
| "json_ok b (JObject kvs) = list_all (\<lambda>kv. json_ok b (snd kv)) kvs"
| "json_ok b _ = True"

lemma count_each_Ok:
  "(\<And>x k. x \<in> set xs \<Longrightarrow> k + w x \<le> m \<Longrightarrow> f x k = Ok (g x, k + w x)) \<Longrightarrow> n + (\<Sum>x\<leftarrow>xs. w x) \<le> m \<Longrightarrow>
   count_each f xs n = Ok (map g xs, n + (\<Sum>x\<leftarrow>xs. w x))"
  by (induction xs arbitrary: n) (auto simp: add.assoc)

lemma count_each_map: "count_each f (map h xs) n = count_each (\<lambda>x. f (h x)) xs n"
  by (induction xs arbitrary: n) simp_all

lemma to_json_number: "number_ok n \<Longrightarrow> nodes + 1 \<le> output_nodes lim \<Longrightarrow> depth \<le> output_depth lim \<Longrightarrow>
   to_json lim depth (from_number n) nodes = Ok (JNumber n, nodes + 1)"
  by (cases n) (auto simp: to_json.simps Let_def int_json_def)

lemma to_json_from_json:
  "json_ok (output_bytes lim) v \<Longrightarrow> json_within n v \<Longrightarrow> depth + n = output_depth lim \<Longrightarrow>
   nodes + json_nodes v \<le> output_nodes lim \<Longrightarrow>
   to_json lim depth (from_json v) nodes = Ok (json_canon v, nodes + json_nodes v)"
proof (induction n v arbitrary: depth nodes rule: json_within.induct)
  case (1 n vs)
  have "count_each (\<lambda>v. to_json lim (depth + 1) v) (map from_json vs) (nodes + 1) =
      count_each (\<lambda>v. to_json lim (depth + 1) (from_json v)) vs (nodes + 1)"
    by (rule count_each_map)
  also have "\<dots> = Ok (map json_canon vs, nodes + 1 + (\<Sum>v\<leftarrow>vs. json_nodes v))"
    using 1 by (intro count_each_Ok [where m = "output_nodes lim"]) (auto simp: list_all_iff)
  finally show ?case
    using 1 by (simp add: to_json.simps [of lim depth "CelList (map from_json vs)"] Let_def)
next
  case (2 n kvs)
  let ?f = "\<lambda>(k, v) nodes. case k of
         KeyString k \<Rightarrow> rtry (to_json lim (depth + 1) v nodes) (\<lambda>(v, nodes). Ok ((k, v), nodes))
       | _ \<Rightarrow> Err (runtime JsonProfile)"
  have sum: "(\<Sum>kv\<leftarrow>sort_key fst kvs. json_nodes (snd kv)) = (\<Sum>kv\<leftarrow>kvs. json_nodes (snd kv))"
    by (rule sum_list_sort_key)
  have "count_each ?f (map (\<lambda>(k, v). (KeyString k, from_json v)) (sort_key fst kvs)) (nodes + 1) =
      count_each (\<lambda>kv. ?f (case kv of (k, v) \<Rightarrow> (KeyString k, from_json v))) (sort_key fst kvs) (nodes + 1)"
    by (rule count_each_map)
  moreover have "count_each (\<lambda>kv. ?f (case kv of (k, v) \<Rightarrow> (KeyString k, from_json v))) (sort_key fst kvs)
      (nodes + 1) =
      Ok (map (\<lambda>(k, v). (k, json_canon v)) (sort_key fst kvs),
          nodes + 1 + (\<Sum>kv\<leftarrow>sort_key fst kvs. json_nodes (snd kv)))"
    using 2 sum
    by (intro count_each_Ok [where m = "output_nodes lim"]) (fastforce simp: list_all_iff)+
  ultimately show ?case
    using 2 sum by (simp add: to_json.simps [of lim depth "CelMap _"] Let_def)
qed (simp_all add: to_json_number Let_def to_json.simps [of _ _ CelNull]
      to_json.simps [of _ _ "CelBool b" for b] to_json.simps [of _ _ "CelString s" for s])

lemma evaluate_kind:
  assumes "evaluate writes execute c bindings k = Ok j"
  shows "k = KindString \<Longrightarrow> json_is_string j" "k = KindPredicate \<Longrightarrow> \<exists>b. j = JBool b"
    "co_position c = WorkflowOutput \<Longrightarrow> json_is_object j"
proof -
  from assms obtain v n where v: "\<not> kind_mismatch k v" "to_json (co_limits c) 0 v 0 = Ok (j, n)"
    and out: "co_position c = WorkflowOutput \<longrightarrow> json_is_object j"
    by (auto simp: evaluate_def rtry_eq_Ok_iff split: if_splits sum.splits)
  show "k = KindString \<Longrightarrow> json_is_string j"
    using v by (auto simp: kind_mismatch_def json_is_string_def to_json.simps [of _ _ "CelString s" for s]
        Let_def split: cel_value.splits if_splits)
  show "k = KindPredicate \<Longrightarrow> \<exists>b. j = JBool b"
    using v by (auto simp: kind_mismatch_def to_json.simps [of _ _ "CelBool b" for b] Let_def
        split: cel_value.splits if_splits)
  show "co_position c = WorkflowOutput \<Longrightarrow> json_is_object j" using out by simp
qed

end
