(* ===== verification/Expr_Step.thy ===== *)
theory Expr_Step
  imports Expr_Json Retry_Policy "HOL-Library.Code_Target_Nat"
begin

text \<open>
  One step of a workflow task, \<open>crates/workflow-expression/src/step.rs\<close>: every field of the task is
  resolved against the bindings, under the limits on the authored templates and on the results.

  The flag that cancels a step is set by another thread; \<open>cancelled n\<close> is what the \<open>n\<close>-th look at it
  sees.  The compiler is an interface with a state of its own, which the cache of programs provides.
  The error of a step carries the JSON pointer the resolver had reached.
\<close>

section \<open>Requests and errors\<close>

datatype worker_error =
    Expression expression_error
  | Configuration
  | Unavailable
  | FullQueue
  | InvalidHandle
  | IncompleteCleanup
  | BlockingInAsync

record step_field =
  sf_path :: string
  sf_position :: position
  sf_template :: json
  sf_value_from :: "(nat \<times> string) option"

record step_bindings =
  sb_context :: json
  sb_input :: json
  sb_output :: "json option"
  sb_value :: "json option"
  sb_limits :: limits

record step_request =
  sr_bindings :: step_bindings
  sr_fields :: "step_field list"
  sr_first_true :: bool

record step_error =
  se_path :: string
  se_error :: worker_error

section \<open>Effects\<close>

record 'c step_state =
  st_looks :: nat
  st_path :: string
  st_compiler :: 'c

record 'c step_env =
  ev_cancelled :: "nat \<Rightarrow> bool"
  ev_compile :: "string \<Rightarrow> position \<Rightarrow> limits \<Rightarrow> 'c \<Rightarrow> (expression_error, compiled) result \<times> 'c"
  ev_execute :: cel_execute
  ev_writes :: "json \<Rightarrow> string list"
  ev_limits :: limits

type_synonym ('c, 'a) step_m = "'c step_state \<Rightarrow> (worker_error, 'a) result \<times> 'c step_state"

definition ret :: "'a \<Rightarrow> ('c, 'a) step_m" where
  "ret a s = (Ok a, s)"

definition lift :: "(expression_error, 'a) result \<Rightarrow> ('c, 'a) step_m" where
  "lift r s = (map_sum Expression id r, s)"

definition andthen :: "('c, 'a) step_m \<Rightarrow> ('a \<Rightarrow> ('c, 'b) step_m) \<Rightarrow> ('c, 'b) step_m" where
  "andthen m f s = (case m s of (Err e, s) \<Rightarrow> (Err e, s) | (Ok a, s) \<Rightarrow> f a s)"

definition fail_if :: "bool \<Rightarrow> expression_error \<Rightarrow> ('c, unit) step_m" where
  "fail_if b e = lift (if b then Err e else Ok ())"

fun each :: "('a \<Rightarrow> ('c, 'b) step_m) \<Rightarrow> 'a list \<Rightarrow> ('c, 'b list) step_m" where
  "each f [] = ret []"
| "each f (x # xs) = andthen (f x) (\<lambda>y. andthen (each f xs) (\<lambda>ys. ret (y # ys)))"

lemma andthen_cong:
  "m = m' \<Longrightarrow> (\<And>a. f a = g a) \<Longrightarrow> andthen m f = andthen m' g"
  by presburger

lemma each_cong:
  "xs = ys \<Longrightarrow> (\<And>x. x \<in> set ys \<Longrightarrow> f x = g x) \<Longrightarrow> each f xs = each g ys"
  by (induction ys arbitrary: xs) auto

declare each_cong [fundef_cong]

definition check :: "'c step_env \<Rightarrow> ('c, unit) step_m" where
  "check env s =
     (if ev_cancelled env (st_looks s) then Err Unavailable else Ok (), s\<lparr>st_looks := st_looks s + 1\<rparr>)"

definition compile_span :: "'c step_env \<Rightarrow> string \<Rightarrow> position \<Rightarrow> ('c, (expression_error, compiled) result) step_m" where
  "compile_span env source position s =
     (case ev_compile env source position (ev_limits env) (st_compiler s) of
        (r, c) \<Rightarrow> (Ok r, s\<lparr>st_compiler := c\<rparr>))"

text \<open>A call below a further part of the path; the path is restored when the call succeeds.\<close>

definition under :: "string \<Rightarrow> ('c, 'a) step_m \<Rightarrow> ('c, 'a) step_m" where
  "under part m s =
     (case m (s\<lparr>st_path := st_path s @ ''/'' @ part\<rparr>) of
        (Err e, s') \<Rightarrow> (Err e, s')
      | (Ok a, s') \<Rightarrow> (Ok a, s'\<lparr>st_path := take (length (st_path s)) (st_path s')\<rparr>))"

definition extend_path :: "string \<Rightarrow> ('c, unit) step_m" where
  "extend_path part s = (Ok (), s\<lparr>st_path := st_path s @ ''/'' @ part\<rparr>)"

section \<open>Resolution of a template\<close>

definition located :: "nat \<Rightarrow> nat \<Rightarrow> (expression_error, 'a) result \<Rightarrow> (expression_error, 'a) result" where
  "located index offset r = map_sum (\<lambda>e. error_at e index offset) id r"

definition span_value ::
  "'c step_env \<Rightarrow> cel_bindings \<Rightarrow> string \<Rightarrow> nat \<Rightarrow> nat \<Rightarrow> position \<Rightarrow> ('c, json) step_m" where
  "span_value env bindings source index offset position =
     andthen (check env) (\<lambda>_.
     andthen (compile_span env source position) (\<lambda>r.
     andthen (lift (located index offset r)) (\<lambda>program.
     andthen (check env) (\<lambda>_.
     andthen (lift (located index offset
       (evaluate (ev_writes env) (ev_execute env) program bindings (position_kind position)))) (\<lambda>v.
     andthen (check env) (\<lambda>_. ret v))))))"

definition append_text ::
  "'c step_env \<Rightarrow> expression_error \<Rightarrow> string \<Rightarrow> string \<Rightarrow> ('c, string) step_m" where
  "append_text env e acc s =
     andthen (fail_if (sat_add (length acc) (length s) > output_bytes (ev_limits env)) e) (\<lambda>_. ret (acc @ s))"

fun join_segments ::
  "'c step_env \<Rightarrow> cel_bindings \<Rightarrow> position \<Rightarrow> scan_segment list \<Rightarrow> string \<Rightarrow> ('c, string) step_m" where
  "join_segments env bindings position [] acc = ret acc"
| "join_segments env bindings position (seg # segs) acc =
     andthen (check env) (\<lambda>_.
     andthen
       (case seg of
          LiteralSegment s _ _ \<Rightarrow> append_text env (runtime Limit) acc s
        | SpanSegment source offset source_offset end_offset index \<Rightarrow>
            andthen (span_value env bindings source index source_offset position) (\<lambda>v.
            andthen (lift (ok_or (error_at (runtime ResultType) index source_offset) (json_as_str v))) (\<lambda>s.
              append_text env (error_at (runtime Limit) index source_offset) acc s)))
       (\<lambda>acc. join_segments env bindings position segs acc))"

definition whole_span :: "string \<Rightarrow> scan_segment list \<Rightarrow> (string \<times> nat \<times> nat) option" where
  "whole_span source segs =
     (case segs of
        [SpanSegment text offset source_offset end_offset index] \<Rightarrow>
          if offset = 0 \<and> end_offset = length source then Some (text, index, source_offset) else None
      | _ \<Rightarrow> None)"

definition resolve_string ::
  "'c step_env \<Rightarrow> cel_bindings \<Rightarrow> position \<Rightarrow> bool \<Rightarrow> string \<Rightarrow> ('c, json) step_m" where
  "resolve_string env bindings position root source =
     andthen (lift (scan source)) (\<lambda>segs.
     andthen (fail_if (root
         \<and> (position_kind position \<in> {KindPredicate, KindExport} \<or> position = WorkflowOutput)
         \<and> whole_span source segs = None) (admission Invalid)) (\<lambda>_.
     let span_position = (if position = WorkflowOutput \<and> \<not> root then PosSet else position) in
     (case whole_span source segs of
        Some (text, index, offset) \<Rightarrow> span_value env bindings text index offset span_position
      | None \<Rightarrow> andthen (join_segments env bindings span_position segs []) (\<lambda>text. ret (JString text)))))"

definition root_type_check :: "position \<Rightarrow> bool \<Rightarrow> json \<Rightarrow> ('c, unit) step_m" where
  "root_type_check position root v =
     fail_if (root \<and> (position_kind position = KindPredicate \<and> \<not> json_is_string v
       \<or> position = WorkflowOutput \<and> \<not> json_is_string v \<and> \<not> json_is_object v)) (runtime ResultType)"

fun header_check :: "(string \<times> json) list \<Rightarrow> ('c, unit) step_m" where
  "header_check [] = ret ()"
| "header_check ((key, v) # kvs) =
     (if \<not> json_is_string v
      then andthen (extend_path (pointer_escape key)) (\<lambda>_. lift (Err (runtime ResultType)))
      else header_check kvs)"

definition header_object :: "json \<Rightarrow> ('c, unit) step_m" where
  "header_object r =
     (case r of JObject kvs \<Rightarrow> header_check kvs | _ \<Rightarrow> lift (Err (runtime ResultType)))"

definition finish_root :: "'c step_env \<Rightarrow> position \<Rightarrow> bool \<Rightarrow> json \<Rightarrow> ('c, json) step_m" where
  "finish_root env position root r =
     andthen (check env) (\<lambda>_.
     andthen (if root then lift (validate_output (ev_writes env) r (ev_limits env)) else ret ()) (\<lambda>_.
     andthen (fail_if (root \<and> position = WorkflowOutput \<and> \<not> json_is_object r) (runtime ResultType)) (\<lambda>_.
     andthen (if root \<and> position = JsonRpcHeader then header_object r else ret ()) (\<lambda>_. ret r))))"

function resolve_template ::
  "'c step_env \<Rightarrow> cel_bindings \<Rightarrow> position \<Rightarrow> json \<Rightarrow> bool \<Rightarrow> nat \<Rightarrow> ('c, json) step_m" where
  "resolve_template env bindings position v root depth =
     andthen (check env) (\<lambda>_.
     andthen (fail_if (depth > output_depth (ev_limits env)) (runtime Limit)) (\<lambda>_.
     andthen (root_type_check position root v) (\<lambda>_.
     andthen
       (case v of
          JString source \<Rightarrow> resolve_string env bindings position root source
        | JArray vs \<Rightarrow>
            andthen (each (\<lambda>(i, c). under (show_nat i) (resolve_template env bindings position c False (depth + 1)))
                       (enumerate 0 vs)) (\<lambda>vs. ret (JArray vs))
        | JObject kvs \<Rightarrow>
            andthen (each (\<lambda>(k, c). andthen (under (pointer_escape k)
                         (resolve_template env bindings position c False (depth + 1))) (\<lambda>r. ret (k, r)))
                       (sort_key fst kvs)) (\<lambda>kvs. ret (JObject kvs))
        | other \<Rightarrow> ret other)
       (finish_root env position root))))"
  by pat_completeness auto
termination
proof (relation "measure (\<lambda>(env, bindings, position, v, root, depth). size v)", goal_cases)
  case (2 env bindings position v root depth u1 u2 u3 vs x i c)
  then show ?case using element_size [OF enumerate_element, of i c 0 vs] by simp
next
  case (3 env bindings position v root depth u1 u2 u3 kvs x k c)
  then show ?case using member_size [of k c kvs] by simp
qed simp

declare resolve_template.simps [simp del]

section \<open>Selection of an earlier result\<close>

definition json_index :: "json \<Rightarrow> nat \<Rightarrow> json option" where
  "json_index v i = (case v of JArray vs \<Rightarrow> if i < length vs then Some (vs ! i) else None | _ \<Rightarrow> None)"

function select_indices :: "json \<Rightarrow> string \<Rightarrow> json option" where
  "select_indices v remainder =
     (case split_once (CHR ''['') remainder of
        None \<Rightarrow> Some v
      | Some (_, after) \<Rightarrow>
          (case split_once (CHR '']'') after of
             None \<Rightarrow> None
           | Some (digits, rest) \<Rightarrow>
               (case parse_uint u64_max digits of
                  None \<Rightarrow> None
                | Some i \<Rightarrow> (case json_index v i of None \<Rightarrow> None | Some w \<Rightarrow> select_indices w rest))))"
  by pat_completeness auto
termination
  by (relation "measure (\<lambda>(v, remainder). length remainder)") (auto dest!: split_once_Some)

declare select_indices.simps [simp del]

definition select_segment :: "json \<Rightarrow> string \<Rightarrow> json option" where
  "select_segment v segment =
     (case split_once (CHR ''['') segment of
        None \<Rightarrow> json_get v segment
      | Some (field, after) \<Rightarrow>
          Option.bind (if field \<noteq> [] then json_get v field else Some v)
            (\<lambda>w. select_indices w (CHR ''['' # after)))"

definition strip_first :: "char \<Rightarrow> string \<Rightarrow> string" where
  "strip_first c s = (case s of [] \<Rightarrow> [] | x # xs \<Rightarrow> if x = c then xs else s)"

definition select :: "json \<Rightarrow> string \<Rightarrow> json option" where
  "select v path =
     (let path = strip_first (CHR ''.'') (strip_first (CHR ''$'') (trim path)) in
      fold (\<lambda>segment current. Option.bind current (\<lambda>w. select_segment w segment))
        (filter (\<lambda>s. s \<noteq> []) (split_chars ''.'' path)) (Some v))"

section \<open>The step\<close>

definition set_path :: "string \<Rightarrow> ('c, unit) step_m" where
  "set_path p s = (Ok (), s\<lparr>st_path := p\<rparr>)"

fun add_authored ::
  "(json \<Rightarrow> string list) \<Rightarrow> limits \<Rightarrow> step_field list \<Rightarrow> output_budget \<Rightarrow> (expression_error, output_budget) result"
where
  "add_authored writes lim [] b = Ok b"
| "add_authored writes lim (f # fs) b = rtry (budget_add writes (sf_template f) lim b) (add_authored writes lim fs)"

definition field_bindings ::
  "'c step_env \<Rightarrow> step_bindings \<Rightarrow> step_field \<Rightarrow> json list \<Rightarrow> cel_bindings \<Rightarrow> ('c, cel_bindings) step_m" where
  "field_bindings env sb f values bindings =
     (case sf_value_from f of
        None \<Rightarrow> ret bindings
      | Some (index, selector) \<Rightarrow>
          andthen (fail_if (sf_position f \<noteq> AssertJsonPredicate) (runtime Invalid)) (\<lambda>_.
          andthen (lift (ok_or (runtime Invalid) (if index < length values then Some (values ! index) else None)))
            (\<lambda>source.
          let v = (case select source selector of None \<Rightarrow> JNull | Some w \<Rightarrow> w) in
          andthen (lift (validate_bindings (ev_writes env) (sb_context sb) (sb_input sb) (sb_output sb)
                     (Some v) (ev_limits env))) (\<lambda>_. ret (bind_value v bindings)))))"

fun run_fields ::
  "'c step_env \<Rightarrow> step_bindings \<Rightarrow> bool \<Rightarrow> step_field list \<Rightarrow> cel_bindings \<Rightarrow> output_budget \<Rightarrow> json list
     \<Rightarrow> ('c, json list) step_m" where
  "run_fields env sb first_true [] bindings budget values = ret values"
| "run_fields env sb first_true (f # fs) bindings budget values =
     andthen (set_path (sf_path f)) (\<lambda>_.
     andthen (check env) (\<lambda>_.
     andthen (field_bindings env sb f values bindings) (\<lambda>bindings.
     andthen (resolve_template env bindings (sf_position f) (sf_template f) True 0) (\<lambda>v.
     andthen (lift (budget_add (ev_writes env) v (ev_limits env) budget)) (\<lambda>budget.
       if first_true \<and> v = JBool True then ret (values @ [v])
       else run_fields env sb first_true fs bindings budget (values @ [v]))))))"

definition run_body :: "'c step_env \<Rightarrow> step_request \<Rightarrow> ('c, json list) step_m" where
  "run_body env request =
     (let sb = sr_bindings request; lim = ev_limits env in
      andthen (check env) (\<lambda>_.
      andthen (lift (add_authored (ev_writes env) lim (sr_fields request) output_budget_new)) (\<lambda>_.
      andthen (lift (bindings_with_limits (ev_writes env) (sb_context sb) (sb_input sb) (sb_output sb)
                 (sb_value sb) lim)) (\<lambda>bindings.
      andthen (run_fields env sb (sr_first_true request) (sr_fields request) bindings output_budget_new [])
        (\<lambda>values. andthen (check env) (\<lambda>_. ret values))))))"

definition step_run ::
  "'c step_env \<Rightarrow> step_request \<Rightarrow> 'c \<Rightarrow> (step_error, json list) result \<times> 'c" where
  "step_run env request c =
     (let env = env\<lparr>ev_limits := sb_limits (sr_bindings request)\<rparr>;
          path = (case sr_fields request of [] \<Rightarrow> [] | f # _ \<Rightarrow> sf_path f)
      in
      case run_body env request \<lparr>st_looks = 0, st_path = path, st_compiler = c\<rparr> of
        (Err e, s) \<Rightarrow> (Err \<lparr>se_path = st_path s, se_error = e\<rparr>, st_compiler s)
      | (Ok values, s) \<Rightarrow> (Ok values, st_compiler s))"

section \<open>Results\<close>

lemma andthen_Ok: "andthen m f s = (Ok b, s') \<longleftrightarrow> (\<exists>a t. m s = (Ok a, t) \<and> f a t = (Ok b, s'))"
  by (auto simp: andthen_def split: prod.split sum.split)

lemma ret_Ok [simp]: "ret a s = (Ok b, s') \<longleftrightarrow> a = b \<and> s = s'"
  by (auto simp: ret_def)

lemma lift_Ok [simp]: "lift r s = (Ok b, s') \<longleftrightarrow> r = Ok b \<and> s = s'"
  by (cases r) (auto simp: lift_def)

lemma fail_if_Ok [simp]: "fail_if b e s = (Ok u, s') \<longleftrightarrow> \<not> b \<and> s = s'"
  by (auto simp: fail_if_def split: if_splits)

lemma located_Ok [simp]: "located i n r = Ok v \<longleftrightarrow> r = Ok v"
  by (cases r) (auto simp: located_def)

lemma each_Ok_length: "each f xs s = (Ok ys, s') \<Longrightarrow> length ys = length xs"
  by (induction xs arbitrary: s ys) (fastforce simp: andthen_Ok)+

lemma span_value_Ok:
  assumes "span_value env b source index offset position s = (Ok v, s')"
  shows "position_kind position = KindString \<Longrightarrow> json_is_string v"
    "position_kind position = KindPredicate \<Longrightarrow> \<exists>b. v = JBool b"
proof -
  from assms obtain c where "evaluate (ev_writes env) (ev_execute env) c b (position_kind position) = Ok v"
    by (auto simp: span_value_def andthen_Ok)
  from evaluate_kind(1,2) [OF this] show "position_kind position = KindString \<Longrightarrow> json_is_string v"
    "position_kind position = KindPredicate \<Longrightarrow> \<exists>b. v = JBool b" by auto
qed

lemma header_check_Ok: "header_check kvs s = (Ok u, s') \<Longrightarrow> \<forall>kv \<in> set kvs. json_is_string (snd kv)"
  by (induction kvs rule: header_check.induct) (auto simp: andthen_Ok split: if_splits)

lemma header_object_Ok:
  "header_object r s = (Ok u, s') \<Longrightarrow> \<exists>kvs. r = JObject kvs \<and> (\<forall>kv \<in> set kvs. json_is_string (snd kv))"
  by (cases r) (auto simp: header_object_def dest: header_check_Ok)

text \<open>The value of a field has the type its position promises.\<close>

definition result_typed :: "position \<Rightarrow> json \<Rightarrow> json \<Rightarrow> bool" where
  "result_typed position template r \<longleftrightarrow>
     (position_kind position = KindPredicate \<longrightarrow> (\<exists>b. r = JBool b))
     \<and> (position_kind position = KindString \<and> json_is_string template \<longrightarrow> json_is_string r)
     \<and> (position = WorkflowOutput \<longrightarrow> json_is_object r)
     \<and> (position = JsonRpcHeader \<longrightarrow> (\<exists>kvs. r = JObject kvs \<and> (\<forall>kv \<in> set kvs. json_is_string (snd kv))))"

lemma resolve_string_Ok:
  assumes "resolve_string env b position True source s = (Ok r, s')"
  shows "position_kind position = KindString \<Longrightarrow> json_is_string r"
    "position_kind position = KindPredicate \<Longrightarrow> \<exists>b. r = JBool b"
proof -
  from assms obtain segs where guard: "position_kind position = KindPredicate \<longrightarrow> whole_span source segs \<noteq> None"
    and go: "(case whole_span source segs of
        Some (text, index, offset) \<Rightarrow> span_value env b text index offset position
      | None \<Rightarrow> andthen (join_segments env b position segs []) (\<lambda>text. ret (JString text))) s = (Ok r, s')"
    by (auto simp: resolve_string_def andthen_Ok Let_def)
  show "position_kind position = KindString \<Longrightarrow> json_is_string r"
  proof (cases "whole_span source segs")
    case None
    with go show ?thesis by (auto simp: andthen_Ok json_is_string_def)
  next
    case (Some w)
    moreover assume "position_kind position = KindString"
    ultimately show ?thesis using go span_value_Ok(1) by (cases w) auto
  qed
  assume "position_kind position = KindPredicate"
  with guard go show "\<exists>b. r = JBool b" using span_value_Ok(2) by auto
qed

lemma finish_root_Ok:
  assumes "finish_root env position True x s = (Ok r, s')"
  shows "x = r" "validate_output (ev_writes env) r (ev_limits env) = Ok ()"
    "position = WorkflowOutput \<Longrightarrow> json_is_object r"
    "position = JsonRpcHeader \<Longrightarrow> \<exists>kvs. r = JObject kvs \<and> (\<forall>kv \<in> set kvs. json_is_string (snd kv))"
  using assms by (auto simp: finish_root_def andthen_Ok dest!: header_object_Ok)

lemma resolve_Ok:
  assumes "resolve_template env b position v True depth s = (Ok r, s')"
  shows "result_typed position v r \<and> validate_output (ev_writes env) r (ev_limits env) = Ok ()"
proof -
  from assms [unfolded resolve_template.simps [of env b position v]] obtain x t u w
    where type: "root_type_check position True v w = (Ok (), t)"
      and x: "\<And>source. v = JString source \<Longrightarrow> resolve_string env b position True source t = (Ok x, u)"
      and fin: "finish_root env position True x u = (Ok r, s')"
    unfolding andthen_Ok by (elim exE conjE) (simp split: json.splits)
  note ends = finish_root_Ok [OF fin]
  have string: "json_is_string v" if "position_kind position = KindPredicate"
    using type that by (auto simp: root_type_check_def)
  have "\<exists>b. r = JBool b" if "position_kind position = KindPredicate"
    using string [OF that] resolve_string_Ok(2) [OF x that] ends(1)
    by (auto simp: json_is_string_def split: json.splits)
  moreover have "json_is_string r" if "position_kind position = KindString" "json_is_string v"
    using that resolve_string_Ok(1) [OF x that(1)] ends(1) by (auto simp: json_is_string_def split: json.splits)
  ultimately show ?thesis using ends by (simp add: result_typed_def)
qed

lemma budget_add_Ok:
  assumes "budget_add writes v lim b = Ok b'"
  shows "json_within (output_depth lim) v" "ob_nodes b' = ob_nodes b + json_nodes v"
    "ob_nodes b' \<le> output_nodes lim" "ob_bytes b' = ob_bytes b + length (concat (writes v))"
    "ob_bytes b' \<le> output_bytes lim"
  using assms
  by (auto simp: budget_add_def rtry_eq_Ok_iff measure_json_exact encode_exact output_limits_def
      checked_add_def split: if_splits)

text \<open>The values of the fields that were resolved, in order, within the limits together.\<close>

definition results_ok :: "(json \<Rightarrow> string list) \<Rightarrow> limits \<Rightarrow> step_field list \<Rightarrow> output_budget \<Rightarrow> json list \<Rightarrow> bool" where
  "results_ok writes lim fs b values \<longleftrightarrow>
     length values \<le> length fs
     \<and> list_all2 (\<lambda>f v. result_typed (sf_position f) (sf_template f) v) (take (length values) fs) values
     \<and> (\<forall>v \<in> set values. json_within (output_depth lim) v)
     \<and> (values \<noteq> [] \<longrightarrow>
          ob_nodes b + (\<Sum>v\<leftarrow>values. json_nodes v) \<le> output_nodes lim
          \<and> ob_bytes b + (\<Sum>v\<leftarrow>values. length (concat (writes v))) \<le> output_bytes lim)"

text \<open>Where the resolution ends: after the last field, or at the first true value if that is asked for.\<close>

definition stops_right :: "bool \<Rightarrow> step_field list \<Rightarrow> json list \<Rightarrow> bool" where
  "stops_right first_true fs values \<longleftrightarrow>
     (if first_true
      then JBool True \<notin> set (butlast values)
        \<and> (length values < length fs \<longrightarrow> values \<noteq> [] \<and> last values = JBool True)
      else length values = length fs)"

lemma results_ok_Cons:
  assumes "result_typed (sf_position f) (sf_template f) v" and "budget_add writes v lim b = Ok b'"
    and "results_ok writes lim fs b' vs"
  shows "results_ok writes lim (f # fs) b (v # vs)"
  using assms(1,3) budget_add_Ok [OF assms(2)] by (cases "vs = []") (auto simp: results_ok_def)

lemma stops_right_Cons:
  "v \<noteq> JBool True \<or> \<not> first_true \<Longrightarrow> stops_right first_true fs vs \<Longrightarrow> stops_right first_true (f # fs) (v # vs)"
  by (auto simp: stops_right_def)

lemma run_fields_Ok:
  "run_fields env sb first_true fs bindings budget values s = (Ok out, s') \<Longrightarrow>
   \<exists>new. out = values @ new \<and> results_ok (ev_writes env) (ev_limits env) fs budget new
     \<and> stops_right first_true fs new"
proof (induction fs arbitrary: bindings budget "values" s)
  case Nil
  then show ?case by (auto simp: results_ok_def stops_right_def)
next
  case (Cons f fs)
  from Cons.prems obtain b2 v budget' t t2 where
    res: "resolve_template env b2 (sf_position f) (sf_template f) True 0 t = (Ok v, t2)"
    and bud: "budget_add (ev_writes env) v (ev_limits env) budget = Ok budget'"
    and rest: "(if first_true \<and> v = JBool True then ret (values @ [v])
       else run_fields env sb first_true fs b2 budget' (values @ [v])) t2 = (Ok out, s')"
    by (auto simp: andthen_Ok)
  from resolve_Ok [OF res] have typed: "result_typed (sf_position f) (sf_template f) v" by simp
  show ?case
  proof (cases "first_true \<and> v = JBool True")
    case True
    moreover have "results_ok (ev_writes env) (ev_limits env) (f # fs) budget [v]"
      by (rule results_ok_Cons [OF typed bud]) (simp add: results_ok_def)
    ultimately show ?thesis using rest by (auto simp: stops_right_def)
  next
    case False
    with Cons.IH [of b2 budget' "values @ [v]" t2] rest obtain new where
      "out = values @ v # new" "results_ok (ev_writes env) (ev_limits env) fs budget' new"
      "stops_right first_true fs new" by auto
    with results_ok_Cons [OF typed bud] stops_right_Cons [of v first_true fs new f] False
    show ?thesis by blast
  qed
qed

text \<open>C26: A step that succeeds returns values of the right type within the limits.  It resolves the
  fields in order, all of them or up to the first true value when that is asked for; a predicate
  gives a boolean, a string position a string, a workflow output an object and RPC headers an object
  of strings; each value keeps the depth limit, and all values together keep the limits on nodes and
  bytes.\<close>

theorem step_results_typed:
  assumes "step_run env request c = (Ok values, c')"
  shows "results_ok (ev_writes env) (sb_limits (sr_bindings request)) (sr_fields request)
           output_budget_new values
         \<and> stops_right (sr_first_true request) (sr_fields request) values"
proof -
  from assms obtain s where run: "run_body (env\<lparr>ev_limits := sb_limits (sr_bindings request)\<rparr>) request
      \<lparr>st_looks = 0, st_path = (case sr_fields request of [] \<Rightarrow> [] | f # _ \<Rightarrow> sf_path f), st_compiler = c\<rparr>
      = (Ok values, s)"
    by (auto simp: step_run_def Let_def split: prod.splits sum.splits)
  then obtain b t t2 where "run_fields (env\<lparr>ev_limits := sb_limits (sr_bindings request)\<rparr>) (sr_bindings request)
      (sr_first_true request) (sr_fields request) b output_budget_new [] t = (Ok values, t2)"
    by (auto simp: run_body_def Let_def andthen_Ok)
  from run_fields_Ok [OF this] show ?thesis by simp
qed

lemma u64_max_numeral [code]: "u64_max = 18446744073709551615"
  by (simp add: u64_max_def)

definition env_example :: "unit step_env" where
  "env_example =
     \<lparr>ev_cancelled = (\<lambda>_. False),
      ev_compile = (\<lambda>source position lim c. (compile_with_limits (\<lambda>s. Some (Literal s)) 0 source position lim, c)),
      ev_execute = (\<lambda>e _ _. case e of Literal s \<Rightarrow> Ok (if s = ''true'' then CelBool True else CelString s)
                               | _ \<Rightarrow> Err OtherExecutionError),
      ev_writes = (\<lambda>_. [''{'', ''}'']), ev_limits = default_limits\<rparr>"

definition field_example :: "string \<Rightarrow> position \<Rightarrow> string \<Rightarrow> step_field" where
  "field_example path position template =
     \<lparr>sf_path = path, sf_position = position, sf_template = JString template, sf_value_from = None\<rparr>"

definition request_example :: step_request where
  "request_example =
     \<lparr>sr_bindings = \<lparr>sb_context = JObject [], sb_input = JNull, sb_output = None, sb_value = None,
                     sb_limits = default_limits\<rparr>,
      sr_fields = [field_example ''/w'' SwitchWhen ''${true}'', field_example ''/x'' SwitchWhen ''${b}''],
      sr_first_true = True\<rparr>"

theorem step_results_typed_witness:
  "step_run env_example request_example () = (Ok [JBool True], ())
   \<and> results_ok (ev_writes env_example) (sb_limits (sr_bindings request_example)) (sr_fields request_example)
       output_budget_new [JBool True]
   \<and> stops_right (sr_first_true request_example) (sr_fields request_example) [JBool True]"
proof -
  have run: "step_run env_example request_example () = (Ok [JBool True], ())"
    by code_simp
  from run step_results_typed [OF run] show ?thesis by blast
qed

end
