(* ===== verification/Step_Cache.thy ===== *)
theory Step_Cache
  imports Expr_Step
begin

text \<open>
  The step of \<open>crates/workflow-expression/src/step.rs\<close> over the program cache of \<open>compiler.rs\<close>: a
  service that compiles with a memory answers a step as a compiler without one.  The locale
  \<open>compilers\<close> says when two compilers answer alike; the cache is one of them, with a compiler that
  remembers nothing as the other.
\<close>

section \<open>The compilers\<close>

text \<open>The compiler of a step: the cache, and the number of the next allocation.\<close>

type_synonym cache_state = "compile_cache \<times> nat"

definition cache_compile ::
  "(string \<Rightarrow> cel_expr option) \<Rightarrow> (string \<Rightarrow> string) \<Rightarrow> (nat \<Rightarrow> bool) \<Rightarrow> profile \<Rightarrow> string \<Rightarrow> position \<Rightarrow> limits
     \<Rightarrow> cache_state \<Rightarrow> (expression_error, compiled) result \<times> cache_state" where
  "cache_compile parse hash held profile source position lim c =
     (case cached_compile parse hash held (snd c) profile source position lim (fst c) of
        (r, cache) \<Rightarrow> (r, (cache, snd c + 1)))"

definition plain_compile ::
  "(string \<Rightarrow> cel_expr option) \<Rightarrow> profile \<Rightarrow> string \<Rightarrow> position \<Rightarrow> limits \<Rightarrow> unit
     \<Rightarrow> (expression_error, compiled) result \<times> unit" where
  "plain_compile parse profile source position lim c =
     (if profile \<noteq> CelWorkflowV2 then Err (admission ProfileUnsupported)
      else compile_with_limits parse 0 source position lim, ())"

definition sound_cache :: "(string \<Rightarrow> cel_expr option) \<Rightarrow> (string \<Rightarrow> string) \<Rightarrow> cache_state \<Rightarrow> bool" where
  "sound_cache parse hash c \<longleftrightarrow>
     collision_free parse hash \<and> (\<forall>e \<in> set (cc_entries (fst c)). entry_sound parse hash e)"

section \<open>Actions that two compilers cannot tell apart\<close>

definition alike :: "('c \<Rightarrow> 'd \<Rightarrow> bool) \<Rightarrow> 'c step_state \<Rightarrow> 'd step_state \<Rightarrow> bool" where
  "alike R s t \<longleftrightarrow> st_looks s = st_looks t \<and> st_path s = st_path t \<and> R (st_compiler s) (st_compiler t)"

definition agree :: "('c \<Rightarrow> 'd \<Rightarrow> bool) \<Rightarrow> ('c, 'a) step_m \<Rightarrow> ('d, 'a) step_m \<Rightarrow> bool" where
  "agree R m n \<longleftrightarrow>
     (\<forall>s t. alike R s t \<longrightarrow> fst (m s) = fst (n t) \<and> alike R (snd (m s)) (snd (n t)))"

named_theorems agree_intros

lemma agreeI:
  "(\<And>s t. alike R s t \<Longrightarrow> fst (m s) = fst (n t) \<and> alike R (snd (m s)) (snd (n t))) \<Longrightarrow> agree R m n"
  by (simp add: agree_def)

lemma agreeE:
  assumes "agree R m n" "alike R s t"
  obtains r s' t' where "m s = (r, s')" "n t = (r, t')" "alike R s' t'"
  using assms by (metis agree_def prod.collapse)

lemma agree_andthen [agree_intros]:
  assumes m: "agree R m n" and f: "\<And>a. agree R (f a) (g a)"
  shows "agree R (andthen m f) (andthen n g)"
proof (rule agreeI)
  fix s t assume "alike R s t"
  with m obtain r s' t' where run: "m s = (r, s')" "n t = (r, t')" "alike R s' t'" by (rule agreeE)
  show "fst (andthen m f s) = fst (andthen n g t) \<and> alike R (snd (andthen m f s)) (snd (andthen n g t))"
  proof (cases r)
    case (Inr a)
    with f [of a] run show ?thesis by (simp add: andthen_def agree_def)
  qed (use run in \<open>simp add: andthen_def\<close>)
qed

lemma agree_ret [agree_intros]: "agree R (ret a) (ret a)"
  by (simp add: agree_def ret_def)

lemma agree_lift [agree_intros]: "agree R (lift r) (lift r)"
  by (simp add: agree_def lift_def)

lemma agree_fail_if [agree_intros]: "agree R (fail_if b e) (fail_if b e)"
  by (simp add: fail_if_def agree_lift)

lemma agree_check [agree_intros]: "ev_cancelled env = ev_cancelled env' \<Longrightarrow> agree R (check env) (check env')"
  by (simp add: agree_def check_def alike_def)

lemma agree_set_path [agree_intros]: "agree R (set_path p) (set_path p)"
  by (simp add: agree_def set_path_def alike_def)

lemma agree_extend_path [agree_intros]: "agree R (extend_path p) (extend_path p)"
  by (simp add: agree_def extend_path_def alike_def)

lemma agree_under [agree_intros]:
  assumes "agree R m n"
  shows "agree R (under part m) (under part n)"
proof (rule agreeI)
  fix s t
  assume st: "alike R s t"
  then have "alike R (s\<lparr>st_path := st_path s @ ''/'' @ part\<rparr>) (t\<lparr>st_path := st_path t @ ''/'' @ part\<rparr>)"
    by (simp add: alike_def)
  with assms obtain r s' t' where run: "m (s\<lparr>st_path := st_path s @ ''/'' @ part\<rparr>) = (r, s')"
      "n (t\<lparr>st_path := st_path t @ ''/'' @ part\<rparr>) = (r, t')" "alike R s' t'" by (rule agreeE)
  with st show "fst (under part m s) = fst (under part n t)
      \<and> alike R (snd (under part m s)) (snd (under part n t))"
    by (cases r) (simp_all add: under_def alike_def)
qed

lemma agree_each [agree_intros]:
  "(\<And>x. x \<in> set xs \<Longrightarrow> agree R (f x) (g x)) \<Longrightarrow> agree R (each f xs) (each g xs)"
  by (induction xs) (auto intro!: agree_intros)

lemma agree_header_check [agree_intros]: "agree R (header_check kvs) (header_check kvs)"
  by (induction kvs rule: header_check.induct) (auto intro!: agree_intros)

section \<open>A compiler for another\<close>

definition with_compiler ::
  "(string \<Rightarrow> position \<Rightarrow> limits \<Rightarrow> 'd \<Rightarrow> (expression_error, compiled) result \<times> 'd) \<Rightarrow> 'c step_env \<Rightarrow> 'd step_env" where
  "with_compiler compile env =
     \<lparr>ev_cancelled = ev_cancelled env, ev_compile = compile, ev_execute = ev_execute env,
      ev_writes = ev_writes env, ev_limits = ev_limits env\<rparr>"

lemma with_compiler_simps [simp]:
  "ev_cancelled (with_compiler compile env) = ev_cancelled env"
  "ev_compile (with_compiler compile env) = compile"
  "ev_execute (with_compiler compile env) = ev_execute env"
  "ev_writes (with_compiler compile env) = ev_writes env"
  "ev_limits (with_compiler compile env) = ev_limits env"
  by (simp_all add: with_compiler_def)

lemma evaluate_forget:
  "forget (Ok c) = forget (Ok d) \<Longrightarrow> evaluate writes execute c = evaluate writes execute d"
proof -
  assume "forget (Ok c) = forget (Ok d)"
  then have same: "pr_expr (co_program c) = pr_expr (co_program d)" "co_position c = co_position d"
    "co_limits c = co_limits d" by (simp_all add: forget_def)
  show ?thesis by (intro ext) (simp only: evaluate_def same)
qed

lemma forget_cases:
  assumes "forget r = forget r'"
  obtains e where "r = Err e" "r' = Err e" | c d where "r = Ok c" "r' = Ok d" "forget (Ok c) = forget (Ok d)"
  using assms by (cases r; cases r') (auto simp: forget_def)

text \<open>Two compilers whose states are related by \<open>R\<close> and whose answers differ in allocations only.\<close>

locale compilers =
  fixes compile :: "profile \<Rightarrow> string \<Rightarrow> position \<Rightarrow> limits \<Rightarrow> 'c \<Rightarrow> (expression_error, compiled) result \<times> 'c"
    and compile' :: "profile \<Rightarrow> string \<Rightarrow> position \<Rightarrow> limits \<Rightarrow> 'd \<Rightarrow> (expression_error, compiled) result \<times> 'd"
    and R :: "'c \<Rightarrow> 'd \<Rightarrow> bool"
  assumes related: "R c d \<Longrightarrow> R (snd (compile profile source position lim c)) (snd (compile' profile source position lim d))"
    and answers: "R c d \<Longrightarrow> forget (fst (compile profile source position lim c)) =
      forget (fst (compile' profile source position lim d))"
begin

lemma agree_compile:
  assumes env: "ev_compile env = compile CelWorkflowV2" "ev_compile env' = compile' CelWorkflowV2"
    "ev_limits env' = ev_limits env"
    and f: "\<And>r r'. forget r = forget r' \<Longrightarrow> agree R (f r) (g r')"
  shows "agree R (andthen (compile_span env source position) f) (andthen (compile_span env' source position) g)"
proof (rule agreeI)
  fix s t
  assume st: "alike R s t"
  then have R: "R (st_compiler s) (st_compiler t)" by (simp add: alike_def)
  obtain r c where run: "compile CelWorkflowV2 source position (ev_limits env) (st_compiler s) = (r, c)"
    by (cases "compile CelWorkflowV2 source position (ev_limits env) (st_compiler s)")
  obtain r' d where run': "compile' CelWorkflowV2 source position (ev_limits env) (st_compiler t) = (r', d)"
    by (cases "compile' CelWorkflowV2 source position (ev_limits env) (st_compiler t)")
  from answers [OF R, of CelWorkflowV2 source position "ev_limits env"] run run'
  have "agree R (f r) (g r')" by (intro f) simp
  moreover have "alike R (s\<lparr>st_compiler := c\<rparr>) (t\<lparr>st_compiler := d\<rparr>)"
    using st related [OF R, of CelWorkflowV2 source position "ev_limits env"] run run' by (simp add: alike_def)
  ultimately show "fst (andthen (compile_span env source position) f s) =
        fst (andthen (compile_span env' source position) g t)
      \<and> alike R (snd (andthen (compile_span env source position) f s))
          (snd (andthen (compile_span env' source position) g t))"
    using env run run' by (simp add: andthen_def compile_span_def agree_def)
qed

lemma agree_span:
  assumes env: "ev_compile env = compile CelWorkflowV2"
  shows "agree R (span_value env bindings source index offset position)
    (span_value (with_compiler (compile' CelWorkflowV2) env) bindings source index offset position)"
proof -
  have "agree R
      (andthen (lift (located index offset r)) (\<lambda>program.
       andthen (check env) (\<lambda>_.
       andthen (lift (located index offset
         (evaluate (ev_writes env) (ev_execute env) program bindings (position_kind position)))) (\<lambda>v.
       andthen (check env) (\<lambda>_. ret v)))))
      (andthen (lift (located index offset r')) (\<lambda>program.
       andthen (check (with_compiler (compile' CelWorkflowV2) env)) (\<lambda>_.
       andthen (lift (located index offset
         (evaluate (ev_writes env) (ev_execute env) program bindings (position_kind position)))) (\<lambda>v.
       andthen (check (with_compiler (compile' CelWorkflowV2) env)) (\<lambda>_. ret v)))))"
    if "forget r = forget r'" for r r'
    using that
  proof (cases rule: forget_cases)
    case (1 e)
    then show ?thesis by (auto intro!: agree_intros)
  next
    case (2 c d)
    note same = evaluate_forget [OF 2(3), of "ev_writes env" "ev_execute env"]
    have ok: "andthen (lift (located index offset (Ok x))) f = f x" for x :: compiled and f :: "compiled \<Rightarrow> ('x, 'y) step_m"
      by (simp add: andthen_def lift_def located_def fun_eq_iff)
    show ?thesis unfolding 2 ok same by (auto intro!: agree_intros)
  qed
  note rest = this
  show ?thesis
    unfolding span_value_def with_compiler_simps
    by (rule agree_andthen [OF agree_check agree_compile]) (simp_all add: env rest)
qed

lemma agree_join:
  assumes env: "ev_compile env = compile CelWorkflowV2"
  shows "agree R (join_segments env bindings position segs acc)
    (join_segments (with_compiler (compile' CelWorkflowV2) env) bindings position segs acc)"
proof (induction segs arbitrary: acc)
  case (Cons seg segs)
  have "agree R (append_text env e a b) (append_text (with_compiler (compile' CelWorkflowV2) env) e a b)" for e a b
    by (auto simp: append_text_def intro!: agree_intros)
  with Cons show ?case by (cases seg) (auto intro!: agree_intros agree_span [OF env])
qed (simp add: agree_ret)

lemma agree_resolve_string:
  assumes env: "ev_compile env = compile CelWorkflowV2"
  shows "agree R (resolve_string env bindings position root source)
    (resolve_string (with_compiler (compile' CelWorkflowV2) env) bindings position root source)"
  by (auto simp: resolve_string_def Let_def split: option.split
      intro!: agree_intros agree_span [OF env] agree_join [OF env])

lemma agree_finish:
  "agree R (finish_root env position root r) (finish_root (with_compiler (compile' CelWorkflowV2) env) position root r)"
  by (auto simp: finish_root_def header_object_def split: json.split intro!: agree_intros)

lemma agree_resolve:
  assumes env: "ev_compile env = compile CelWorkflowV2"
  shows "agree R (resolve_template env bindings position v root depth)
    (resolve_template (with_compiler (compile' CelWorkflowV2) env) bindings position v root depth)"
  using env
proof (induction env bindings position v root depth rule: resolve_template.induct)
  case (1 env bindings position v root depth)
  show ?case
  proof (subst (1 2) resolve_template.simps, intro agree_andthen, goal_cases)
    case (4 u1 u2 u3)
    with 1 show ?case
      by (cases v) (auto intro!: agree_intros agree_resolve_string simp: root_type_check_def)
  qed (auto simp: root_type_check_def intro!: agree_intros agree_finish)
qed

lemma agree_run_fields:
  assumes env: "ev_compile env = compile CelWorkflowV2"
  shows "agree R (run_fields env sb first_true fs bindings budget values)
    (run_fields (with_compiler (compile' CelWorkflowV2) env) sb first_true fs bindings budget values)"
  by (induction fs arbitrary: bindings budget "values")
     (auto simp: field_bindings_def Let_def split: option.split intro!: agree_intros agree_resolve [OF env])

lemma step_run_agrees:
  assumes env: "ev_compile env = compile CelWorkflowV2" and R: "R c d"
  shows "fst (step_run env request c) = fst (step_run (with_compiler (compile' CelWorkflowV2) env) request d)"
    "R (snd (step_run env request c)) (snd (step_run (with_compiler (compile' CelWorkflowV2) env) request d))"
proof -
  let ?with = "with_compiler (compile' CelWorkflowV2)"
  let ?env = "env\<lparr>ev_limits := sb_limits (sr_bindings request)\<rparr>"
  have mem: "(?with env)\<lparr>ev_limits := sb_limits (sr_bindings request)\<rparr> = ?with ?env"
    by (simp add: with_compiler_def)
  have "agree R (run_body ?env request) (run_body (?with ?env) request)"
    using env by (auto simp: run_body_def Let_def intro!: agree_intros agree_run_fields)
  moreover define path where "path = (case sr_fields request of [] \<Rightarrow> [] | f # _ \<Rightarrow> sf_path f)"
  moreover have "alike R \<lparr>st_looks = 0, st_path = path, st_compiler = c\<rparr>
      \<lparr>st_looks = 0, st_path = path, st_compiler = d\<rparr>"
    using R by (simp add: alike_def)
  ultimately obtain r s t where run:
      "run_body ?env request \<lparr>st_looks = 0, st_path = path, st_compiler = c\<rparr> = (r, s)"
      "run_body (?with ?env) request \<lparr>st_looks = 0, st_path = path, st_compiler = d\<rparr> = (r, t)"
      "alike R s t" by (elim agreeE)
  show "fst (step_run env request c) = fst (step_run (?with env) request d)"
    using run by (cases r) (simp_all add: step_run_def Let_def path_def [symmetric] mem alike_def)
  show "R (snd (step_run env request c)) (snd (step_run (?with env) request d))"
    using run by (cases r) (simp_all add: step_run_def Let_def path_def [symmetric] mem alike_def)
qed

end

section \<open>The cache\<close>

text \<open>The cache and a compiler that remembers nothing.\<close>

interpretation forgetful: compilers "cache_compile parse hash held" "plain_compile parse"
  "\<lambda>c _. sound_cache parse hash c" for parse hash held
proof
  fix c :: cache_state and d :: unit and profile source position lim
  assume good: "sound_cache parse hash c"
  obtain r cache where run:
      "cached_compile parse hash held (snd c) profile source position lim (fst c) = (r, cache)"
    by (cases "cached_compile parse hash held (snd c) profile source position lim (fst c)")
  show "sound_cache parse hash (snd (cache_compile parse hash held profile source position lim c))"
    using good cached_compile_invariant(1) [OF _ run] by (simp add: sound_cache_def cache_compile_def run)
  show "forget (fst (cache_compile parse hash held profile source position lim c)) =
      forget (fst (plain_compile parse profile source position lim d))"
    using good cached_compile_answer [of parse hash "fst c" held "snd c" profile source position lim]
    by (simp add: sound_cache_def cache_compile_def run plain_compile_def forget_def)
qed

text \<open>The cache and itself, within its budget.\<close>

definition budget_cache ::
  "(string \<Rightarrow> cel_expr option) \<Rightarrow> (string \<Rightarrow> string) \<Rightarrow> nat \<Rightarrow> nat \<Rightarrow> cache_state \<Rightarrow> bool" where
  "budget_cache parse hash entries bytes c \<longleftrightarrow>
     (\<forall>e \<in> set (cc_entries (fst c)). entry_sound parse hash e) \<and> cache_bounded (fst c)
     \<and> cc_max_entries (fst c) = entries \<and> cc_max_bytes (fst c) = bytes"

lemma cache_compile_budget:
  assumes "budget_cache parse hash entries bytes c"
  shows "budget_cache parse hash entries bytes (snd (cache_compile parse hash held profile source position lim c))"
proof -
  obtain r cache where run:
      "cached_compile parse hash held (snd c) profile source position lim (fst c) = (r, cache)"
    by (cases "cached_compile parse hash held (snd c) profile source position lim (fst c)")
  show ?thesis
    using assms cached_compile_invariant [OF _ run] by (simp add: budget_cache_def cache_compile_def run)
qed

interpretation bounded: compilers "cache_compile parse hash held" "cache_compile parse hash held"
  "\<lambda>c d. c = d \<and> budget_cache parse hash entries bytes c" for parse hash held entries bytes
  by unfold_locales (auto intro: cache_compile_budget)

end
