(* ===== verification/Expr_Worker.thy ===== *)
theory Expr_Worker
  imports Step_Cache "HOL-Library.AList"
begin

text \<open>
  The pool of expression workers, \<open>crates/workflow-expression/src/worker.rs\<close>: the admission of a
  configuration and the reservation of cache, and the loop of one worker, which owns the compiled
  programs and hands out opaque handles to them.

  Other threads decide when controls and jobs arrive, when a job is cancelled and when the pool goes
  away.  A \<open>turn\<close> is what one pass through the loop sees of them, so that a list of turns is one
  interleaving.  A program is in use, and its cache entry charged, while the registry holds it.
\<close>

section \<open>Configuration\<close>

record worker_config =
  wc_workers :: nat
  wc_stack_bytes :: nat
  wc_queue_per_worker :: nat
  wc_leases_per_worker :: nat
  wc_cache_entries :: nat
  wc_cache_bytes :: nat

definition COMPILATION_STACK_BYTES :: nat where
  "COMPILATION_STACK_BYTES = 8 * 1024 * 1024"

definition default_worker_config :: worker_config where
  "default_worker_config =
     \<lparr>wc_workers = 2, wc_stack_bytes = COMPILATION_STACK_BYTES, wc_queue_per_worker = 32,
      wc_leases_per_worker = 256, wc_cache_entries = 128, wc_cache_bytes = 16 * 1024 * 1024\<rparr>"

definition stack_reservation :: "worker_config \<Rightarrow> nat option" where
  "stack_reservation config = checked_mul (wc_stack_bytes config) (wc_workers config)"

definition partition_share :: "nat \<Rightarrow> nat \<Rightarrow> nat \<Rightarrow> nat" where
  "partition_share amount workers i = amount div workers + of_bool (i < amount mod workers)"

definition partitions :: "worker_config \<Rightarrow> (nat \<times> nat) list" where
  "partitions config =
     map (\<lambda>i. (partition_share (wc_cache_entries config) (wc_workers config) i,
               partition_share (wc_cache_bytes config) (wc_workers config) i)) [0..<wc_workers config]"

text \<open>The process-wide ceiling: entries and bytes reserved by the pools alive, and the next generation.\<close>

record pools =
  po_entries :: nat
  po_bytes :: nat
  po_generation :: nat

definition config_refused :: "worker_config \<Rightarrow> bool" where
  "config_refused config \<longleftrightarrow>
     wc_workers config = 0 \<or> wc_workers config > 128
     \<or> wc_stack_bytes config \<le> 2 * 1024 * 1024 \<or> stack_reservation config = None
     \<or> wc_queue_per_worker config = 0 \<or> wc_queue_per_worker config > 256
     \<or> wc_leases_per_worker config = 0 \<or> wc_leases_per_worker config > 4096
     \<or> wc_cache_entries config > 128 \<or> wc_cache_bytes config > 16 * 1024 * 1024"

definition start :: "worker_config \<Rightarrow> pools \<Rightarrow> (worker_error, nat \<times> (nat \<times> nat) list) result \<times> pools" where
  "start config pools =
     (if config_refused config then (Err Configuration, pools)
      else if po_entries pools + wc_cache_entries config > 128
              \<or> po_bytes pools + wc_cache_bytes config > 16 * 1024 * 1024
      then (Err FullQueue, pools)
      else
        case checked_add (po_generation pools) 1 of
          None \<Rightarrow> (Err Unavailable, pools)
        | Some next_generation \<Rightarrow>
            (Ok (po_generation pools, partitions config),
             \<lparr>po_entries = po_entries pools + wc_cache_entries config,
              po_bytes = po_bytes pools + wc_cache_bytes config, po_generation = next_generation\<rparr>))"

definition release_reservation :: "worker_config \<Rightarrow> pools \<Rightarrow> pools" where
  "release_reservation config pools =
     pools\<lparr>po_entries := po_entries pools - wc_cache_entries config,
           po_bytes := po_bytes pools - wc_cache_bytes config\<rparr>"

section \<open>Jobs and replies\<close>

record worker_id =
  id_worker :: nat
  id_generation :: nat
  id_slot :: nat

datatype control =
    Release worker_id
  | Shutdown

datatype worker_op =
    OpStep step_request
  | OpCompile profile string position limits
  | OpEvaluate worker_id step_bindings kind
  | OpStats

datatype reply =
    ReplyStep "(step_error, json list) result"
  | ReplyHandle worker_id
  | ReplyValue json
  | ReplyStats nat nat

type_synonym answer_reply = "(worker_error, reply) result"

datatype received =
    Timeout
  | Disconnected
  | Received worker_op

record turn =
  tn_controls :: "control list"
  tn_received :: received
  tn_late :: "control list"
  tn_withdrawn :: bool
  tn_cancelled :: "nat \<Rightarrow> bool"
  tn_dropped :: bool
  tn_owner :: "(nat \<times> nat) option"
  tn_discarded :: bool

section \<open>The loop\<close>

record 'c compile_engine =
  en_compile :: "(nat \<Rightarrow> bool) \<Rightarrow> profile \<Rightarrow> string \<Rightarrow> position \<Rightarrow> limits \<Rightarrow> 'c
    \<Rightarrow> (expression_error, compiled) result \<times> 'c"
  en_collect :: "(nat \<Rightarrow> bool) \<Rightarrow> 'c \<Rightarrow> 'c"
  en_stats :: "'c \<Rightarrow> nat \<times> nat"
  en_execute :: cel_execute
  en_writes :: "json \<Rightarrow> string list"

record 'c worker =
  wk_cache :: 'c
  wk_registry :: "(worker_id \<times> compiled) list"
  wk_nonce :: nat
  wk_shutting_down :: bool

definition worker_new :: "'c \<Rightarrow> 'c worker" where
  "worker_new cache = \<lparr>wk_cache = cache, wk_registry = [], wk_nonce = 0, wk_shutting_down = False\<rparr>"

definition registry_holds :: "'c worker \<Rightarrow> nat \<Rightarrow> bool" where
  "registry_holds w i \<longleftrightarrow> list_ex (\<lambda>(_, c). pr_id (co_program c) = i) (wk_registry w)"

definition handle_control :: "control \<Rightarrow> 'c worker \<Rightarrow> 'c worker" where
  "handle_control control w =
     (case control of
        Release i \<Rightarrow> w\<lparr>wk_registry := AList.delete i (wk_registry w)\<rparr>
      | Shutdown \<Rightarrow> w\<lparr>wk_shutting_down := True\<rparr>)"

definition drain :: "'c compile_engine \<Rightarrow> control list \<Rightarrow> 'c worker \<Rightarrow> 'c worker" where
  "drain en controls w =
     (let w = fold handle_control controls w in
      w\<lparr>wk_cache := en_collect en (registry_holds w) (wk_cache w)\<rparr>)"

definition serve_step ::
  "'c compile_engine \<Rightarrow> (nat \<Rightarrow> bool) \<Rightarrow> step_request \<Rightarrow> 'c worker \<Rightarrow> answer_reply \<times> 'c worker" where
  "serve_step en cancelled request w =
     (case step_run \<lparr>ev_cancelled = cancelled, ev_compile = en_compile en (registry_holds w) CelWorkflowV2,
                     ev_execute = en_execute en, ev_writes = en_writes en,
                     ev_limits = sb_limits (sr_bindings request)\<rparr> request (wk_cache w) of
        (r, cache) \<Rightarrow> (Ok (ReplyStep r), w\<lparr>wk_cache := cache\<rparr>))"

definition lease ::
  "turn \<Rightarrow> compiled \<Rightarrow> 'c worker \<Rightarrow> answer_reply \<times> 'c worker" where
  "lease t compiled w =
     (case checked_add (wk_nonce w) 1 of
        None \<Rightarrow> (Err Unavailable, w)
      | Some nonce \<Rightarrow>
          let w = w\<lparr>wk_nonce := nonce\<rparr> in
          (case tn_owner t of
             None \<Rightarrow> (Err Unavailable, w)
           | Some (owner, generation) \<Rightarrow>
               let i = \<lparr>id_worker = owner, id_generation = generation, id_slot = nonce\<rparr> in
               (Ok (ReplyHandle i), w\<lparr>wk_registry := AList.update i compiled (wk_registry w)\<rparr>)))"

definition serve_compile ::
  "'c compile_engine \<Rightarrow> nat \<Rightarrow> turn \<Rightarrow> profile \<Rightarrow> string \<Rightarrow> position \<Rightarrow> limits \<Rightarrow> 'c worker
     \<Rightarrow> answer_reply \<times> 'c worker" where
  "serve_compile en leases t profile source position lim w =
     (if leases \<le> length (wk_registry w) then (Err FullQueue, w)
      else
        case en_compile en (registry_holds w) profile source position lim (wk_cache w) of
          (Err e, cache) \<Rightarrow> (Err (Expression e), w\<lparr>wk_cache := cache\<rparr>)
        | (Ok compiled, cache) \<Rightarrow>
            if tn_dropped t
            then (Err Unavailable, w\<lparr>wk_cache := en_collect en (registry_holds w) cache\<rparr>)
            else lease t compiled (w\<lparr>wk_cache := cache\<rparr>))"

definition serve_evaluate ::
  "'c compile_engine \<Rightarrow> worker_id \<Rightarrow> step_bindings \<Rightarrow> kind \<Rightarrow> 'c worker \<Rightarrow> answer_reply" where
  "serve_evaluate en i sb k w =
     rtry (ok_or InvalidHandle (map_of (wk_registry w) i)) (\<lambda>compiled.
       map_sum Expression ReplyValue
         (rtry (bindings_with_limits (en_writes en) (sb_context sb) (sb_input sb) (sb_output sb)
                  (sb_value sb) (sb_limits sb)) (\<lambda>bindings.
            evaluate (en_writes en) (en_execute en) compiled bindings k)))"

definition serve_op ::
  "'c compile_engine \<Rightarrow> nat \<Rightarrow> turn \<Rightarrow> worker_op \<Rightarrow> 'c worker \<Rightarrow> answer_reply \<times> 'c worker" where
  "serve_op en leases t op w =
     (case op of
        OpStep request \<Rightarrow> serve_step en (tn_cancelled t) request w
      | OpCompile profile source position lim \<Rightarrow> serve_compile en leases t profile source position lim w
      | OpEvaluate i sb k \<Rightarrow> (serve_evaluate en i sb k w, w)
      | OpStats \<Rightarrow> (case en_stats en (wk_cache w) of (entries, bytes) \<Rightarrow> (Ok (ReplyStats entries bytes), w)))"

definition worker_turn ::
  "'c compile_engine \<Rightarrow> nat \<Rightarrow> turn \<Rightarrow> 'c worker \<Rightarrow> answer_reply option \<times> 'c worker" where
  "worker_turn en leases t w =
     (let w = drain en (tn_controls t) w in
      case tn_received t of
        Received op \<Rightarrow>
          let w = drain en (tn_late t) w in
          if wk_shutting_down w \<or> tn_withdrawn t then (Some (Err Unavailable), w)
          else
            (case serve_op en leases t op w of
               (r, w) \<Rightarrow> (if tn_discarded t then None else Some r, w))
      | _ \<Rightarrow> (None, w))"

fun worker_loop ::
  "'c compile_engine \<Rightarrow> nat \<Rightarrow> turn list \<Rightarrow> 'c worker \<Rightarrow> answer_reply option list \<times> 'c worker" where
  "worker_loop en leases [] w = ([], w)"
| "worker_loop en leases (t # ts) w =
     (case worker_turn en leases t w of
        (r, w) \<Rightarrow>
          if tn_received t = Disconnected then ([r], w)
          else (case worker_loop en leases ts w of (rs, w) \<Rightarrow> (r # rs, w)))"

text \<open>The worker of the source, over its cache, and one that compiles every source anew.\<close>

definition cached_engine ::
  "(string \<Rightarrow> cel_expr option) \<Rightarrow> (string \<Rightarrow> string) \<Rightarrow> cel_execute \<Rightarrow> (json \<Rightarrow> string list)
     \<Rightarrow> cache_state compile_engine" where
  "cached_engine parse hash execute writes =
     \<lparr>en_compile = cache_compile parse hash, en_collect = (\<lambda>held c. (collect held (fst c), snd c)),
      en_stats = (\<lambda>c. (cache_len (fst c), cc_bytes (fst c))), en_execute = execute, en_writes = writes\<rparr>"

definition plain_engine ::
  "(string \<Rightarrow> cel_expr option) \<Rightarrow> cel_execute \<Rightarrow> (json \<Rightarrow> string list) \<Rightarrow> unit compile_engine" where
  "plain_engine parse execute writes =
     \<lparr>en_compile = (\<lambda>_. plain_compile parse), en_collect = (\<lambda>_ c. c), en_stats = (\<lambda>_. (0, 0)),
      en_execute = execute, en_writes = writes\<rparr>"

definition start_worker :: "nat \<times> nat \<Rightarrow> cache_state worker" where
  "start_worker share = worker_new (with_budget (fst share) (snd share), 0)"

section \<open>The cache cannot be observed\<close>

definition forget_reply :: "answer_reply \<Rightarrow> answer_reply" where
  "forget_reply r = (case r of Ok (ReplyStats _ _) \<Rightarrow> Ok (ReplyStats 0 0) | _ \<Rightarrow> r)"

definition same_program :: "worker_id \<times> compiled \<Rightarrow> worker_id \<times> compiled \<Rightarrow> bool" where
  "same_program x y \<longleftrightarrow> fst x = fst y \<and> forget (Ok (snd x)) = forget (Ok (snd y))"

definition worker_alike :: "('c \<Rightarrow> 'd \<Rightarrow> bool) \<Rightarrow> 'c worker \<Rightarrow> 'd worker \<Rightarrow> bool" where
  "worker_alike R v w \<longleftrightarrow>
     R (wk_cache v) (wk_cache w) \<and> list_all2 same_program (wk_registry v) (wk_registry w)
     \<and> wk_nonce v = wk_nonce w \<and> wk_shutting_down v = wk_shutting_down w"

definition turns_agree ::
  "('c \<Rightarrow> 'd \<Rightarrow> bool) \<Rightarrow> answer_reply \<times> 'c worker \<Rightarrow> answer_reply \<times> 'd worker \<Rightarrow> bool" where
  "turns_agree R x y \<longleftrightarrow> forget_reply (fst x) = forget_reply (fst y) \<and> worker_alike R (snd x) (snd y)"

lemma same_program_delete:
  "list_all2 same_program xs ys \<Longrightarrow> list_all2 same_program (AList.delete i xs) (AList.delete i ys)"
  by (induction rule: list_all2_induct) (auto simp: same_program_def)

lemma same_program_update:
  assumes "list_all2 same_program xs ys" "forget (Ok c) = forget (Ok d)"
  shows "list_all2 same_program (AList.update i c xs) (AList.update i d ys)"
  using assms by (induction rule: list_all2_induct) (auto simp: same_program_def)

lemma same_program_lookup:
  assumes "list_all2 same_program xs ys"
  shows "rel_option (\<lambda>c d. forget (Ok c) = forget (Ok d)) (map_of xs i) (map_of ys i)"
  using assms by (induction rule: list_all2_induct) (auto simp: same_program_def)

lemma handle_control_alike:
  "worker_alike R v w \<Longrightarrow> worker_alike R (handle_control c v) (handle_control c w)"
  by (auto simp: worker_alike_def handle_control_def same_program_delete split: control.split)

lemma handle_controls_alike:
  "worker_alike R v w \<Longrightarrow> worker_alike R (fold handle_control cs v) (fold handle_control cs w)"
  by (induction cs arbitrary: v w) (auto intro: handle_control_alike)

lemma lease_agrees:
  assumes "worker_alike R v w" "forget (Ok c) = forget (Ok d)"
  shows "turns_agree R (lease t c v) (lease t d w)"
  using assms
  by (auto simp: lease_def turns_agree_def worker_alike_def Let_def same_program_update split: option.split)

locale worker_service =
  fixes en :: "'c compile_engine" and en' :: "'d compile_engine" and R :: "'c \<Rightarrow> 'd \<Rightarrow> bool"
  assumes compilers: "compilers (en_compile en held) (en_compile en' held') R"
    and collect_related: "R c d \<Longrightarrow> R (en_collect en held c) (en_collect en' held' d)"
    and same_engine: "en_execute en' = en_execute en" "en_writes en' = en_writes en"
begin

lemma drain_alike:
  assumes "worker_alike R v w"
  shows "worker_alike R (drain en cs v) (drain en' cs w)"
  using handle_controls_alike [OF assms, of cs] collect_related
  by (simp add: drain_def Let_def worker_alike_def)

lemma serve_step_agrees:
  assumes "worker_alike R v w"
  shows "turns_agree R (serve_step en cancelled request v) (serve_step en' cancelled request w)"
proof -
  let ?env = "\<lparr>ev_cancelled = cancelled, ev_compile = en_compile en (registry_holds v) CelWorkflowV2,
      ev_execute = en_execute en, ev_writes = en_writes en, ev_limits = sb_limits (sr_bindings request)\<rparr>"
  let ?env' = "with_compiler (en_compile en' (registry_holds w) CelWorkflowV2) ?env"
  have "R (wk_cache v) (wk_cache w)" using assms by (simp add: worker_alike_def)
  note step = compilers.step_run_agrees [OF compilers [of "registry_holds v" "registry_holds w"], of ?env, OF _ this]
  from step [of request] assms show ?thesis
    by (auto simp: serve_step_def with_compiler_def same_engine turns_agree_def worker_alike_def split: prod.splits)
qed

lemma serve_compile_agrees:
  assumes alike: "worker_alike R v w"
  shows "turns_agree R (serve_compile en leases t profile source position lim v)
    (serve_compile en' leases t profile source position lim w)"
proof -
  have len: "length (wk_registry v) = length (wk_registry w)" and R: "R (wk_cache v) (wk_cache w)"
    using alike by (auto simp: worker_alike_def dest: list_all2_lengthD)
  obtain r c where run: "en_compile en (registry_holds v) profile source position lim (wk_cache v) = (r, c)"
    by (cases "en_compile en (registry_holds v) profile source position lim (wk_cache v)")
  obtain r' d where run': "en_compile en' (registry_holds w) profile source position lim (wk_cache w) = (r', d)"
    by (cases "en_compile en' (registry_holds w) profile source position lim (wk_cache w)")
  note both = compilers [of "registry_holds v" "registry_holds w"]
  have rel: "R c d" using compilers.related [OF both R, of profile source position lim] run run' by simp
  with alike have next_alike: "worker_alike R (v\<lparr>wk_cache := c\<rparr>) (w\<lparr>wk_cache := d\<rparr>)"
    by (simp add: worker_alike_def)
  have "forget r = forget r'" using compilers.answers [OF both R, of profile source position lim] run run' by simp
  then show ?thesis
  proof (cases rule: forget_cases)
    case (1 e)
    with alike next_alike run run' len show ?thesis by (simp add: serve_compile_def turns_agree_def)
  next
    case (2 x y)
    with lease_agrees [OF next_alike, of x y t] alike next_alike run run' len collect_related [OF rel]
    show ?thesis by (simp add: serve_compile_def turns_agree_def worker_alike_def)
  qed
qed

lemma serve_evaluate_agrees:
  assumes "worker_alike R v w"
  shows "serve_evaluate en i sb k v = serve_evaluate en' i sb k w"
proof -
  have "rel_option (\<lambda>c d. forget (Ok c) = forget (Ok d)) (map_of (wk_registry v) i) (map_of (wk_registry w) i)"
    using assms by (intro same_program_lookup) (simp add: worker_alike_def)
  then show ?thesis
  proof (cases rule: option.rel_cases)
    case (Some c d)
    note same = evaluate_forget [OF Some(3), of "en_writes en" "en_execute en"]
    from Some(1,2) show ?thesis by (simp add: serve_evaluate_def same_engine same)
  qed (simp add: serve_evaluate_def)
qed

lemma serve_op_agrees:
  assumes "worker_alike R v w"
  shows "turns_agree R (serve_op en leases t op v) (serve_op en' leases t op w)"
  using serve_step_agrees [OF assms] serve_compile_agrees [OF assms] serve_evaluate_agrees [OF assms] assms
  by (cases op) (auto simp: serve_op_def turns_agree_def forget_reply_def split: prod.split)

lemma worker_turn_agrees:
  assumes "worker_alike R v w"
  shows "map_option forget_reply (fst (worker_turn en leases t v)) =
      map_option forget_reply (fst (worker_turn en' leases t w))"
    "worker_alike R (snd (worker_turn en leases t v)) (snd (worker_turn en' leases t w))"
proof -
  note first = drain_alike [OF assms, of "tn_controls t"]
  note second = drain_alike [OF first, of "tn_late t"]
  have shut: "wk_shutting_down (drain en (tn_late t) (drain en (tn_controls t) v)) =
      wk_shutting_down (drain en' (tn_late t) (drain en' (tn_controls t) w))"
    using second by (simp add: worker_alike_def)
  show "map_option forget_reply (fst (worker_turn en leases t v)) =
      map_option forget_reply (fst (worker_turn en' leases t w))"
    "worker_alike R (snd (worker_turn en leases t v)) (snd (worker_turn en' leases t w))"
    using first second shut serve_op_agrees [OF second, of leases t]
    by (auto simp: worker_turn_def Let_def turns_agree_def split_beta split: received.split)
qed

lemma worker_loop_agrees:
  assumes "worker_alike R v w"
  shows "map (map_option forget_reply) (fst (worker_loop en leases ts v)) =
    map (map_option forget_reply) (fst (worker_loop en' leases ts w))"
  using assms
proof (induction ts arbitrary: v w)
  case (Cons t ts)
  from worker_turn_agrees [OF Cons.prems, of leases t] Cons.IH show ?case
    by (auto simp: split_beta)
qed simp

end

lemma sound_cache_collect: "sound_cache parse hash (collect held (fst c), n) = sound_cache parse hash c"
  by (simp add: sound_cache_def)

interpretation pool: worker_service "cached_engine parse hash execute writes" "plain_engine parse execute writes"
  "\<lambda>c _. sound_cache parse hash c" for parse hash execute writes
  by (rule worker_service.intro)
     (simp_all add: cached_engine_def plain_engine_def sound_cache_collect forgetful.compilers_axioms)

lemma start_worker_sound: "collision_free parse hash \<Longrightarrow> sound_cache parse hash (wk_cache (start_worker share))"
  by (simp add: start_worker_def worker_new_def sound_cache_def with_budget_def)

text \<open>C3: A caller cannot tell that a worker caches programs.  If sources with the same digest parse
  alike, then in every interleaving of controls, jobs and cancellations the worker sends the replies
  of a worker that compiles every source anew, the numbers of a statistics request apart: the same
  errors at the same places, the same handles, and the same values of steps and evaluations.\<close>

theorem worker_hides_cache:
  assumes "collision_free parse hash"
  shows "map (map_option forget_reply)
           (fst (worker_loop (cached_engine parse hash execute writes) leases turns (start_worker share))) =
         map (map_option forget_reply)
           (fst (worker_loop (plain_engine parse execute writes) leases turns (worker_new ())))"
proof (rule pool.worker_loop_agrees)
  show "worker_alike (\<lambda>c _. sound_cache parse hash c) (start_worker share) (worker_new ())"
    using start_worker_sound [OF assms, of share] by (simp add: worker_alike_def start_worker_def worker_new_def)
qed

section \<open>Handles\<close>

definition direct_evaluation ::
  "(string \<Rightarrow> cel_expr option) \<Rightarrow> cel_execute \<Rightarrow> (json \<Rightarrow> string list) \<Rightarrow> string \<Rightarrow> position \<Rightarrow> limits
     \<Rightarrow> step_bindings \<Rightarrow> kind \<Rightarrow> (expression_error, json) result" where
  "direct_evaluation parse execute writes source position lim sb k =
     rtry (compile_with_limits parse 0 source position lim) (\<lambda>compiled.
     rtry (bindings_with_limits writes (sb_context sb) (sb_input sb) (sb_output sb) (sb_value sb) (sb_limits sb))
       (\<lambda>bindings. evaluate writes execute compiled bindings k))"

text \<open>No slot above the nonce is registered, so a new handle never takes the place of another.\<close>

definition slots_used :: "'c worker \<Rightarrow> bool" where
  "slots_used w \<longleftrightarrow> (\<forall>i \<in> fst ` set (wk_registry w). id_slot i \<le> wk_nonce w)"

lemma delete_subset: "set (AList.delete i xs) \<subseteq> set xs"
  by (auto simp: AList.delete_eq)

lemma handle_control_keeps:
  "c \<noteq> Release i \<Longrightarrow> map_of (wk_registry (handle_control c w)) i = map_of (wk_registry w) i"
  "slots_used w \<Longrightarrow> slots_used (handle_control c w)"
  "wk_nonce (handle_control c w) = wk_nonce w"
  "length (wk_registry (handle_control c w)) \<le> length (wk_registry w)"
  "wk_cache (handle_control c w) = wk_cache w"
  by (auto simp: handle_control_def slots_used_def AList.delete_conv' AList.length_delete_le
      dest!: subsetD [OF delete_subset] split: control.split)

lemma handle_controls_cache: "wk_cache (fold handle_control cs w) = wk_cache w"
  by (induction cs arbitrary: w) (simp_all add: handle_control_keeps(5))

lemma drain_keeps:
  "Release i \<notin> set cs \<Longrightarrow> map_of (wk_registry (drain en cs w)) i = map_of (wk_registry w) i"
  "slots_used w \<Longrightarrow> slots_used (drain en cs w)"
  "wk_nonce (drain en cs w) = wk_nonce w"
  "length (wk_registry (drain en cs w)) \<le> length (wk_registry w)"
proof -
  have "(Release i \<notin> set cs \<longrightarrow> map_of (wk_registry (fold handle_control cs w)) i = map_of (wk_registry w) i)
    \<and> (slots_used w \<longrightarrow> slots_used (fold handle_control cs w))
    \<and> wk_nonce (fold handle_control cs w) = wk_nonce w
    \<and> length (wk_registry (fold handle_control cs w)) \<le> length (wk_registry w)"
  proof (induction cs arbitrary: w)
    case (Cons c cs)
    from Cons [of "handle_control c w"] handle_control_keeps(1) [of c i w] handle_control_keeps(2) [of w c]
      handle_control_keeps(3,4) [of c w] show ?case by (auto intro: le_trans)
  qed simp
  then show "Release i \<notin> set cs \<Longrightarrow> map_of (wk_registry (drain en cs w)) i = map_of (wk_registry w) i"
    "slots_used w \<Longrightarrow> slots_used (drain en cs w)" "wk_nonce (drain en cs w) = wk_nonce w"
    "length (wk_registry (drain en cs w)) \<le> length (wk_registry w)"
    by (auto simp: drain_def Let_def slots_used_def)
qed

lemma update_length: "length (AList.update i c xs) \<le> Suc (length xs)"
  by (induction xs) auto

lemma update_key: "(k, d) \<in> set (AList.update i c xs) \<Longrightarrow> k = i \<or> k \<in> fst ` set xs"
  using AList.dom_update [of i c xs] by force

lemma lease_keeps:
  assumes "slots_used w"
  shows "slots_used (snd (lease t c w))" "wk_nonce w \<le> wk_nonce (snd (lease t c w))"
    "id_slot i \<le> wk_nonce w \<Longrightarrow> map_of (wk_registry (snd (lease t c w))) i = map_of (wk_registry w) i"
    "length (wk_registry (snd (lease t c w))) \<le> Suc (length (wk_registry w))"
    "fst (lease t c w) = Ok (ReplyHandle i) \<Longrightarrow>
       map_of (wk_registry (snd (lease t c w))) i = Some c \<and> id_slot i \<le> wk_nonce (snd (lease t c w))"
  using assms
  by (auto simp: lease_def Let_def slots_used_def checked_add_def AList.update_conv' update_length
      dest!: update_key split: option.split if_splits)

lemma serve_compile_keeps:
  assumes "slots_used w"
  shows "slots_used (snd (serve_compile en leases t profile source position lim w))"
    "wk_nonce w \<le> wk_nonce (snd (serve_compile en leases t profile source position lim w))"
    "id_slot i \<le> wk_nonce w \<Longrightarrow>
       map_of (wk_registry (snd (serve_compile en leases t profile source position lim w))) i = map_of (wk_registry w) i"
    "length (wk_registry w) \<le> leases \<Longrightarrow>
       length (wk_registry (snd (serve_compile en leases t profile source position lim w))) \<le> leases"
proof -
  obtain r cache where run: "en_compile en (registry_holds w) profile source position lim (wk_cache w) = (r, cache)"
    by (cases "en_compile en (registry_holds w) profile source position lim (wk_cache w)")
  have "slots_used (w\<lparr>wk_cache := cache\<rparr>)" using assms by (simp add: slots_used_def)
  note lease = lease_keeps(1-4) [OF this, where t = t]
  show "slots_used (snd (serve_compile en leases t profile source position lim w))"
    "wk_nonce w \<le> wk_nonce (snd (serve_compile en leases t profile source position lim w))"
    using assms lease(1,2) run by (auto simp: serve_compile_def slots_used_def split: sum.split)
  show "map_of (wk_registry (snd (serve_compile en leases t profile source position lim w))) i = map_of (wk_registry w) i"
    if "id_slot i \<le> wk_nonce w"
    using assms lease(3) [where i = i] run that by (auto simp: serve_compile_def split: sum.split)
  show "length (wk_registry (snd (serve_compile en leases t profile source position lim w))) \<le> leases"
    if "length (wk_registry w) \<le> leases"
  proof (cases r)
    case (Inr c)
    with lease(4) [of c] run that show ?thesis by (simp add: serve_compile_def)
  qed (use run that in \<open>simp add: serve_compile_def\<close>)
qed

lemma serve_op_keeps:
  assumes "slots_used w"
  shows "slots_used (snd (serve_op en leases t op w))" "wk_nonce w \<le> wk_nonce (snd (serve_op en leases t op w))"
    "id_slot i \<le> wk_nonce w \<Longrightarrow> map_of (wk_registry (snd (serve_op en leases t op w))) i = map_of (wk_registry w) i"
    "length (wk_registry w) \<le> leases \<Longrightarrow> length (wk_registry (snd (serve_op en leases t op w))) \<le> leases"
  using assms serve_compile_keeps [OF assms, where en = en and leases = leases and t = t]
  by (cases op; simp add: serve_op_def serve_step_def slots_used_def split_beta)+

lemma worker_turn_keeps:
  assumes "slots_used w"
  shows "slots_used (snd (worker_turn en leases t w))" "wk_nonce w \<le> wk_nonce (snd (worker_turn en leases t w))"
    "id_slot i \<le> wk_nonce w \<Longrightarrow> Release i \<notin> set (tn_controls t @ tn_late t) \<Longrightarrow>
       map_of (wk_registry (snd (worker_turn en leases t w))) i = map_of (wk_registry w) i"
    "length (wk_registry w) \<le> leases \<Longrightarrow> length (wk_registry (snd (worker_turn en leases t w))) \<le> leases"
proof -
  let ?v = "drain en (tn_controls t) w"
  let ?u = "drain en (tn_late t) ?v"
  note first = drain_keeps(2) [OF assms, of en "tn_controls t"]
  note second = drain_keeps(2) [OF first, of en "tn_late t"]
  note keeps = serve_op_keeps [OF second, where en = en and leases = leases and t = t]
  show "slots_used (snd (worker_turn en leases t w))" "wk_nonce w \<le> wk_nonce (snd (worker_turn en leases t w))"
    using first second keeps(1,2)
    by (auto simp: worker_turn_def Let_def split_beta drain_keeps(3) split: received.split)
  show "map_of (wk_registry (snd (worker_turn en leases t w))) i = map_of (wk_registry w) i"
    if "id_slot i \<le> wk_nonce w" "Release i \<notin> set (tn_controls t @ tn_late t)"
    using that keeps(3) [where i = i]
    by (auto simp: worker_turn_def Let_def split_beta drain_keeps(1,3) split: received.split)
  show "length (wk_registry (snd (worker_turn en leases t w))) \<le> leases" if "length (wk_registry w) \<le> leases"
  proof -
    have "length (wk_registry ?v) \<le> leases" "length (wk_registry ?u) \<le> leases"
      using that drain_keeps(4) le_trans by metis+
    with keeps(4) show ?thesis by (auto simp: worker_turn_def Let_def split_beta split: received.split)
  qed
qed

text \<open>A registered handle answers with its program until it is released.\<close>

lemma registered_evaluates:
  assumes "slots_used w" "id_slot i \<le> wk_nonce w" "map_of (wk_registry w) i = Some c"
    and "j < length (fst (worker_loop en leases turns w))"
    and "\<forall>t \<in> set (take (Suc j) turns). Release i \<notin> set (tn_controls t @ tn_late t)"
    and "tn_received (turns ! j) = Received (OpEvaluate i sb k)"
    and "fst (worker_loop en leases turns w) ! j = Some r" "r \<noteq> Err Unavailable"
  shows "r = map_sum Expression ReplyValue
     (rtry (bindings_with_limits (en_writes en) (sb_context sb) (sb_input sb) (sb_output sb) (sb_value sb) (sb_limits sb))
       (\<lambda>bindings. evaluate (en_writes en) (en_execute en) c bindings k))"
  using assms
proof (induction turns arbitrary: w j)
  case (Cons t turns)
  obtain x w' where run: "worker_turn en leases t w = (x, w')" by (cases "worker_turn en leases t w")
  have here: "Release i \<notin> set (tn_controls t @ tn_late t)" using Cons.prems(5) by simp
  show ?case
  proof (cases j)
    case 0
    with Cons.prems(6) have op: "tn_received t = Received (OpEvaluate i sb k)" by simp
    from 0 Cons.prems(7) run op have "x = Some r" by (simp add: split_beta)
    with Cons.prems(3,8) here op run show ?thesis
      by (auto simp: worker_turn_def Let_def split_beta serve_op_def serve_evaluate_def drain_keeps(1)
          split: if_splits)
  next
    case (Suc m)
    note keeps = worker_turn_keeps [OF Cons.prems(1), where en = en and leases = leases and t = t]
    have "tn_received t \<noteq> Disconnected" using Cons.prems(4) Suc run by (auto split: if_splits)
    with Cons.prems Suc run keeps here show ?thesis
      by (intro Cons.IH [of w' m]) (auto simp: split_beta)
  qed
qed simp

lemma issued_registers:
  assumes "slots_used w" "worker_turn (plain_engine parse execute writes) leases t w = (Some (Ok (ReplyHandle i)), w')"
    and "tn_received t = Received (OpCompile profile source position lim)"
  obtains c where "map_of (wk_registry w') i = Some c" "id_slot i \<le> wk_nonce w'"
    "compile_with_limits parse 0 source position lim = Ok c"
proof -
  let ?en = "plain_engine parse execute writes"
  let ?u = "drain ?en (tn_late t) (drain ?en (tn_controls t) w)"
  have used: "slots_used ?u" using assms(1) by (intro drain_keeps(2))
  have run: "serve_compile ?en leases t profile source position lim ?u = (Ok (ReplyHandle i), w')"
    using assms(2,3) by (auto simp: worker_turn_def Let_def split_beta serve_op_def prod_eq_iff split: if_splits)
  from run obtain c where c: "compile_with_limits parse 0 source position lim = Ok c"
      "lease t c (?u\<lparr>wk_cache := ()\<rparr>) = (Ok (ReplyHandle i), w')"
    by (auto simp: serve_compile_def plain_engine_def plain_compile_def split: if_splits sum.splits)
  have "slots_used (?u\<lparr>wk_cache := ()\<rparr>)" using used by (simp add: slots_used_def)
  from lease_keeps(5) [OF this, of t c i] c that show thesis by simp
qed

lemma plain_handles:
  fixes parse execute writes
  defines "en \<equiv> plain_engine parse execute writes"
  assumes "slots_used w" "a < b" "b < length (fst (worker_loop en leases turns w))"
    and "tn_received (turns ! a) = Received (OpCompile profile source position lim)"
    and "fst (worker_loop en leases turns w) ! a = Some (Ok (ReplyHandle i))"
    and "\<forall>t \<in> set (drop (Suc a) (take (Suc b) turns)). Release i \<notin> set (tn_controls t @ tn_late t)"
    and "tn_received (turns ! b) = Received (OpEvaluate i sb k)"
    and "fst (worker_loop en leases turns w) ! b = Some r" "r \<noteq> Err Unavailable"
  shows "r = map_sum Expression ReplyValue (direct_evaluation parse execute writes source position lim sb k)"
  using assms(2-)
proof (induction turns arbitrary: w a b)
  case (Cons t turns)
  obtain x w' where run: "worker_turn en leases t w = (x, w')" by (cases "worker_turn en leases t w")
  obtain m where m: "b = Suc m" using Cons.prems(2) by (cases b) auto
  have go: "tn_received t \<noteq> Disconnected" using Cons.prems(3) m run by (auto split: if_splits)
  have used: "slots_used w'" using worker_turn_keeps(1) [OF Cons.prems(1), of en leases t] run by simp
  show ?case
  proof (cases a)
    case 0
    have "x = Some (Ok (ReplyHandle i))" using Cons.prems(5) 0 go run by (simp add: split_beta)
    with run have "worker_turn (plain_engine parse execute writes) leases t w = (Some (Ok (ReplyHandle i)), w')"
      by (simp add: en_def)
    moreover have "tn_received t = Received (OpCompile profile source position lim)" using Cons.prems(4) 0 by simp
    ultimately obtain c where c: "map_of (wk_registry w') i = Some c" "id_slot i \<le> wk_nonce w'"
        "compile_with_limits parse 0 source position lim = Ok c" by (rule issued_registers [OF Cons.prems(1)])
    have "r = map_sum Expression ReplyValue
       (rtry (bindings_with_limits (en_writes en) (sb_context sb) (sb_input sb) (sb_output sb) (sb_value sb) (sb_limits sb))
         (\<lambda>bindings. evaluate (en_writes en) (en_execute en) c bindings k))"
      by (rule registered_evaluates [OF used c(2,1), where j = m and turns = turns])
         (use Cons.prems m 0 go run in \<open>simp_all add: split_beta\<close>)
    then show ?thesis by (simp add: direct_evaluation_def c(3) en_def plain_engine_def)
  next
    case (Suc l)
    with Cons.prems m go run show ?thesis
      by (intro Cons.IH [OF used, of l m]) (simp_all add: split_beta)
  qed
qed simp

lemma forget_reply_simps [simp]:
  "forget_reply (Ok (ReplyHandle i)) = Ok (ReplyHandle i)" "forget_reply (Err e) = Err e"
  "forget_reply r = Ok (ReplyHandle i) \<longleftrightarrow> r = Ok (ReplyHandle i)" "forget_reply r = Err e \<longleftrightarrow> r = Err e"
  by (auto simp: forget_reply_def split: sum.splits reply.splits)

lemma forget_reply_value:
  "forget_reply r = forget_reply (map_sum Expression ReplyValue v) \<Longrightarrow> r = map_sum Expression ReplyValue v"
  by (cases v) (auto simp: forget_reply_def split: sum.splits reply.splits)

text \<open>C5: A handle stands for the source it was issued for.  If the worker answers the compilation of a
  source with a handle, then a later evaluation of that handle, unless the handle was released or the
  worker refuses to work, gives what compiling that very source and evaluating it on the given
  bindings gives, errors included, whatever the worker has compiled, evicted, leased and released in
  between.\<close>

theorem handle_evaluates_its_source:
  assumes "collision_free parse hash"
    and "replies = fst (worker_loop (cached_engine parse hash execute writes) leases turns (start_worker share))"
    and "a < b" "b < length replies"
    and "tn_received (turns ! a) = Received (OpCompile profile source position lim)"
    and "replies ! a = Some (Ok (ReplyHandle i))"
    and "\<forall>t \<in> set (drop (Suc a) (take (Suc b) turns)). Release i \<notin> set (tn_controls t @ tn_late t)"
    and "tn_received (turns ! b) = Received (OpEvaluate i sb k)"
    and "replies ! b = Some r" "r \<noteq> Err Unavailable"
  shows "r = map_sum Expression ReplyValue (direct_evaluation parse execute writes source position lim sb k)"
proof -
  define plain where "plain = fst (worker_loop (plain_engine parse execute writes) leases turns (worker_new ()))"
  have "worker_alike (\<lambda>c _. sound_cache parse hash c) (start_worker share) (worker_new ())"
    using start_worker_sound [OF assms(1), of share] by (simp add: worker_alike_def start_worker_def worker_new_def)
  from pool.worker_loop_agrees [OF this, of execute writes leases turns]
  have same: "map (map_option forget_reply) replies = map (map_option forget_reply) plain"
    by (simp add: assms(2) plain_def)
  then have len: "length plain = length replies" by (metis length_map)
  have nth: "map_option forget_reply (plain ! n) = map_option forget_reply (replies ! n)" if "n < length replies" for n
    using same that len by (metis nth_map)
  have a: "plain ! a = Some (Ok (ReplyHandle i))"
    using nth [of a] assms(3,4,6) by (cases "plain ! a") auto
  obtain r' where r': "plain ! b = Some r'" "forget_reply r = forget_reply r'"
    using nth [of b] assms(4,9) by (cases "plain ! b") auto
  have "r' \<noteq> Err Unavailable" using r'(2) assms(10) by auto
  moreover have "slots_used (worker_new ())" by (simp add: slots_used_def worker_new_def)
  ultimately have "r' = map_sum Expression ReplyValue (direct_evaluation parse execute writes source position lim sb k)"
    using plain_handles [of "worker_new ()" a b parse execute writes leases turns profile source position lim i sb k r']
      assms(3-5,7,8) a r'(1) len by (simp add: plain_def)
  with r'(2) show ?thesis using forget_reply_value by simp
qed

definition execute_example :: cel_execute where
  "execute_example e lim variables =
     (case e of Literal s \<Rightarrow> Ok (if s = ''true'' then CelBool True else CelString s)
      | _ \<Rightarrow> Err OtherExecutionError)"

definition turn_example :: "worker_op \<Rightarrow> turn" where
  "turn_example op =
     \<lparr>tn_controls = [], tn_received = Received op, tn_late = [], tn_withdrawn = False,
      tn_cancelled = (\<lambda>_. False), tn_dropped = False, tn_owner = Some (0, 7), tn_discarded = False\<rparr>"

definition turns_example :: "turn list" where
  "turns_example =
     [turn_example (OpCompile CelWorkflowV2 ''true'' SwitchWhen default_limits),
      turn_example (OpEvaluate \<lparr>id_worker = 0, id_generation = 7, id_slot = 1\<rparr>
        (sr_bindings request_example) KindPredicate)]"

definition replies_example :: "answer_reply option list" where
  "replies_example =
     [Some (Ok (ReplyHandle \<lparr>id_worker = 0, id_generation = 7, id_slot = 1\<rparr>)),
      Some (Ok (ReplyValue (JBool True)))]"

lemma example_collision_free: "collision_free (\<lambda>s. Some (Literal s)) id"
  by (simp add: collision_free_def)

lemma example_replies:
  "fst (worker_loop (cached_engine (\<lambda>s. Some (Literal s)) id execute_example (\<lambda>_. [''{'', ''}''])) 4
     turns_example (start_worker (8, 100000))) = replies_example"
  by code_simp

theorem worker_hides_cache_witness:
  "collision_free (\<lambda>s. Some (Literal s)) id
   \<and> map (map_option forget_reply) replies_example =
     map (map_option forget_reply)
       (fst (worker_loop (plain_engine (\<lambda>s. Some (Literal s)) execute_example (\<lambda>_. [''{'', ''}''])) 4
          turns_example (worker_new ())))"
  using worker_hides_cache [OF example_collision_free, of execute_example "\<lambda>_. [''{'', ''}'']" 4 turns_example
      "(8, 100000)"] example_collision_free
  unfolding example_replies by blast

theorem handle_evaluates_its_source_witness:
  "(Ok (ReplyValue (JBool True)) :: answer_reply) =
     map_sum Expression ReplyValue
       (direct_evaluation (\<lambda>s. Some (Literal s)) execute_example (\<lambda>_. [''{'', ''}'']) ''true'' SwitchWhen default_limits
          (sr_bindings request_example) KindPredicate)"
  by (rule handle_evaluates_its_source [OF example_collision_free example_replies [symmetric], of 0 1])
     (simp_all add: replies_example_def turns_example_def turn_example_def)

section \<open>The budget\<close>

lemma partition_shares:
  assumes "0 < workers"
  shows "(\<Sum>i<workers. partition_share amount workers i) = amount"
proof -
  have "{..<workers} \<inter> {i. i < amount mod workers} = {..<amount mod workers}"
    using mod_less_divisor [OF assms, of amount] by auto
  then have "(\<Sum>i<workers. of_bool (i < amount mod workers)) = amount mod workers"
    by (simp add: sum_of_bool_eq)
  then show ?thesis by (simp add: partition_share_def sum.distrib)
qed

lemma cached_step_budget:
  assumes "budget_cache parse hash entries bytes c" "ev_compile env = cache_compile parse hash held CelWorkflowV2"
  shows "budget_cache parse hash entries bytes (snd (step_run env request c))"
  using bounded.step_run_agrees(2) [OF assms(2), of c c entries bytes request] assms(1) by blast

lemma collect_budget:
  "budget_cache parse hash entries bytes c \<Longrightarrow> budget_cache parse hash entries bytes (collect held (fst c), n)"
  by (simp add: budget_cache_def collect_bounded)

lemma worker_turn_budget:
  fixes parse hash execute writes
  defines "en \<equiv> cached_engine parse hash execute writes"
  assumes "budget_cache parse hash entries bytes (wk_cache w)"
  shows "budget_cache parse hash entries bytes (wk_cache (snd (worker_turn en leases t w)))"
proof -
  have compile: "budget_cache parse hash entries bytes (snd (en_compile en held profile source position lim c))"
    if "budget_cache parse hash entries bytes c" for held profile source position lim c
    using cache_compile_budget [OF that] by (simp add: en_def cached_engine_def)
  have collect: "budget_cache parse hash entries bytes (en_collect en held c)"
    if "budget_cache parse hash entries bytes c" for held c
    using collect_budget [OF that] by (simp add: en_def cached_engine_def)
  have drain: "budget_cache parse hash entries bytes (wk_cache (drain en cs v))"
    if "budget_cache parse hash entries bytes (wk_cache v)" for cs v
    using that collect by (simp add: drain_def Let_def handle_controls_cache)
  have lease: "wk_cache (snd (lease t c v)) = wk_cache v" for c v
    by (simp add: lease_def Let_def split: option.split)
  have "budget_cache parse hash entries bytes (wk_cache (snd (serve_op en leases t op v)))"
    if v: "budget_cache parse hash entries bytes (wk_cache v)" for op v
  proof (cases op)
    case (OpStep request)
    then show ?thesis
      using cached_step_budget [OF v, of _ "registry_holds v" request]
      by (simp add: serve_op_def serve_step_def split_beta en_def cached_engine_def)
  next
    case (OpCompile profile source position lim)
    then show ?thesis
      using v compile [OF v, of "registry_holds v" profile source position lim] collect
      by (auto simp: serve_op_def serve_compile_def lease split: prod.split sum.split)
  qed (use v in \<open>simp_all add: serve_op_def split_beta\<close>)
  with drain assms(2) show ?thesis by (auto simp: worker_turn_def Let_def split_beta split: received.split)
qed

lemma worker_loop_bounded:
  assumes "budget_cache parse hash entries bytes (wk_cache w)" "slots_used w" "length (wk_registry w) \<le> leases"
  shows "budget_cache parse hash entries bytes
      (wk_cache (snd (worker_loop (cached_engine parse hash execute writes) leases turns w)))
    \<and> length (wk_registry (snd (worker_loop (cached_engine parse hash execute writes) leases turns w))) \<le> leases"
  using assms
proof (induction turns arbitrary: w)
  case (Cons t turns)
  let ?en = "cached_engine parse hash execute writes"
  note now = worker_turn_budget [OF Cons.prems(1), of execute writes leases t]
    worker_turn_keeps(1,4) [OF Cons.prems(2), where en = ?en and leases = leases and t = t]
  from Cons.IH [OF now(1,2)] now Cons.prems(3) show ?case by (simp add: split_beta)
qed simp

definition worker_after ::
  "(string \<Rightarrow> cel_expr option) \<Rightarrow> (string \<Rightarrow> string) \<Rightarrow> cel_execute \<Rightarrow> (json \<Rightarrow> string list) \<Rightarrow> worker_config
     \<Rightarrow> nat \<times> nat \<Rightarrow> turn list \<Rightarrow> cache_state worker" where
  "worker_after parse hash execute writes config share turns =
     snd (worker_loop (cached_engine parse hash execute writes) (wc_leases_per_worker config) turns
       (start_worker share))"

lemma worker_after_bounded:
  "cache_len (fst (wk_cache (worker_after parse hash execute writes config share turns))) \<le> fst share"
  "cc_bytes (fst (wk_cache (worker_after parse hash execute writes config share turns))) \<le> snd share"
  "length (wk_registry (worker_after parse hash execute writes config share turns)) \<le> wc_leases_per_worker config"
proof -
  have start: "budget_cache parse hash (min (fst share) MAX_ENTRIES) (min (snd share) MAX_BYTES)
      (wk_cache (start_worker share))"
    "slots_used (start_worker share)" "length (wk_registry (start_worker share)) \<le> wc_leases_per_worker config"
    by (simp_all add: start_worker_def worker_new_def budget_cache_def with_budget_def cache_bounded_def
        cache_len_def slots_used_def)
  from worker_loop_bounded [OF start, of execute writes turns] show
    "cache_len (fst (wk_cache (worker_after parse hash execute writes config share turns))) \<le> fst share"
    "cc_bytes (fst (wk_cache (worker_after parse hash execute writes config share turns))) \<le> snd share"
    "length (wk_registry (worker_after parse hash execute writes config share turns)) \<le> wc_leases_per_worker config"
    unfolding worker_after_def budget_cache_def cache_bounded_def by linarith+
qed

text \<open>C27: The pools of a process stay within one ceiling.  An admitted pool gets one share of the cache
  per worker; however the workers of the pool then run, their caches together hold at most the
  entries and bytes of the configuration, those in use by a lease included, each registry holds at
  most the configured leases, and all pools alive together reserve at most 128 entries and 16 MiB.\<close>

theorem pool_within_budget:
  assumes "start config pools = (Ok (generation, shares), pools')"
  shows "length shares = wc_workers config
    \<and> (\<Sum>i<length shares. cache_len (fst (wk_cache
          (worker_after parse hash execute writes config (shares ! i) (turns i))))) \<le> wc_cache_entries config
    \<and> (\<Sum>i<length shares. cc_bytes (fst (wk_cache
          (worker_after parse hash execute writes config (shares ! i) (turns i))))) \<le> wc_cache_bytes config
    \<and> (\<forall>i<length shares. length (wk_registry
          (worker_after parse hash execute writes config (shares ! i) (turns i))) \<le> wc_leases_per_worker config)
    \<and> po_entries pools' = po_entries pools + wc_cache_entries config \<and> po_entries pools' \<le> 128
    \<and> po_bytes pools' = po_bytes pools + wc_cache_bytes config \<and> po_bytes pools' \<le> 16777216"
proof -
  let ?after = "\<lambda>i. worker_after parse hash execute writes config (shares ! i) (turns i)"
  from assms have pool: "\<not> config_refused config" "shares = partitions config"
    "po_entries pools' = po_entries pools + wc_cache_entries config" "po_entries pools' \<le> 128"
    "po_bytes pools' = po_bytes pools + wc_cache_bytes config" "po_bytes pools' \<le> 16777216"
    by (auto simp: start_def split: if_splits option.splits)
  then have workers: "0 < wc_workers config" "length shares = wc_workers config"
    by (auto simp: config_refused_def partitions_def)
  have share: "fst (shares ! i) = partition_share (wc_cache_entries config) (wc_workers config) i"
    "snd (shares ! i) = partition_share (wc_cache_bytes config) (wc_workers config) i" if "i < length shares" for i
    using that pool(2) by (simp_all add: partitions_def)
  have "(\<Sum>i<length shares. cache_len (fst (wk_cache (?after i)))) \<le> (\<Sum>i<length shares. fst (shares ! i))"
    "(\<Sum>i<length shares. cc_bytes (fst (wk_cache (?after i)))) \<le> (\<Sum>i<length shares. snd (shares ! i))"
    by (auto intro!: sum_mono worker_after_bounded)
  moreover have "(\<Sum>i<length shares. fst (shares ! i)) = wc_cache_entries config"
    "(\<Sum>i<length shares. snd (shares ! i)) = wc_cache_bytes config"
    using partition_shares [OF workers(1)] share workers(2) by simp_all
  ultimately show ?thesis using pool(3-6) workers(2) worker_after_bounded(3) by simp
qed

theorem pool_within_budget_witness:
  "start default_worker_config \<lparr>po_entries = 0, po_bytes = 0, po_generation = 1\<rparr> =
     (Ok (1, [(64, 8388608), (64, 8388608)]), \<lparr>po_entries = 128, po_bytes = 16777216, po_generation = 2\<rparr>)
   \<and> (\<Sum>i<2. cache_len (fst (wk_cache (worker_after (\<lambda>s. Some (Literal s)) id execute_example (\<lambda>_. [])
          default_worker_config ([(64, 8388608), (64, 8388608)] ! i) turns_example)))) \<le> 128"
proof -
  have run: "start default_worker_config \<lparr>po_entries = 0, po_bytes = 0, po_generation = 1\<rparr> =
     (Ok (1, [(64, 8388608), (64, 8388608)]), \<lparr>po_entries = 128, po_bytes = 16777216, po_generation = 2\<rparr>)"
    by (simp add: start_def config_refused_def default_worker_config_def COMPILATION_STACK_BYTES_def
        stack_reservation_def checked_mul_def checked_add_def u64_max_def partitions_def partition_share_def
        upt_conv_Cons)
  from run pool_within_budget [OF run, of "\<lambda>s. Some (Literal s)" id execute_example "\<lambda>_. []" "\<lambda>_. turns_example"]
  show ?thesis by (simp add: default_worker_config_def numeral_2_eq_2)
qed

end
