(* ===== verification/Expr_Functions.thy ===== *)
theory Expr_Functions
  imports Expr_Json Expr_Uri
begin

text \<open>
  The functions an expression may call, \<open>crates/workflow-expression/src/functions.rs\<close>.  A string is
  its UTF-8 bytes and a character is a lead byte with its continuation bytes.  What the source takes
  from the engine and from floating point is an argument: the equality of values and of keys, and
  the operations on the display forms of floats.
\<close>

section \<open>UTF-8\<close>

definition byte_at :: "string \<Rightarrow> nat \<Rightarrow> nat" where
  "byte_at s k = (if k < length s then of_char (s ! k) else 0)"

definition in_range :: "nat \<Rightarrow> nat \<Rightarrow> nat \<Rightarrow> bool" where
  "in_range lo hi b \<longleftrightarrow> lo \<le> b \<and> b \<le> hi"

abbreviation continuation :: "nat \<Rightarrow> bool" where
  "continuation \<equiv> in_range 128 191"

datatype utf8_chunk = Scalar nat | Broken nat

definition second_of_three :: "nat \<Rightarrow> nat \<Rightarrow> bool" where
  "second_of_three b0 b1 \<longleftrightarrow>
     b0 = 224 \<and> in_range 160 191 b1 \<or> in_range 225 236 b0 \<and> continuation b1
     \<or> b0 = 237 \<and> in_range 128 159 b1 \<or> in_range 238 239 b0 \<and> continuation b1"

definition second_of_four :: "nat \<Rightarrow> nat \<Rightarrow> bool" where
  "second_of_four b0 b1 \<longleftrightarrow>
     b0 = 240 \<and> in_range 144 191 b1 \<or> in_range 241 243 b0 \<and> continuation b1
     \<or> b0 = 244 \<and> in_range 128 143 b1"

definition utf8_next :: "string \<Rightarrow> utf8_chunk" where
  "utf8_next s =
     (let b0 = byte_at s 0; b1 = byte_at s 1 in
      if b0 < 128 then Scalar 1
      else if in_range 194 223 b0 then (if continuation b1 then Scalar 2 else Broken 1)
      else if in_range 224 239 b0 then
        (if \<not> second_of_three b0 b1 then Broken 1
         else if \<not> continuation (byte_at s 2) then Broken 2 else Scalar 3)
      else if in_range 240 244 b0 then
        (if \<not> second_of_four b0 b1 then Broken 1
         else if \<not> continuation (byte_at s 2) then Broken 2
         else if \<not> continuation (byte_at s 3) then Broken 3 else Scalar 4)
      else Broken 1)"

lemma utf8_next_pos: "utf8_next s = Scalar n \<Longrightarrow> 0 < n" "utf8_next s = Broken n \<Longrightarrow> 0 < n"
  by (auto simp: utf8_next_def Let_def split: if_splits)

function utf8_valid :: "string \<Rightarrow> bool" where
  "utf8_valid s =
     (if s = [] then True
      else case utf8_next s of Scalar n \<Rightarrow> utf8_valid (drop n s) | Broken _ \<Rightarrow> False)"
  by pat_completeness auto
termination
  by (relation "measure length") (auto dest: utf8_next_pos)

declare utf8_valid.simps [simp del]

text \<open>\<open>String::from_utf8_lossy\<close>: every broken chunk becomes the replacement character.\<close>

function utf8_lossy :: "string \<Rightarrow> string" where
  "utf8_lossy s =
     (if s = [] then []
      else
        case utf8_next s of
          Scalar n \<Rightarrow> take n s @ utf8_lossy (drop n s)
        | Broken n \<Rightarrow> [CHR 0xEF, CHR 0xBF, CHR 0xBD] @ utf8_lossy (drop n s))"
  by pat_completeness auto
termination
  by (relation "measure length") (auto dest: utf8_next_pos)

declare utf8_lossy.simps [simp del]

definition is_lead :: "char \<Rightarrow> bool" where
  "is_lead c \<longleftrightarrow> \<not> continuation (of_char c)"

function utf8_chars :: "string \<Rightarrow> string list" where
  "utf8_chars [] = []"
| "utf8_chars (c # cs) =
     (c # takeWhile (\<lambda>x. \<not> is_lead x) cs) # utf8_chars (dropWhile (\<lambda>x. \<not> is_lead x) cs)"
  by pat_completeness auto
termination
  by (relation "measure length") (auto simp: less_Suc_eq_le length_dropWhile_le)

section \<open>Arguments\<close>

record engine_ops =
  eo_value_eq :: "cel_value \<Rightarrow> cel_value \<Rightarrow> bool"
  eo_key_eq :: "cel_key \<Rightarrow> cel_key \<Rightarrow> bool"
  eo_at_least :: "string \<Rightarrow> int \<Rightarrow> bool"
  eo_below :: "string \<Rightarrow> int \<Rightarrow> bool"
  eo_trunc :: "string \<Rightarrow> int"
  eo_of_int :: "int \<Rightarrow> string option"
  eo_parse_number :: "string \<Rightarrow> string option option"
  eo_show :: "string option \<Rightarrow> string"

type_synonym function_result = "(execution_error, cel_value) result"

definition failure :: "execution_error" where
  "failure = FunctionError ''EXPRESSION_EVALUATION''"

definition limit_failure :: "execution_error" where
  "limit_failure = FunctionError ''EXPRESSION_LIMIT''"

definition string_arg :: "cel_value \<Rightarrow> (execution_error, string) result" where
  "string_arg v = (case v of CelString s \<Rightarrow> Ok s | _ \<Rightarrow> Err failure)"

definition index_arg :: "cel_value \<Rightarrow> (execution_error, nat) result" where
  "index_arg v = (case v of CelInt i \<Rightarrow> if 0 \<le> i then Ok (nat i) else Err failure | _ \<Rightarrow> Err failure)"

definition integer_syntax :: "string \<Rightarrow> bool \<Rightarrow> bool" where
  "integer_syntax s signed =
     (let s = (case s of c # cs \<Rightarrow> if signed \<and> c = CHR ''-'' then cs else s | [] \<Rightarrow> [])
      in s \<noteq> [] \<and> list_all (\<lambda>c. digit_val c \<noteq> None) s)"

definition parse_i64 :: "string \<Rightarrow> int option" where
  "parse_i64 s =
     (case s of
        c # cs \<Rightarrow>
          if c = CHR ''-'' then map_option (\<lambda>n. - int n) (parse_uint (2 ^ 63) cs)
          else map_option int (parse_uint (2 ^ 63 - 1) s)
      | [] \<Rightarrow> None)"

section \<open>Conversions\<close>

definition checked_int :: "engine_ops \<Rightarrow> cel_value \<Rightarrow> function_result" where
  "checked_int ops v =
     (case v of
        CelInt i \<Rightarrow> Ok (CelInt i)
      | CelUInt n \<Rightarrow> if n < 2 ^ 63 then Ok (CelInt (int n)) else Err failure
      | CelFloat (Some f) \<Rightarrow>
          if eo_at_least ops f (- (2 ^ 63)) \<and> eo_below ops f (2 ^ 63) then Ok (CelInt (eo_trunc ops f))
          else Err failure
      | CelString s \<Rightarrow>
          if integer_syntax s True then rtry (ok_or failure (parse_i64 s)) (\<lambda>i. Ok (CelInt i)) else Err failure
      | _ \<Rightarrow> Err failure)"

definition checked_uint :: "engine_ops \<Rightarrow> cel_value \<Rightarrow> function_result" where
  "checked_uint ops v =
     (case v of
        CelUInt n \<Rightarrow> Ok (CelUInt n)
      | CelInt i \<Rightarrow> if 0 \<le> i then Ok (CelUInt (nat i)) else Err failure
      | CelFloat (Some f) \<Rightarrow>
          if eo_at_least ops f 0 \<and> eo_below ops f (2 ^ 64) then Ok (CelUInt (nat (eo_trunc ops f)))
          else Err failure
      | CelString s \<Rightarrow>
          if integer_syntax s False
          then rtry (ok_or failure (parse_uint u64_max s)) (\<lambda>n. Ok (CelUInt n)) else Err failure
      | _ \<Rightarrow> Err failure)"

definition checked_double :: "engine_ops \<Rightarrow> cel_value \<Rightarrow> function_result" where
  "checked_double ops v =
     rtry
       (case v of
          CelInt i \<Rightarrow> Ok (eo_of_int ops i)
        | CelUInt n \<Rightarrow> Ok (eo_of_int ops (int n))
        | CelFloat f \<Rightarrow> Ok f
        | CelString s \<Rightarrow>
            if trim s \<noteq> s then Err failure else ok_or failure (eo_parse_number ops s)
        | _ \<Rightarrow> Err failure)
       (\<lambda>f. if f = None then Err failure else Ok (CelFloat f))"

definition show_int :: "int \<Rightarrow> string" where
  "show_int i = (if i < 0 then CHR ''-'' # show_nat (nat (- i)) else show_nat (nat i))"

definition fn_size :: "cel_value \<Rightarrow> function_result" where
  "fn_size v =
     rtry
       (case v of
          CelString s \<Rightarrow> Ok (length (utf8_chars s))
        | CelBytes b \<Rightarrow> Ok (length b)
        | CelList vs \<Rightarrow> Ok (length vs)
        | CelMap kvs \<Rightarrow> Ok (length kvs)
        | _ \<Rightarrow> Err failure)
       (\<lambda>n. if n < 2 ^ 63 then Ok (CelInt (int n)) else Err failure)"

definition fn_string :: "engine_ops \<Rightarrow> cel_value \<Rightarrow> function_result" where
  "fn_string ops v =
     (case v of
        CelString s \<Rightarrow> Ok (CelString s)
      | CelInt i \<Rightarrow> Ok (CelString (show_int i))
      | CelUInt n \<Rightarrow> Ok (CelString (show_nat n))
      | CelFloat f \<Rightarrow> Ok (CelString (eo_show ops f))
      | CelBytes b \<Rightarrow> Ok (CelString (utf8_lossy b))
      | _ \<Rightarrow> Err failure)"

definition fn_bytes :: "cel_value \<Rightarrow> function_result" where
  "fn_bytes v =
     (case v of CelString s \<Rightarrow> Ok (CelBytes s) | CelBytes b \<Rightarrow> Ok (CelBytes b) | _ \<Rightarrow> Err failure)"

section \<open>Strings\<close>

definition needle_key :: "cel_value \<Rightarrow> (execution_error, cel_key) result" where
  "needle_key v =
     (case v of
        CelString s \<Rightarrow> Ok (KeyString s)
      | CelInt i \<Rightarrow> Ok (KeyInt i)
      | CelUInt n \<Rightarrow> Ok (KeyUint n)
      | CelBool b \<Rightarrow> Ok (KeyBool b)
      | _ \<Rightarrow> Err failure)"

definition fn_test :: "engine_ops \<Rightarrow> string \<Rightarrow> cel_value list \<Rightarrow> function_result" where
  "fn_test ops name args =
     (case args of
        [v, needle] \<Rightarrow>
          (case (name = ''contains'', v, needle) of
             (True, CelList vs, _) \<Rightarrow> Ok (CelBool (list_ex (\<lambda>x. eo_value_eq ops x needle) vs))
           | (True, CelMap kvs, _) \<Rightarrow>
               rtry (needle_key needle) (\<lambda>key. Ok (CelBool (list_ex (\<lambda>(k, _). eo_key_eq ops k key) kvs)))
           | (_, CelString s, CelString n) \<Rightarrow>
               Ok (CelBool
                 (if name = ''contains'' then contains_str s n
                  else if name = ''startsWith'' then starts_with s n else suffix n s))
           | _ \<Rightarrow> Err failure)
      | _ \<Rightarrow> Err failure)"

text \<open>\<open>str::splitn\<close> with a separator that is not empty.\<close>

function splitn :: "nat \<Rightarrow> string \<Rightarrow> string \<Rightarrow> string list" where
  "splitn n sep s =
     (if n = 0 then []
      else if n = 1 \<or> sep = [] then [s]
      else
        case find_str sep s of
          None \<Rightarrow> [s]
        | Some i \<Rightarrow> take i s # splitn (n - 1) sep (drop (i + length sep) s))"
  by pat_completeness auto
termination
  by (relation "measure fst") auto

declare splitn.simps [simp del]

fun char_parts :: "nat \<Rightarrow> string list \<Rightarrow> string list" where
  "char_parts n [] = []"
| "char_parts n (c # cs) = (if n = 1 then [concat (c # cs)] else c # char_parts (n - 1) cs)"

fun add_parts :: "limits \<Rightarrow> cel_value list \<Rightarrow> string list \<Rightarrow> (execution_error, cel_value list) result" where
  "add_parts lim out [] = Ok out"
| "add_parts lim out (p # ps) =
     (if output_nodes lim - 1 \<le> length out then Err limit_failure else add_parts lim (out @ [CelString p]) ps)"

definition split_count :: "cel_value list \<Rightarrow> (execution_error, nat) result" where
  "split_count rest =
     (case rest of
        [] \<Rightarrow> Ok u64_max
      | v # _ \<Rightarrow> (case v of CelInt i \<Rightarrow> if i < 0 then Ok u64_max else index_arg v | _ \<Rightarrow> index_arg v))"

definition split_parts :: "nat \<Rightarrow> string \<Rightarrow> string \<Rightarrow> string list" where
  "split_parts n sep s =
     (if n = 0 then [] else if sep = [] then char_parts n (utf8_chars s) else splitn n sep s)"

definition fn_split :: "limits \<Rightarrow> cel_value list \<Rightarrow> function_result" where
  "fn_split lim args =
     (case args of
        v # w # rest \<Rightarrow>
          if length rest > 1 then Err failure
          else
            rtry (string_arg v) (\<lambda>s.
            rtry (string_arg w) (\<lambda>sep.
            rtry (split_count rest) (\<lambda>n.
            rtry (add_parts lim [] (split_parts n sep s)) (\<lambda>out. Ok (CelList out)))))
      | _ \<Rightarrow> Err failure)"

definition optional_index :: "cel_value list \<Rightarrow> nat \<Rightarrow> (execution_error, nat) result" where
  "optional_index rest otherwise = (case rest of [] \<Rightarrow> Ok otherwise | v # _ \<Rightarrow> index_arg v)"

definition fn_substring :: "cel_value list \<Rightarrow> function_result" where
  "fn_substring args =
     (case args of
        v # w # rest \<Rightarrow>
          if length rest > 1 then Err failure
          else
            rtry (string_arg v) (\<lambda>s.
            rtry (index_arg w) (\<lambda>start.
            rtry (optional_index rest (length (utf8_chars s))) (\<lambda>stop.
            if start > stop \<or> start > length (utf8_chars s) \<or> stop > length (utf8_chars s) then Err failure
            else Ok (CelString (concat (take (stop - start) (drop start (utf8_chars s))))))))
      | _ \<Rightarrow> Err failure)"

fun joined_bytes :: "nat \<Rightarrow> cel_value list \<Rightarrow> (execution_error, nat) result" where
  "joined_bytes bytes [] = Ok bytes"
| "joined_bytes bytes (v # vs) = rtry (string_arg v) (\<lambda>s. joined_bytes (sat_add bytes (length s)) vs)"

fun intercalate :: "string \<Rightarrow> string list \<Rightarrow> string" where
  "intercalate sep [] = []"
| "intercalate sep (s # ss) = s @ concat (map (\<lambda>t. sep @ t) ss)"

definition fn_join :: "limits \<Rightarrow> cel_value list \<Rightarrow> function_result" where
  "fn_join lim args =
     (case args of
        CelList vs # rest \<Rightarrow>
          if length rest > 1 then Err failure
          else
            rtry (case rest of [] \<Rightarrow> Ok [] | w # _ \<Rightarrow> string_arg w) (\<lambda>sep.
            rtry (joined_bytes (sat_mul (length sep) (length vs - 1)) vs) (\<lambda>bytes.
            if bytes > output_bytes lim then Err limit_failure
            else rtry (try_map string_arg vs) (\<lambda>ss. Ok (CelString (intercalate sep ss)))))
      | _ \<Rightarrow> Err failure)"

definition fn_index_of :: "cel_value list \<Rightarrow> function_result" where
  "fn_index_of args =
     (case args of
        v # w # rest \<Rightarrow>
          if length rest > 1 then Err failure
          else
            rtry (string_arg v) (\<lambda>s.
            rtry (string_arg w) (\<lambda>needle.
            rtry (optional_index rest 0) (\<lambda>start.
            if start > length (utf8_chars s) then Err failure
            else
              let byte = length (concat (take start (utf8_chars s))) in
              Ok (CelInt
                (case find_str needle (drop byte s) of
                   None \<Rightarrow> -1
                 | Some i \<Rightarrow> int (length (utf8_chars (take (byte + i) s))))))))
      | _ \<Rightarrow> Err failure)"

definition fn_json_encode :: "(json \<Rightarrow> string list) \<Rightarrow> limits \<Rightarrow> cel_value \<Rightarrow> function_result" where
  "fn_json_encode writes lim v =
     (case rtry (to_json lim 0 v 0) (\<lambda>(json, _). encode writes json (output_bytes lim)) of
        Err e \<Rightarrow> Err (FunctionError (category_code (ee_category e)))
      | Ok bytes \<Rightarrow> if utf8_valid bytes then Ok (CelString bytes) else Err failure)"

section \<open>Dispatch\<close>

definition unary_functions :: "string list" where
  "unary_functions = [''size'', ''int'', ''uint'', ''double'', ''string'', ''bytes'', ''jsonEncode'']"

definition dispatch ::
  "engine_ops \<Rightarrow> (json \<Rightarrow> string list) \<Rightarrow> limits \<Rightarrow> string \<Rightarrow> cel_value list \<Rightarrow> function_result" where
  "dispatch ops writes lim name args =
     (case args of
        [] \<Rightarrow> Err failure
      | v # rest \<Rightarrow>
          if name \<in> set unary_functions \<and> rest \<noteq> [] then Err failure
          else if name = ''int'' then checked_int ops v
          else if name = ''uint'' then checked_uint ops v
          else if name = ''double'' then checked_double ops v
          else if name = ''size'' then fn_size v
          else if name = ''string'' then fn_string ops v
          else if name = ''bytes'' then fn_bytes v
          else if name \<in> {''contains'', ''startsWith'', ''endsWith''} then fn_test ops name args
          else if name = ''split'' then fn_split lim args
          else if name = ''substring'' then fn_substring args
          else if name = ''join'' then fn_join lim args
          else if name = ''indexOf'' then fn_index_of args
          else if name = ''jsonEncode'' then fn_json_encode writes lim v
          else Err failure)"

definition CONTEXT_FUNCTIONS :: "string list" where
  "CONTEXT_FUNCTIONS =
     [''size'', ''contains'', ''startsWith'', ''endsWith'', ''int'', ''uint'', ''double'', ''string'', ''bytes'',
      ''split'', ''substring'', ''join'', ''indexOf'', ''jsonEncode'']"

lemma context_functions_allowed: "set CONTEXT_FUNCTIONS \<subseteq> set FUNCTIONS"
  by (simp add: CONTEXT_FUNCTIONS_def FUNCTIONS_def)

section \<open>Characters\<close>

lemma concat_utf8_chars [simp]: "concat (utf8_chars s) = s"
  by (induction s rule: utf8_chars.induct) simp_all

lemma utf8_chars_nonempty: "c \<in> set (utf8_chars s) \<Longrightarrow> c \<noteq> []"
  by (induction s rule: utf8_chars.induct) auto

lemma utf8_chars_append:
  "ys = [] \<or> is_lead (hd ys) \<Longrightarrow> utf8_chars (xs @ ys) = utf8_chars xs @ utf8_chars ys"
proof (induction xs rule: utf8_chars.induct)
  case (2 c cs)
  show ?case
  proof (cases "\<exists>x \<in> set cs. is_lead x")
    case True
    then obtain x where "x \<in> set cs" "is_lead x" by blast
    then have "takeWhile (\<lambda>x. \<not> is_lead x) (cs @ ys) = takeWhile (\<lambda>x. \<not> is_lead x) cs"
      "dropWhile (\<lambda>x. \<not> is_lead x) (cs @ ys) = dropWhile (\<lambda>x. \<not> is_lead x) cs @ ys"
      by (metis takeWhile_append1) (metis \<open>is_lead x\<close> \<open>x \<in> set cs\<close> dropWhile_append1)
    with 2 show ?thesis by simp
  next
    case False
    then have all: "takeWhile (\<lambda>x. \<not> is_lead x) cs = cs" "dropWhile (\<lambda>x. \<not> is_lead x) cs = []"
      by (simp_all add: takeWhile_eq_all_conv dropWhile_eq_Nil_conv)
    have rest: "takeWhile (\<lambda>x. \<not> is_lead x) (cs @ ys) = cs" "dropWhile (\<lambda>x. \<not> is_lead x) (cs @ ys) = ys"
      using False 2(2) by (cases ys; simp add: takeWhile_append2 dropWhile_append2)+
    show ?thesis by (simp only: append_Cons append_Nil utf8_chars.simps all rest)
  qed
qed simp

lemma utf8_valid_lead: "utf8_valid s \<Longrightarrow> s \<noteq> [] \<Longrightarrow> is_lead (hd s)"
  by (subst (asm) utf8_valid.simps)
     (auto simp: utf8_next_def byte_at_def in_range_def is_lead_def hd_conv_nth Let_def split: if_splits)

text \<open>The offset of a character.\<close>

definition offset :: "string \<Rightarrow> nat \<Rightarrow> nat" where
  "offset s k = length (concat (take k (utf8_chars s)))"

lemma offset_split:
  "take (offset s k) s = concat (take k (utf8_chars s))" "drop (offset s k) s = concat (drop k (utf8_chars s))"
proof -
  have "s = concat (take k (utf8_chars s)) @ concat (drop k (utf8_chars s))"
    by (metis append_take_drop_id concat_append concat_utf8_chars)
  then show "take (offset s k) s = concat (take k (utf8_chars s))"
    "drop (offset s k) s = concat (drop k (utf8_chars s))"
    by (metis append_eq_conv_conj offset_def)+
qed

lemma offset_mono: "j \<le> k \<Longrightarrow> offset s j \<le> offset s k"
  by (metis concat_append le_add_diff_inverse length_append offset_def take_add le_add1)

lemma offset_strict:
  assumes "j < k" "k \<le> length (utf8_chars s)"
  shows "offset s j < offset s k"
proof -
  have "take (Suc j) (utf8_chars s) = take j (utf8_chars s) @ [utf8_chars s ! j]"
    using assms by (simp add: take_Suc_conv_app_nth)
  moreover have "utf8_chars s ! j \<noteq> []"
    using assms utf8_chars_nonempty [of "utf8_chars s ! j" s] by simp
  ultimately have "offset s j < offset s (Suc j)" by (simp add: offset_def)
  also have "\<dots> \<le> offset s k" using assms by (intro offset_mono) simp
  finally show ?thesis .
qed

lemma dropWhile_takeWhile_Nil: "dropWhile P (takeWhile P xs) = []"
  by (auto dest: set_takeWhileD)

lemma utf8_chars_offset: "utf8_chars (take (offset s a) s) = take a (utf8_chars s)"
proof (induction s arbitrary: a rule: utf8_chars.induct)
  case (2 c cs)
  let ?t = "takeWhile (\<lambda>x. \<not> is_lead x) cs" and ?d = "dropWhile (\<lambda>x. \<not> is_lead x) cs"
  show ?case
  proof (cases a)
    case (Suc m)
    have "take (offset (c # cs) a) (c # cs) = (c # ?t) @ take (offset ?d m) ?d"
      using Suc by (simp add: offset_def) (metis append_eq_conv_conj takeWhile_dropWhile_id take_add length_append take_append diff_add_inverse le_add1 take_all)
    moreover have "take (offset ?d m) ?d = [] \<or> is_lead (hd (take (offset ?d m) ?d))"
      by (metis hd_dropWhile hd_take neq0_conv take_eq_Nil)
    ultimately show ?thesis
      using utf8_chars_append [of "take (offset ?d m) ?d" "c # ?t"] 2 Suc by (simp add: dropWhile_takeWhile_Nil)
  qed (simp add: offset_def)
qed (simp add: offset_def)

lemma offset_boundary:
  assumes "i \<le> length s" "i = length s \<or> is_lead (s ! i)"
  shows "offset s (length (utf8_chars (take i s))) = i" "length (utf8_chars (take i s)) \<le> length (utf8_chars s)"
proof -
  have "drop i s = [] \<or> is_lead (hd (drop i s))" using assms by (cases "i = length s") (auto simp: hd_drop_conv_nth)
  from utf8_chars_append [OF this, of "take i s"]
  have "utf8_chars s = utf8_chars (take i s) @ utf8_chars (drop i s)" by simp
  then have "take (length (utf8_chars (take i s))) (utf8_chars s) = utf8_chars (take i s)"
    "length (utf8_chars (take i s)) \<le> length (utf8_chars s)"
    by (metis append_eq_conv_conj, metis le_add1 length_append)
  with assms(1) show "offset s (length (utf8_chars (take i s))) = i"
    "length (utf8_chars (take i s)) \<le> length (utf8_chars s)"
    by (simp_all add: offset_def)
qed

section \<open>Search\<close>

lemma find_str_first:
  "find_str p s = Some i \<Longrightarrow> prefix p (drop i s) \<and> i \<le> length s \<and> (\<forall>j<i. \<not> prefix p (drop j s))"
proof (induction s arbitrary: i)
  case (Cons c cs)
  show ?case
  proof (cases "prefix p (c # cs)")
    case False
    with Cons.prems obtain m where m: "i = Suc m" "find_str p cs = Some m" by auto
    with Cons.IH [OF m(2)] False show ?thesis by (auto simp: less_Suc_eq_0_disj)
  qed (use Cons.prems in auto)
qed (auto split: if_splits)

lemma find_str_none: "find_str p s = None \<Longrightarrow> \<not> prefix p (drop j s)"
proof (induction s arbitrary: j)
  case (Cons c cs)
  then show ?case by (cases j) (auto split: if_splits)
qed (auto split: if_splits)

definition occurs_at ::
  "engine_ops \<Rightarrow> (json \<Rightarrow> string list) \<Rightarrow> limits \<Rightarrow> string \<Rightarrow> string \<Rightarrow> int \<Rightarrow> bool" where
  "occurs_at ops writes lim s needle j =
     (case dispatch ops writes lim ''substring'' [CelString s, CelInt j] of
        Err _ \<Rightarrow> False
      | Ok t \<Rightarrow> dispatch ops writes lim ''startsWith'' [t, CelString needle] = Ok (CelBool True))"

lemma occurs_at_iff:
  "occurs_at ops writes lim s needle j \<longleftrightarrow>
     0 \<le> j \<and> nat j \<le> length (utf8_chars s) \<and> prefix needle (drop (offset s (nat j)) s)"
  by (auto simp: occurs_at_def dispatch_def unary_functions_def fn_substring_def fn_test_def string_arg_def
      index_arg_def optional_index_def offset_split)

text \<open>C24: The search for a substring finds the first occurrence, counted in characters.  From any
  character position of a string, \<open>indexOf\<close> either answers with -1, and then \<open>substring\<close> gives at no
  later position a string that starts with the needle, or with the first such position.\<close>

theorem index_of_first:
  assumes "utf8_valid needle" and "a \<le> length (utf8_chars s)"
  shows "\<exists>k. dispatch ops writes lim ''indexOf'' [CelString s, CelString needle, CelInt (int a)] = Ok (CelInt k)
     \<and> (k = -1 \<and> (\<forall>j. int a \<le> j \<longrightarrow> \<not> occurs_at ops writes lim s needle j)
        \<or> int a \<le> k \<and> occurs_at ops writes lim s needle k
          \<and> (\<forall>j. int a \<le> j \<and> j < k \<longrightarrow> \<not> occurs_at ops writes lim s needle j))"
proof -
  let ?found = "find_str needle (drop (offset s a) s)"
  have run: "dispatch ops writes lim ''indexOf'' [CelString s, CelString needle, CelInt (int a)] =
      Ok (CelInt (case ?found of None \<Rightarrow> -1 | Some i \<Rightarrow> int (length (utf8_chars (take (offset s a + i) s)))))"
    using assms(2) by (simp add: dispatch_def unary_functions_def fn_index_of_def string_arg_def optional_index_def
        index_arg_def offset_def [symmetric] Let_def)
  have skip: "drop (offset s (nat j)) s = drop (offset s (nat j) - offset s a) (drop (offset s a) s)"
    if "int a \<le> j" for j using offset_mono [of a "nat j" s] that by simp
  show ?thesis
  proof (cases ?found)
    case None
    have "\<not> prefix needle (drop (offset s (nat j)) s)" if "int a \<le> j" for j
      unfolding skip [OF that] by (rule find_str_none [OF None])
    then have "\<not> occurs_at ops writes lim s needle j" if "int a \<le> j" for j
      using that by (simp add: occurs_at_iff)
    with run None show ?thesis by auto
  next
    case (Some i)
    define p where "p = offset s a + i"
    define k where "k = length (utf8_chars (take p s))"
    from find_str_first [OF Some] have first: "prefix needle (drop p s)" "i \<le> length s - offset s a"
      "\<And>m. m < i \<Longrightarrow> \<not> prefix needle (drop m (drop (offset s a) s))"
      by (simp_all add: p_def add.commute)
    have k: "offset s k = p \<and> k \<le> length (utf8_chars s)"
    proof (cases "needle = []")
      case True
      with first(3) [of 0] have "p = offset s a" by (cases i) (auto simp: p_def)
      then show ?thesis using assms(2) by (simp add: k_def utf8_chars_offset)
    next
      case False
      with first(1) have "p < length s" "s ! p = hd needle"
        by (auto simp: prefix_def) (metis append_is_Nil_conv drop_eq_Nil linorder_not_less,
            metis append_is_Nil_conv drop_eq_Nil hd_append2 hd_drop_conv_nth linorder_not_less)
      then show ?thesis
        using offset_boundary [of p s] utf8_valid_lead [OF assms(1) False] by (simp add: k_def)
    qed
    have "a \<le> k" using offset_strict [of k a s] assms(2) k(1) by (cases "k < a") (auto simp: p_def)
    moreover have "\<not> occurs_at ops writes lim s needle j" if j: "int a \<le> j" "j < int k" for j
    proof -
      have "offset s (nat j) < p" using offset_strict [of "nat j" k s] j k by simp
      moreover have "offset s a \<le> offset s (nat j)" using j(1) by (intro offset_mono) simp
      ultimately have "offset s (nat j) - offset s a < i" by (simp add: p_def)
      from first(3) [OF this] have "\<not> prefix needle (drop (offset s (nat j)) s)" unfolding skip [OF j(1)] .
      then show ?thesis by (simp add: occurs_at_iff)
    qed
    moreover have "occurs_at ops writes lim s needle (int k)"
      using k first(1) by (simp add: occurs_at_iff)
    ultimately show ?thesis using run Some by (auto simp: k_def p_def)
  qed
qed

definition ops_example :: engine_ops where
  "ops_example =
     \<lparr>eo_value_eq = (\<lambda>v w. v = w), eo_key_eq = (\<lambda>k l. k = l), eo_at_least = (\<lambda>_ _. True), eo_below = (\<lambda>_ _. True),
      eo_trunc = (\<lambda>_. 0), eo_of_int = (\<lambda>_. None), eo_parse_number = (\<lambda>_. None), eo_show = (\<lambda>_. [])\<rparr>"

text \<open>The string is an e with an acute accent, of two bytes, between two letters.\<close>

theorem index_of_first_witness:
  "dispatch ops_example (\<lambda>_. []) default_limits ''indexOf''
     [CelString [CHR ''b'', CHR 0xC3, CHR 0xA9, CHR ''b''], CelString ''b'', CelInt (int 1)] = Ok (CelInt 2)
   \<and> occurs_at ops_example (\<lambda>_. []) default_limits [CHR ''b'', CHR 0xC3, CHR 0xA9, CHR ''b''] ''b'' 2"
proof -
  let ?s = "[CHR ''b'', CHR 0xC3, CHR 0xA9, CHR ''b'']"
  have "utf8_valid ''b''" "1 \<le> length (utf8_chars ?s)" by code_simp+
  note first = index_of_first [OF this, of ops_example "\<lambda>_. []" default_limits]
  have "dispatch ops_example (\<lambda>_. []) default_limits ''indexOf'' [CelString ?s, CelString ''b'', CelInt (int 1)] =
      Ok (CelInt 2)" by code_simp
  with first show ?thesis by auto
qed

section \<open>Splitting and joining\<close>

lemma intercalate_Cons: "ss \<noteq> [] \<Longrightarrow> intercalate sep (s # ss) = s @ sep @ intercalate sep ss"
  by (cases ss) simp_all

lemma splitn_join: "0 < n \<Longrightarrow> splitn n sep s \<noteq> [] \<and> intercalate sep (splitn n sep s) = s"
proof (induction n sep s rule: splitn.induct)
  case (1 n sep s)
  show ?case
  proof (cases "n = 1 \<or> sep = [] \<or> find_str sep s = None")
    case True
    with 1(2) show ?thesis by (subst (1 2) splitn.simps) auto
  next
    case False
    then obtain i where i: "find_str sep s = Some i" by auto
    from find_str_first [OF i] have "drop i s = sep @ drop (i + length sep) s"
      by (metis add.commute append_eq_conv_conj drop_drop prefixE)
    then have s: "take i s @ sep @ drop (i + length sep) s = s" by (metis append_take_drop_id)
    have "splitn (n - 1) sep (drop (i + length sep) s) \<noteq> []
        \<and> intercalate sep (splitn (n - 1) sep (drop (i + length sep) s)) = drop (i + length sep) s"
      using 1(1) [OF _ _ i] 1(2) False by auto
    moreover have "splitn n sep s = take i s # splitn (n - 1) sep (drop (i + length sep) s)"
      using 1(2) False i by (subst splitn.simps) simp
    ultimately show ?thesis using s by (simp add: intercalate_Cons del: intercalate.simps)
  qed
qed

lemma char_parts_concat: "0 < n \<Longrightarrow> concat (char_parts n cs) = concat cs"
  by (induction n cs rule: char_parts.induct) auto

lemma intercalate_empty: "intercalate [] ss = concat ss"
proof (cases ss)
  case (Cons t ts)
  have "map ((@) []) ts = ts" by (induction ts) simp_all
  with Cons show ?thesis by simp
qed simp

lemma split_parts_join: "0 < n \<Longrightarrow> intercalate sep (split_parts n sep s) = s"
  using splitn_join [of n sep s] by (auto simp: split_parts_def intercalate_empty char_parts_concat)

lemma add_parts_Ok: "add_parts lim out ps = Ok vs \<Longrightarrow> vs = out @ map CelString ps"
  by (induction ps arbitrary: out) (force split: if_splits)+

lemma joined_bytes_le:
  "\<exists>m. joined_bytes b (map CelString ss) = Ok m \<and> m \<le> b + length (concat ss)"
proof (induction ss arbitrary: b)
  case (Cons s ss)
  from Cons [of "sat_add b (length s)"] show ?case by (auto simp: string_arg_def sat_add_def intro: le_trans)
qed simp

lemma intercalate_length: "length (intercalate sep ss) = length sep * (length ss - 1) + length (concat ss)"
  by (cases ss) (auto simp: length_concat comp_def sum_list_addf sum_list_triv)

lemma try_map_strings: "try_map string_arg (map CelString ss) = Ok ss"
  by (induction ss) (simp_all add: string_arg_def)

text \<open>C25: Joining undoes splitting.  If a string that fits the output is split at a separator, into
  any number of parts but zero, then joining the parts with the same separator succeeds and gives the
  string.\<close>

theorem split_then_join:
  assumes "dispatch ops writes lim ''split'' (CelString s # CelString sep # rest) = Ok parts"
    and "rest \<noteq> [CelInt 0]" and "length s \<le> output_bytes lim"
  shows "dispatch ops writes lim ''join'' [parts, CelString sep] = Ok (CelString s)"
proof -
  from assms(1) obtain n vs where n: "split_count rest = Ok n" "length rest \<le> 1"
    and vs: "add_parts lim [] (split_parts n sep s) = Ok vs" "parts = CelList vs"
    by (auto simp: dispatch_def unary_functions_def fn_split_def string_arg_def rtry_eq_Ok_iff split: if_splits)
  have "0 < n"
    using n assms(2) by (auto simp: split_count_def index_arg_def u64_max_def split: list.splits cel_value.splits if_splits)
  from split_parts_join [OF this] have join: "intercalate sep (split_parts n sep s) = s" .
  from add_parts_Ok [OF vs(1)] have strings: "vs = map CelString (split_parts n sep s)" by simp
  obtain m where m: "joined_bytes (sat_mul (length sep) (length vs - 1)) vs = Ok m"
      "m \<le> sat_mul (length sep) (length vs - 1) + length (concat (split_parts n sep s))"
    using joined_bytes_le unfolding strings by blast
  note m(2)
  also have "\<dots> \<le> length s"
    using intercalate_length [of sep "split_parts n sep s"] strings by (simp add: join sat_mul_def)
  finally have "\<not> output_bytes lim < m" using assms(3) by simp
  with m(1) vs(2) show ?thesis
    by (simp add: dispatch_def unary_functions_def fn_join_def string_arg_def [of "CelString sep"] strings
        try_map_strings join)
qed

theorem split_then_join_witness:
  "dispatch ops_example (\<lambda>_. []) default_limits ''split'' [CelString ''a, b, c'', CelString '', '', CelInt 2] =
     Ok (CelList [CelString ''a'', CelString ''b, c''])
   \<and> dispatch ops_example (\<lambda>_. []) default_limits ''join'' [CelList [CelString ''a'', CelString ''b, c''], CelString '', ''] =
     Ok (CelString ''a, b, c'')"
proof -
  have "dispatch ops_example (\<lambda>_. []) default_limits ''split'' [CelString ''a, b, c'', CelString '', '', CelInt 2] =
     Ok (CelList [CelString ''a'', CelString ''b, c''])"
    by (simp add: dispatch_def unary_functions_def fn_split_def string_arg_def split_count_def index_arg_def
        split_parts_def splitn.simps default_limits_def limit_failure_def)
  with split_then_join [OF this] show ?thesis by (simp add: default_limits_def)
qed

section \<open>Conversions\<close>

lemma utf8_lossy_valid: "utf8_valid s \<Longrightarrow> utf8_lossy s = s"
proof (induction s rule: utf8_valid.induct)
  case (1 s)
  then show ?case
    by (subst utf8_lossy.simps) (auto simp: utf8_valid.simps [of s] split: if_splits utf8_chunk.splits)
qed

lemma string_of_bytes:
  "utf8_valid s \<Longrightarrow>
   rtry (dispatch ops writes lim ''bytes'' [CelString s]) (\<lambda>b. dispatch ops writes lim ''string'' [b]) =
     Ok (CelString s)"
  by (simp add: dispatch_def unary_functions_def fn_bytes_def fn_string_def utf8_lossy_valid)

end
