(* ===== verification/Spec2Isabelle.thy ===== *)
theory Spec2Isabelle
  imports Rate_Window Replay_Store Gateway_Handlers Unified_Security Llm_Usage Llm_Routing Plan_Safety Pipeline_Safety Journal_Safety
    Expr_Uri Retry_Policy Workflow_Policy Expr_Worker Expr_Functions
begin

text \<open>
  A verification development of light-fabric: the policies of its gateways and the expression,
  policy and journal layers of its workflow runtime.

  \<^bold>\<open>The program and what is modelled.\<close>  A request to a gateway passes a chain of policies before it
  is dispatched; a workflow task is placed on an execution profile, its fields are computed by
  expressions, and the runner records what it did in a journal.  Each theory below translates the
  named files under \<open>src/\<close>: a struct is a record, an enum a datatype, a function one definition (long
  functions are cut into the parts their text has), a mutable object is passed explicitly, and every
  early return is a branch of a result.

  Foundations.  \<open>Lf_Prelude\<close>: results, saturating and checked \<open>u64\<close> arithmetic, ordered maps and the
  locale \<open>kv_map\<close> of keyed stores.  \<open>Rust_Strings\<close>: strings as UTF-8 bytes, trimming, splitting,
  numbers.  \<open>Net_Addr\<close>: \<open>std::net::IpAddr\<close>.

  Gateway policies, \<open>crates/gateway-policy\<close>.  \<open>Gateway_Config\<close> (\<open>lib.rs\<close>, \<open>config_util.rs\<close>; locale
  \<open>longest_prefix\<close>), \<open>Audit_Fields\<close> (\<open>audit.rs\<close>), \<open>Proxy_Trust\<close> (\<open>rate_limit/source.rs\<close>), \<open>Rate_Limit\<close>
  and \<open>Rate_Window\<close> (\<open>rate_limit.rs\<close>), \<open>Gateway_Handlers\<close> (headers, correlation, direct registry,
  CORS), \<open>Gateway_Auth\<close> (API keys, Basic authentication), \<open>Unified_Security\<close> (\<open>unified_security.rs\<close>),
  with the types of \<open>Security_Types\<close> (\<open>crates/light-security\<close>) and the webhook store of
  \<open>Replay_Store\<close> (\<open>frameworks/light-pingora/src/hmac_replay.rs\<close>; locale \<open>replay_store\<close>).  The lemmas
  show that the client address is the rightmost untrusted hop, that no window of a quota admits more
  than the quota, that a replay identity is reserved once, that credentials are accepted exactly as
  configured, and that a validated configuration leaves no way around HMAC.

  Serverless gateway, \<open>crates/serverless-core\<close>.  \<open>Path_Template\<close> and \<open>Path_Language\<close> (routes and the
  emptiness test of path languages, \<open>plan.rs\<close>), \<open>Exec_Plan\<close> and \<open>Plan_Safety\<close> (compilation of chains,
  \<open>compat.rs\<close>, \<open>plan.rs\<close>), \<open>Exchange\<close>, \<open>Pipeline\<close> and \<open>Pipeline_Safety\<close> (\<open>types.rs\<close>,
  \<open>request_state.rs\<close>, \<open>pipeline.rs\<close>).  The lemmas show that the most specific route wins, that compiled
  chains have the required shape, and that every execution, with any handlers, follows the protocol:
  dispatch after all policies and only with the identity they demand, one completion, finalization
  last.

  LLM gateway, \<open>crates/llm-gateway\<close> and \<open>crates/model-provider\<close>.  \<open>Llm_Error\<close>, \<open>Llm_Usage\<close> (a step
  relation over the atomic operations of the ledger, whose counters are 64-bit words) and
  \<open>Llm_Routing\<close> (the circuit breaker): the ledger never exceeds its budget in any interleaving, an
  open circuit admits one probe.

  Workflow expressions, \<open>crates/workflow-expression\<close>.  \<open>Expr_Scanner\<close> (\<open>scanner.rs\<close>, \<open>error.rs\<close>),
  \<open>Expr_Uri\<close> (\<open>uri.rs\<close>), \<open>Retry_Policy\<close> (\<open>retry_policy.rs\<close>), \<open>Expr_Compiler\<close> and \<open>Expr_Cache\<close>
  (\<open>lib.rs\<close>, \<open>compiler.rs\<close>), \<open>Expr_Json\<close> (\<open>json.rs\<close>), \<open>Expr_Functions\<close> (\<open>functions.rs\<close>), \<open>Expr_Step\<close>
  (\<open>step.rs\<close>), \<open>Step_Cache\<close> and \<open>Expr_Worker\<close> (\<open>worker.rs\<close>).  Scanning is invertible, placeholders
  cannot change the structure of a URI, the audit decides exactly its specification, limits are
  exact, \<open>indexOf\<close> and \<open>split\<close> meet their specifications on characters, and the results of a step have
  the type of their position.  The locale \<open>compilers\<close> relates two compilers, \<open>worker_service\<close> two
  engines; interpreted on the cache and on a compiler without memory they give that a caller of a
  worker cannot observe the cache, and that a handle evaluates the source it was issued for, in
  every interleaving.

  Execution.  \<open>Workflow_Policy\<close> (\<open>crates/workflow-policy\<close> and the types it uses of
  \<open>crates/execution-runner-protocol\<close>): a task is never placed below its policy.  \<open>Runner_Journal\<close> and
  \<open>Journal_Safety\<close> (\<open>apps/light-workflow-runner/src/journal.rs\<close>; locale \<open>row_table\<close>): a broker request
  is new once, budgets hold, and stored results survive any sequence of operations.

  \<^bold>\<open>Parameters.\<close>  Library code is an argument of the definitions that use it: the CEL parser and engine,
  the JSON and YAML codecs, hashes and key derivation, the HTTP crates, network prefixes, clocks.
  What a theorem needs of them is a hypothesis, such as \<open>collision_free\<close> for the digest of sources.
  Floating-point numbers are carried as their display form.  What other threads do is an argument as
  well: the looks of a step at its cancellation flag, the turns of a worker loop, the steps of a
  ledger, the answers of handlers.

  \<^bold>\<open>Termination and bounds.\<close>  All definitions are total.  Loops of the source are recursions with a
  proved measure, so that no fuel is chosen anywhere.  A \<open>usize\<close> or \<open>u64\<close> is a natural number with the
  saturating, checked or wrapping operation of the source written out; where the source adds without
  a check the sums stay below a limit that is tested before.

  \<^bold>\<open>Not modelled.\<close>  Of the modelled crates: the body sanitizer, token and metrics files of
  \<open>gateway-policy\<close>, which are tables and calls of crypto and OAuth libraries; the admission checks of
  \<open>workflow-expression/src/validation.rs\<close>, whose subject is the whole workflow language, and the
  facade that starts a process-wide pool; thread creation and channel transport; the handlers of
  \<open>serverless-core\<close>, which the pipeline theorems quantify over; the provider clients and routing
  tables of the LLM crates.  The other crates and applications are servers, clients and stores whose
  behaviour is that of HTTP, PostgreSQL, Redis or cloud interfaces; they are listed as not modelled in
  the manifest, each with its reason.
\<close>

end
